theory Spec2Isabelle
  imports Complex_Main "HOL-Library.Monad_Syntax"
begin

section \<open>Mesh to volume conversion (openvdb/tools/MeshToVolume.h)\<close>

text \<open>
  A shallow embedding of the parts of \<^verbatim>\<open>MeshToVolume.h\<close> that the specification
  speaks about.  Conventions:

  \<^item> \<^verbatim>\<open>DistValueT\<close>, the value type of the distance tree, is \<^verbatim>\<open>float\<close> or \<^verbatim>\<open>double\<close>; the
    functions whose result depends on it take it as their argument \<open>P\<close>.  A finite
    floating-point value is a \<open>real\<close>.  Comparison, negation, \<^verbatim>\<open>std::abs\<close>, \<^verbatim>\<open>std::min\<close> and
    \<^verbatim>\<open>std::max\<close> are exact on such values.  A subtraction, a product, \<^verbatim>\<open>std::sqrt\<close> and a
    conversion to \<^verbatim>\<open>DistValueT\<close> are the exact operation followed by the rounding of the format
    (\<open>fl64\<close>, \<open>fl32\<close>); the square root of a negative value is \<open>None\<close>.
  \<^item> The background \<^verbatim>\<open>std::numeric_limits<DistValueT>::max()\<close> is written as the largest
    \<^verbatim>\<open>double\<close>.  It is compared with squared distances in index space and with values of
    the tree other than itself, which are below the largest \<^verbatim>\<open>float\<close> as well.
  \<^item> \<^verbatim>\<open>Coord\<close> components and \<^verbatim>\<open>Int32\<close> primitive indices are \<open>int\<close>; no operation of
    the model leaves the 32-bit range unless its input does.
  \<^item> The interrupter is absent (the constructors' default \<^verbatim>\<open>interrupter = NULL\<close>), so every
    \<^verbatim>\<open>if (mInterrupter && mInterrupter->wasInterrupted())\<close> test is false.
  \<^item> \<^verbatim>\<open>runParallel\<close> is read as \<^verbatim>\<open>runSerial\<close>: one task that walks the whole range in order.
  \<^item> An index outside \<^verbatim>\<open>pointList\<close> or \<^verbatim>\<open>polygonList\<close> is undefined behaviour in the
    source; the model returns \<open>None\<close> there.
\<close>

subsection \<open>Coordinates and vectors\<close>

type_synonym Coord = "int \<times> int \<times> int"
type_synonym Vec3d = "real \<times> real \<times> real"
type_synonym DistValueT = real
type_synonym Int32 = int

text \<open>\<^verbatim>\<open>Coord::operator+\<close>.\<close>

definition coordAdd :: "Coord \<Rightarrow> Coord \<Rightarrow> Coord" where
  "coordAdd a b = (case a of (i, j, k) \<Rightarrow> case b of (x, y, z) \<Rightarrow> (i + x, j + y, k + z))"

text \<open>\<^verbatim>\<open>Vec3d voxelCenter(ijk[0], ijk[1], ijk[2])\<close>.\<close>

definition voxelCenter :: "Coord \<Rightarrow> Vec3d" where
  "voxelCenter ijk = (case ijk of (i, j, k) \<Rightarrow> (real_of_int i, real_of_int j, real_of_int k))"

text \<open>\<^verbatim>\<open>std::numeric_limits<double>::max()\<close>, the background of the distance tree and the
  initial distance of \<^verbatim>\<open>ExpandNB::getDist\<close>.\<close>

definition DistValueT_max :: real where
  "DistValueT_max = (2 - 1 / 2 ^ 52) * 2 ^ 1023"

text \<open>
  Modelled from the spec: \<^verbatim>\<open>util::INVALID_IDX\<close> (openvdb/util/Util.h is not among the
  sources) is the maximum 32-bit unsigned value; \<^verbatim>\<open>Int32(util::INVALID_IDX)\<close> is that value
  reinterpreted as a signed integer.
\<close>

definition INVALID_IDX :: nat where
  "INVALID_IDX = 4294967295"

definition Int32_INVALID_IDX :: Int32 where
  "Int32_INVALID_IDX = - 1"

subsection \<open>Floating-point values\<close>

text \<open>
  A finite value of a binary floating-point format is a real number; an operation of the
  program that rounds is the exact operation followed by the rounding of the format: to
  the nearest value, ties to the even significand, with gradual underflow.  The format has
  \<open>p\<close> significand bits and normal exponents from \<open>emin\<close> to \<open>emax\<close>.  A result too large for
  the format is rounded on the grid of the top binade, so it is a real beyond the largest
  finite value and compares with the finite values as the infinity does.
\<close>

definition pow2 :: "int \<Rightarrow> real" where
  "pow2 e = (if 0 \<le> e then 2 ^ nat e else 1 / 2 ^ nat (- e))"

definition roundTiesToEven :: "real \<Rightarrow> int" where
  "roundTiesToEven r =
     (let f = \<lfloor>r\<rfloor> in
      if r - of_int f < 1 / 2 then f
      else if r - of_int f > 1 / 2 then f + 1
      else if even f then f else f + 1)"

text \<open>The exponent of the binade of \<open>x\<close>: the largest \<open>e\<close> of the format with \<open>2\<^sup>e \<le> \<bar>x\<bar>\<close>, and
  \<open>emin\<close> below the normal range.\<close>

definition binade :: "int \<Rightarrow> int \<Rightarrow> real \<Rightarrow> int" where
  "binade emin emax x = Max (insert emin {e \<in> {emin..emax}. pow2 e \<le> \<bar>x\<bar>})"

definition roundBinary :: "nat \<Rightarrow> int \<Rightarrow> int \<Rightarrow> real \<Rightarrow> real" where
  "roundBinary p emin emax x =
     (let ulp = pow2 (binade emin emax x - int p + 1)
      in of_int (roundTiesToEven (x / ulp)) * ulp)"

text \<open>Rounding to \<^verbatim>\<open>double\<close> and to \<^verbatim>\<open>float\<close>.\<close>

definition fl64 :: "real \<Rightarrow> real" where
  "fl64 = roundBinary 53 (- 1022) 1023"

definition fl32 :: "real \<Rightarrow> real" where
  "fl32 = roundBinary 24 (- 126) 127"

text \<open>The value type of the distance tree, \<^verbatim>\<open>DistTreeT::ValueType\<close>, is \<^verbatim>\<open>float\<close> or \<^verbatim>\<open>double\<close>.
  \<^verbatim>\<open>DistValueT(x)\<close> for a \<^verbatim>\<open>double\<close> \<open>x\<close> rounds in a \<^verbatim>\<open>float\<close> tree and is \<open>x\<close> in a
  \<^verbatim>\<open>double\<close> tree.\<close>

datatype ValueT = FloatT | DoubleT

definition DistValueT_of :: "ValueT \<Rightarrow> real \<Rightarrow> real" where
  "DistValueT_of P x = (case P of FloatT \<Rightarrow> fl32 x | DoubleT \<Rightarrow> x)"


text \<open>The literal \<^verbatim>\<open>0.86602540378443861\<close> is the \<^verbatim>\<open>double\<close> nearest to it.\<close>

definition lit_0_86602540378443861 :: real where
  "lit_0_86602540378443861 = 3900231685776981 / 2 ^ 52"

subsection \<open>The sparse-grid facade\<close>

text \<open>
  Modelled from the spec: the tree classes (openvdb/tree) are not among the sources.  A tree
  is a background value, the value and the active state of every lattice site, and the
  origins of its allocated leaf nodes (cubes of side \<open>leafDim\<close>); a site outside every leaf
  reads the value of the tile or background that covers it.
\<close>

record 'a Tree =
  background :: 'a
  leafDim :: int
  voxel :: "Coord \<Rightarrow> 'a"
  active :: "Coord \<Rightarrow> bool"
  leafs :: "Coord list"

definition createTree :: "int \<Rightarrow> 'a \<Rightarrow> 'a Tree" where
  "createTree d bg =
     \<lparr>background = bg, leafDim = d, voxel = (\<lambda>_. bg), active = (\<lambda>_. False), leafs = []\<rparr>"

text \<open>The origin of the leaf that holds a site (\<^verbatim>\<open>xyz & ~(DIM - 1)\<close>), and a leaf's sites
  in the order of its value iterators.\<close>

definition leafOrigin :: "int \<Rightarrow> Coord \<Rightarrow> Coord" where
  "leafOrigin d c = (case c of (i, j, k) \<Rightarrow> (i - i mod d, j - j mod d, k - k mod d))"

definition leafCoords :: "int \<Rightarrow> Coord \<Rightarrow> Coord list" where
  "leafCoords d orig =
     (case orig of (i, j, k) \<Rightarrow>
        [(i + x, j + y, k + z). x \<leftarrow> [0..d - 1], y \<leftarrow> [0..d - 1], z \<leftarrow> [0..d - 1]])"

definition getValue :: "'a Tree \<Rightarrow> Coord \<Rightarrow> 'a" where
  "getValue T c = voxel T c"

definition isValueOn :: "'a Tree \<Rightarrow> Coord \<Rightarrow> bool" where
  "isValueOn T c = active T c"

text \<open>\<^verbatim>\<open>probeValue(ijk, val)\<close>: the active state, and the value through the reference.\<close>

definition probeValue :: "'a Tree \<Rightarrow> Coord \<Rightarrow> bool \<times> 'a" where
  "probeValue T c = (active T c, voxel T c)"

text \<open>\<^verbatim>\<open>probeLeaf(ijk) != NULL\<close> and \<^verbatim>\<open>touchLeaf(ijk)\<close>.\<close>

definition probeLeaf :: "'a Tree \<Rightarrow> Coord \<Rightarrow> bool" where
  "probeLeaf T c = (leafOrigin (leafDim T) c \<in> set (leafs T))"

definition touchLeaf :: "'a Tree \<Rightarrow> Coord \<Rightarrow> 'a Tree" where
  "touchLeaf T c =
     (if probeLeaf T c then T else T\<lparr>leafs := leafs T @ [leafOrigin (leafDim T) c]\<rparr>)"

text \<open>Accessor writes allocate the leaf; \<^verbatim>\<open>setValue\<close> also switches the site on.\<close>

definition setValue :: "'a Tree \<Rightarrow> Coord \<Rightarrow> 'a \<Rightarrow> 'a Tree" where
  "setValue T c v = (touchLeaf T c)\<lparr>voxel := (voxel T)(c := v), active := (active T)(c := True)\<rparr>"

definition setValueOff :: "'a Tree \<Rightarrow> Coord \<Rightarrow> 'a \<Rightarrow> 'a Tree" where
  "setValueOff T c v =
     (touchLeaf T c)\<lparr>voxel := (voxel T)(c := v), active := (active T)(c := False)\<rparr>"

definition setActiveState :: "'a Tree \<Rightarrow> Coord \<Rightarrow> bool \<Rightarrow> 'a Tree" where
  "setActiveState T c b = (touchLeaf T c)\<lparr>active := (active T)(c := b)\<rparr>"

text \<open>Writes through a leaf or a leaf iterator: the leaf exists already.\<close>

definition leaf_setValueOn :: "'a Tree \<Rightarrow> Coord \<Rightarrow> 'a \<Rightarrow> 'a Tree" where
  "leaf_setValueOn T c v = T\<lparr>voxel := (voxel T)(c := v), active := (active T)(c := True)\<rparr>"

definition leaf_setValueOff :: "'a Tree \<Rightarrow> Coord \<Rightarrow> 'a \<Rightarrow> 'a Tree" where
  "leaf_setValueOff T c v = T\<lparr>voxel := (voxel T)(c := v), active := (active T)(c := False)\<rparr>"

definition iter_setValue :: "'a Tree \<Rightarrow> Coord \<Rightarrow> 'a \<Rightarrow> 'a Tree" where
  "iter_setValue T c v = T\<lparr>voxel := (voxel T)(c := v)\<rparr>"

definition iter_setValueOff :: "'a Tree \<Rightarrow> Coord \<Rightarrow> 'a Tree" where
  "iter_setValueOff T c = T\<lparr>active := (active T)(c := False)\<rparr>"

text \<open>\<^verbatim>\<open>leaf.beginValueOn()\<close>: the active sites of the leaf at \<open>orig\<close>.\<close>

definition beginValueOn :: "'a Tree \<Rightarrow> Coord \<Rightarrow> Coord list" where
  "beginValueOn T orig = filter (active T) (leafCoords (leafDim T) orig)"

definition activeVoxelCount :: "'a Tree \<Rightarrow> nat" where
  "activeVoxelCount T = length (concat (map (beginValueOn T) (leafs T)))"

text \<open>\<^verbatim>\<open>LeafTransformer(leafs, op).runParallel()\<close>: \<open>op\<close> on every leaf of the tree.\<close>

definition LeafTransformer :: "(Coord \<Rightarrow> 'a Tree \<Rightarrow> 'a Tree) \<Rightarrow> 'a Tree \<Rightarrow> 'a Tree" where
  "LeafTransformer op T = fold op (leafs T) T"

subsection \<open>Post-processing functors\<close>

text \<open>\<^verbatim>\<open>internal::TrimOp::operator()\<close>, its loop body first.\<close>

definition TrimOp_body :: "DistValueT \<Rightarrow> DistValueT \<Rightarrow> Coord \<Rightarrow> DistValueT Tree \<Rightarrow> DistValueT Tree" where
  "TrimOp_body mExBandWidth mInBandWidth c T =
     (let val = voxel T c; inside = (val < 0) in
      if inside \<and> \<not> (val > - mInBandWidth)
      then iter_setValueOff (iter_setValue T c (- mInBandWidth)) c
      else if \<not> inside \<and> \<not> (val < mInBandWidth)
      then iter_setValueOff (iter_setValue T c mExBandWidth) c
      else T)"

definition TrimOp :: "DistValueT \<Rightarrow> DistValueT \<Rightarrow> Coord \<Rightarrow> DistValueT Tree \<Rightarrow> DistValueT Tree" where
  "TrimOp mExBandWidth mInBandWidth leaf T =
     fold (TrimOp_body mExBandWidth mInBandWidth) (beginValueOn T leaf) T"

subsection \<open>The driver\<close>

text \<open>\<^verbatim>\<open>mTransform->voxelSize()\<close> answers from the transform's map, which is not among the
  sources; the transform is that answer.\<close>

record Transform =
  Transform_voxelSize :: Vec3d

record MeshToVolume =
  mTransform :: Transform
  mConversionFlags :: int
  mSignSweeps :: int
  mDistGrid :: "DistValueT Tree"
  mIndexGrid :: "Int32 Tree"
  mIntersectingVoxelsGrid :: "bool Tree"

text \<open>\<^verbatim>\<open>MeshToVolume::clear\<close> and the constructor; \<open>d\<close> is \<^verbatim>\<open>LeafNodeType::DIM\<close> of the tree
  type.\<close>

definition MeshToVolume_clear :: "int \<Rightarrow> MeshToVolume \<Rightarrow> MeshToVolume" where
  "MeshToVolume_clear d m =
     m\<lparr>mDistGrid := createTree d DistValueT_max,
       mIndexGrid := createTree d Int32_INVALID_IDX,
       mIntersectingVoxelsGrid := createTree d False\<rparr>"

definition MeshToVolume_new :: "int \<Rightarrow> Transform \<Rightarrow> int \<Rightarrow> int \<Rightarrow> MeshToVolume" where
  "MeshToVolume_new d transform conversionFlags signSweeps =
     (let m = MeshToVolume_clear d
                \<lparr>mTransform = transform, mConversionFlags = conversionFlags,
                 mSignSweeps = signSweeps,
                 mDistGrid = createTree d DistValueT_max,
                 mIndexGrid = createTree d Int32_INVALID_IDX,
                 mIntersectingVoxelsGrid = createTree d False\<rparr>
      in m\<lparr>mSignSweeps := min (mSignSweeps m) 1\<rparr>)"

text \<open>The sign sweeps of \<^verbatim>\<open>doConvert\<close>:
  \<^verbatim>\<open>for (int i = 0; i < mSignSweeps; ++i) { trace.runParallel(); propagateSign(...); }\<close>\<close>

function signSweepLoop :: "('s \<Rightarrow> 's) \<Rightarrow> ('s \<Rightarrow> 's) \<Rightarrow> int \<Rightarrow> int \<Rightarrow> 's \<Rightarrow> 's" where
  "signSweepLoop trace propagateSign n i s =
     (if i < n then signSweepLoop trace propagateSign n (i + 1) (propagateSign (trace s)) else s)"
  by pat_completeness auto
termination
  by (relation "measure (\<lambda>(trace, propagateSign, n, i, s). nat (n - i))") auto

declare signSweepLoop.simps [simp del]

datatype Stage = ContourTracerRun | PropagateSign

subsection \<open>Trimming, site by site\<close>

text \<open>What one visit of \<^verbatim>\<open>TrimOp\<close> leaves at an active site: its value, and whether it
  stays active.\<close>

definition trimValue :: "real \<Rightarrow> real \<Rightarrow> real \<Rightarrow> real" where
  "trimValue ex inB v = (if v < 0 then (if v \<le> - inB then - inB else v) else (if inB \<le> v then ex else v))"

definition trimKeeps :: "real \<Rightarrow> real \<Rightarrow> bool" where
  "trimKeeps inB v = (if v < 0 then - inB < v else v < inB)"


text \<open>The sites that lie in an allocated leaf: those a leaf iteration can reach.\<close>

definition inLeaf :: "'a Tree \<Rightarrow> Coord \<Rightarrow> bool" where
  "inLeaf T c = (\<exists>l \<in> set (leafs T). c \<in> set (leafCoords (leafDim T) l))"

text \<open>A tree with one leaf of side 2 and three active sites.\<close>

definition trimExample :: "DistValueT Tree" where
  "trimExample = setValue (setValue (setValue (createTree 2 DistValueT_max) (0, 0, 0) 5) (0, 0, 1) (- 5)) (1, 0, 0) 1"

subsection \<open>The neighbour table\<close>

text \<open>
  Modelled from the spec: \<^verbatim>\<open>util::COORD_OFFSETS\<close> (openvdb/util/Util.h is not among the
  sources) is a fixed table of 26 offsets; entries 0 to 5 are the face neighbours, 0 to 17
  the face and edge neighbours, 0 to 25 all neighbours, and entries 3 and 5 are \<open>+j\<close> and
  \<open>+k\<close>.  The functions below take the table as their first argument.
\<close>

definition faceOffsets :: "Coord list" where
  "faceOffsets = [(- 1, 0, 0), (1, 0, 0), (0, - 1, 0), (0, 1, 0), (0, 0, - 1), (0, 0, 1)]"

definition edgeOffsets :: "Coord list" where
  "edgeOffsets =
     [(- 1, - 1, 0), (- 1, 1, 0), (1, - 1, 0), (1, 1, 0),
      (- 1, 0, - 1), (- 1, 0, 1), (1, 0, - 1), (1, 0, 1),
      (0, - 1, - 1), (0, - 1, 1), (0, 1, - 1), (0, 1, 1)]"

definition cornerOffsets :: "Coord list" where
  "cornerOffsets =
     [(- 1, - 1, - 1), (- 1, - 1, 1), (- 1, 1, - 1), (- 1, 1, 1),
      (1, - 1, - 1), (1, - 1, 1), (1, 1, - 1), (1, 1, 1)]"

definition COORD_OFFSETS_spec :: "Coord list \<Rightarrow> bool" where
  "COORD_OFFSETS_spec offs =
     (length offs = 26
      \<and> set (take 6 offs) = set faceOffsets
      \<and> set (take 18 offs) = set (faceOffsets @ edgeOffsets)
      \<and> set offs = set (faceOffsets @ edgeOffsets @ cornerOffsets)
      \<and> offs ! 3 = (0, 1, 0) \<and> offs ! 5 = (0, 0, 1))"

text \<open>One table that fits the description.\<close>

definition COORD_OFFSETS_example :: "Coord list" where
  "COORD_OFFSETS_example =
     [(1, 0, 0), (- 1, 0, 0), (0, - 1, 0), (0, 1, 0), (0, 0, - 1), (0, 0, 1)]
     @ edgeOffsets @ cornerOffsets"

text \<open>The sites \<^verbatim>\<open>ijk + util::COORD_OFFSETS[m]\<close> for \<open>m < n\<close>, in the order of the loop.\<close>

definition neighbourSites :: "Coord list \<Rightarrow> nat \<Rightarrow> Coord \<Rightarrow> Coord list" where
  "neighbourSites offs n ijk = map (coordAdd ijk) (take n offs)"

subsection \<open>The shell-voxel cleaner\<close>

text \<open>\<^verbatim>\<open>const DistValueT distC = -0.86602540378443861;\<close>: the literal is a \<^verbatim>\<open>double\<close>, converted
  to the value type of the tree.\<close>

definition distC :: "ValueT \<Rightarrow> DistValueT" where
  "distC P = DistValueT_of P (- lit_0_86602540378443861)"

text \<open>\<^verbatim>\<open>ShellVoxelCleaner::operator()\<close>: the body of the loop over the active sites of a
  leaf of the distance tree, the loop over one leaf, and the loop over the leaves.  The
  neighbour loop with its \<^verbatim>\<open>break\<close> is \<open>list_ex\<close>.\<close>

definition ShellVoxelCleaner_body ::
  "ValueT \<Rightarrow> Coord list \<Rightarrow> bool Tree \<Rightarrow> DistValueT \<Rightarrow> Int32 \<Rightarrow> Coord
     \<Rightarrow> DistValueT Tree \<times> Int32 Tree \<Rightarrow> DistValueT Tree \<times> Int32 Tree" where
  "ShellVoxelCleaner_body P offs M distBG indexBG ijk DI =
     (case DI of (D, I) \<Rightarrow>
        let val = voxel D ijk in
        if val > 0 then (D, I)
        else if isValueOn M ijk then (D, I)
        else
          let turnOff = \<not> list_ex (isValueOn M) (neighbourSites offs 18 ijk) in
          if turnOff then (leaf_setValueOff D ijk distBG, setValueOff I ijk indexBG)
          else (if val > distC P then leaf_setValueOn D ijk (distC P) else D, I))"

definition ShellVoxelCleaner_leaf ::
  "ValueT \<Rightarrow> Coord list \<Rightarrow> bool Tree \<Rightarrow> DistValueT \<Rightarrow> Int32 \<Rightarrow> Coord
     \<Rightarrow> DistValueT Tree \<times> Int32 Tree \<Rightarrow> DistValueT Tree \<times> Int32 Tree" where
  "ShellVoxelCleaner_leaf P offs M distBG indexBG leaf DI =
     fold (ShellVoxelCleaner_body P offs M distBG indexBG) (beginValueOn (fst DI) leaf) DI"

definition ShellVoxelCleaner_call ::
  "ValueT \<Rightarrow> Coord list \<Rightarrow> DistValueT Tree \<Rightarrow> Int32 Tree \<Rightarrow> bool Tree \<Rightarrow> DistValueT Tree \<times> Int32 Tree" where
  "ShellVoxelCleaner_call P offs D I M =
     (let distBG = background D;
          indexBG = (if background M then 1 else 0)
      in fold (ShellVoxelCleaner_leaf P offs M distBG indexBG) (leafs D) (D, I))"

text \<open>What a visit of the cleaner decides at a site with value \<open>v\<close>: whether the site is
  switched off, and the value it holds afterwards.\<close>

definition shellTurnsOff :: "Coord list \<Rightarrow> bool Tree \<Rightarrow> Coord \<Rightarrow> DistValueT \<Rightarrow> bool" where
  "shellTurnsOff offs M c v =
     (\<not> v > 0 \<and> \<not> active M c \<and> \<not> list_ex (isValueOn M) (neighbourSites offs 18 c))"

definition shellClamps :: "ValueT \<Rightarrow> Coord list \<Rightarrow> bool Tree \<Rightarrow> Coord \<Rightarrow> DistValueT \<Rightarrow> bool" where
  "shellClamps P offs M c v =
     (\<not> v > 0 \<and> \<not> active M c \<and> list_ex (isValueOn M) (neighbourSites offs 18 c) \<and> v > distC P)"

text \<open>A distance tree with one active site holding \<open>- 1 / 10\<close>, and an intersection tree
  whose only active site is its neighbour in \<open>+i\<close>.\<close>

definition shellExampleD :: "DistValueT Tree" where
  "shellExampleD = setValue (createTree 2 DistValueT_max) (0, 0, 0) (- (1 / 10))"

definition shellExampleM :: "bool Tree" where
  "shellExampleM = setActiveState (createTree 2 False) (1, 0, 0) True"

subsection \<open>The mesh voxelizer\<close>

text \<open>A polygon is four point indices (\<^verbatim>\<open>Vec4I\<close>, unsigned 32-bit); the fourth is
  \<open>INVALID_IDX\<close> for a triangle.  \<^verbatim>\<open>(*mPointList)[i]\<close> and \<^verbatim>\<open>(*mPolygonList)[polyIdx]\<close>
  are defined inside the lists only.\<close>

type_synonym Vec4I = "nat \<times> nat \<times> nat \<times> nat"

definition getPoint :: "Vec3d list \<Rightarrow> nat \<Rightarrow> Vec3d option" where
  "getPoint pointList i = (if i < length pointList then Some (pointList ! i) else None)"

definition getPolygon :: "Vec4I list \<Rightarrow> Int32 \<Rightarrow> Vec4I option" where
  "getPolygon polygonList polyIdx =
     (if 0 \<le> polyIdx \<and> nat polyIdx < length polygonList
      then Some (polygonList ! nat polyIdx) else None)"

text \<open>The trees a voxelizer owns.\<close>

record MeshVoxelizer =
  mSqrDistTree :: "DistValueT Tree"
  mPrimIndexTree :: "Int32 Tree"
  mIntersectionTree :: "bool Tree"
  mLastPrimTree :: "Int32 Tree"

definition MeshVoxelizer_new :: "int \<Rightarrow> MeshVoxelizer" where
  "MeshVoxelizer_new d =
     \<lparr>mSqrDistTree = createTree d DistValueT_max,
      mPrimIndexTree = createTree d Int32_INVALID_IDX,
      mIntersectionTree = createTree d False,
      mLastPrimTree = createTree d Int32_INVALID_IDX\<rparr>"

text \<open>\<^verbatim>\<open>MeshVoxelizer::shortEdge\<close>.  The six differences are differences of \<^verbatim>\<open>double\<close>
  values and round; \<^verbatim>\<open>std::abs\<close>, \<^verbatim>\<open>std::max\<close> and the comparison are exact.\<close>

definition shortEdge :: "Vec3d \<Rightarrow> Vec3d \<Rightarrow> Vec3d \<Rightarrow> bool" where
  "shortEdge v0 v1 v2 =
     (case v0 of (x0, y0, z0) \<Rightarrow> case v1 of (x1, y1, z1) \<Rightarrow> case v2 of (x2, y2, z2) \<Rightarrow>
        let edge_max = \<bar>fl64 (x1 - x0)\<bar>;
            edge_max = max edge_max \<bar>fl64 (y1 - y0)\<bar>;
            edge_max = max edge_max \<bar>fl64 (z1 - z0)\<bar>;
            edge_max = max edge_max \<bar>fl64 (x0 - x2)\<bar>;
            edge_max = max edge_max \<bar>fl64 (y0 - y2)\<bar>;
            edge_max = max edge_max \<bar>fl64 (z0 - z2)\<bar>
        in edge_max < 200)"

text \<open>\<^verbatim>\<open>MeshVoxelizer::evalVoxel\<close>.  The first argument is the value type of the distance
  tree and the second is \<^verbatim>\<open>math::triToPtnDistSqr\<close> (openvdb/math/Proximity.h, not among the
  sources): the squared distance from a point, its last argument, to a triangle, a
  \<^verbatim>\<open>double\<close>.  \<^verbatim>\<open>const DistValueT tmp(dist)\<close> converts it to the value type of the tree; the
  test of the result is on the \<^verbatim>\<open>double\<close>, against the \<^verbatim>\<open>double\<close> literal.\<close>

definition evalVoxel ::
  "ValueT \<Rightarrow> (Vec3d \<Rightarrow> Vec3d \<Rightarrow> Vec3d \<Rightarrow> Vec3d \<Rightarrow> real) \<Rightarrow> Vec3d list \<Rightarrow> Vec4I list
     \<Rightarrow> Coord \<Rightarrow> Int32 \<Rightarrow> MeshVoxelizer \<Rightarrow> (bool \<times> MeshVoxelizer) option" where
  "evalVoxel P triToPtnDistSqr pointList polygonList ijk polyIdx st =
     do {
       verts \<leftarrow> getPolygon polygonList polyIdx;
       case verts of (i0, i1, i2, i3) \<Rightarrow>
       do {
         p0 \<leftarrow> getPoint pointList i0;
         p1 \<leftarrow> getPoint pointList i1;
         p2 \<leftarrow> getPoint pointList i2;
         let dist = triToPtnDistSqr p0 p1 p2 (voxelCenter ijk);
         dist \<leftarrow>
           (if INVALID_IDX \<noteq> i3
            then do {
              p1 \<leftarrow> getPoint pointList i3;
              let secondDist = triToPtnDistSqr p0 p1 p2 (voxelCenter ijk);
              Some (if secondDist < dist then secondDist else dist)
            }
            else Some dist);
         let tmp = DistValueT_of P dist;
         let st =
           (if tmp < \<bar>getValue (mSqrDistTree st) ijk\<bar>
            then st\<lparr>mSqrDistTree := setValue (mSqrDistTree st) ijk (- tmp),
                    mPrimIndexTree := setValue (mPrimIndexTree st) ijk polyIdx\<rparr>
            else st);
         Some (dist < lit_0_86602540378443861, st)
       }
     }"

text \<open>The neighbour loop shared by both branches of \<^verbatim>\<open>MeshVoxelizer::operator()\<close>:
  \<^verbatim>\<open>if (primIdx != mLastPrimAccessor.getValue(n_ijk)) { mLastPrimAccessor.setValue(n_ijk, n); if (evalVoxel(n_ijk, n)) push(n_ijk); }\<close>
  over the given neighbour sites; the sites pushed are returned most recent first.\<close>

fun visitNeighbours ::
  "ValueT \<Rightarrow> (Vec3d \<Rightarrow> Vec3d \<Rightarrow> Vec3d \<Rightarrow> Vec3d \<Rightarrow> real) \<Rightarrow> Vec3d list \<Rightarrow> Vec4I list \<Rightarrow> Int32
     \<Rightarrow> Coord list \<Rightarrow> Coord list \<times> MeshVoxelizer \<Rightarrow> (Coord list \<times> MeshVoxelizer) option" where
  "visitNeighbours P tri pointList polygonList primIdx [] (pushed, st) = Some (pushed, st)"
| "visitNeighbours P tri pointList polygonList primIdx (n_ijk # ns) (pushed, st) =
     (if primIdx \<noteq> getValue (mLastPrimTree st) n_ijk
      then do {
        let st = st\<lparr>mLastPrimTree := setValue (mLastPrimTree st) n_ijk primIdx\<rparr>;
        (r, st) \<leftarrow> evalVoxel P tri pointList polygonList n_ijk primIdx st;
        visitNeighbours P tri pointList polygonList primIdx ns (if r then n_ijk # pushed else pushed, st)
      }
      else visitNeighbours P tri pointList polygonList primIdx ns (pushed, st))"

text \<open>The short-edge branch: the \<^verbatim>\<open>while (!coordList.empty())\<close> loop, with the back of the
  deque at the head of the list.  The loop is bounded by fuel; \<open>None\<close> is undefined behaviour
  or fuel spent.\<close>

fun shortEdgeFlood ::
  "nat \<Rightarrow> ValueT \<Rightarrow> (Vec3d \<Rightarrow> Vec3d \<Rightarrow> Vec3d \<Rightarrow> Vec3d \<Rightarrow> real) \<Rightarrow> Coord list \<Rightarrow> Vec3d list \<Rightarrow> Vec4I list
     \<Rightarrow> Int32 \<Rightarrow> Coord list \<Rightarrow> MeshVoxelizer \<Rightarrow> MeshVoxelizer option" where
  "shortEdgeFlood fuel P tri offs pointList polygonList primIdx [] st = Some st"
| "shortEdgeFlood 0 P tri offs pointList polygonList primIdx (ijk # coordList) st = None"
| "shortEdgeFlood (Suc fuel) P tri offs pointList polygonList primIdx (ijk # coordList) st =
     do {
       let st = st\<lparr>mIntersectionTree := setActiveState (mIntersectionTree st) ijk True\<rparr>;
       (coordList, st) \<leftarrow>
         visitNeighbours P tri pointList polygonList primIdx (neighbourSites offs 26 ijk) (coordList, st);
       shortEdgeFlood fuel P tri offs pointList polygonList primIdx coordList st
     }"

text \<open>The seeds of the short-edge branch: \<^verbatim>\<open>ijk = util::nearestCoord(p); evalVoxel(ijk, primIdx); coordList.push_back(ijk);\<close>
  The second argument is \<^verbatim>\<open>util::nearestCoord\<close> (not among the sources).\<close>

definition seedVoxel ::
  "ValueT \<Rightarrow> (Vec3d \<Rightarrow> Vec3d \<Rightarrow> Vec3d \<Rightarrow> Vec3d \<Rightarrow> real) \<Rightarrow> (Vec3d \<Rightarrow> Coord) \<Rightarrow> Vec3d list \<Rightarrow> Vec4I list
     \<Rightarrow> Int32 \<Rightarrow> Vec3d \<Rightarrow> Coord list \<times> MeshVoxelizer \<Rightarrow> (Coord list \<times> MeshVoxelizer) option" where
  "seedVoxel P tri nearestCoord pointList polygonList primIdx p cs =
     (case cs of (coordList, st) \<Rightarrow>
        do {
          let ijk = nearestCoord p;
          (r, st) \<leftarrow> evalVoxel P tri pointList polygonList ijk primIdx st;
          Some (ijk # coordList, st)
        })"

definition shortEdgeBranch ::
  "nat \<Rightarrow> ValueT \<Rightarrow> (Vec3d \<Rightarrow> Vec3d \<Rightarrow> Vec3d \<Rightarrow> Vec3d \<Rightarrow> real) \<Rightarrow> (Vec3d \<Rightarrow> Coord) \<Rightarrow> Coord list
     \<Rightarrow> Vec3d list \<Rightarrow> Vec4I list \<Rightarrow> Int32 \<Rightarrow> Vec4I \<Rightarrow> Vec3d \<Rightarrow> Vec3d \<Rightarrow> Vec3d
     \<Rightarrow> MeshVoxelizer \<Rightarrow> MeshVoxelizer option" where
  "shortEdgeBranch fuel P tri nearestCoord offs pointList polygonList primIdx verts p0 p1 p2 st =
     (case verts of (i0, i1, i2, i3) \<Rightarrow>
        do {
          cs \<leftarrow> seedVoxel P tri nearestCoord pointList polygonList primIdx p0 ([], st);
          cs \<leftarrow> seedVoxel P tri nearestCoord pointList polygonList primIdx p1 cs;
          cs \<leftarrow> seedVoxel P tri nearestCoord pointList polygonList primIdx p2 cs;
          cs \<leftarrow>
            (if INVALID_IDX \<noteq> i3
             then do {
               p3 \<leftarrow> getPoint pointList i3;
               seedVoxel P tri nearestCoord pointList polygonList primIdx p3 cs
             }
             else Some cs);
          shortEdgeFlood fuel P tri offs pointList polygonList primIdx (fst cs) (snd cs)
        })"

text \<open>The long-edge branch.  The auxiliary tree is the wavefront: one wave visits the leaves
  the tree had when the wave began and, in each, every site that is active when the
  iterator reaches it; a site is switched off when visited and the sites that
  \<^verbatim>\<open>evalVoxel\<close> accepts are switched on.  \<^verbatim>\<open>pruneInactive\<close> (not among the sources) then
  replaces the leaves without an active site by background tiles, and \<^verbatim>\<open>auxTree.empty()\<close>
  holds when no leaf is left.\<close>

fun longEdgeSites ::
  "ValueT \<Rightarrow> (Vec3d \<Rightarrow> Vec3d \<Rightarrow> Vec3d \<Rightarrow> Vec3d \<Rightarrow> real) \<Rightarrow> Coord list \<Rightarrow> Vec3d list \<Rightarrow> Vec4I list \<Rightarrow> Int32
     \<Rightarrow> Coord list \<Rightarrow> bool Tree \<times> MeshVoxelizer \<Rightarrow> (bool Tree \<times> MeshVoxelizer) option" where
  "longEdgeSites P tri offs pointList polygonList primIdx [] (auxTree, st) = Some (auxTree, st)"
| "longEdgeSites P tri offs pointList polygonList primIdx (ijk # sites) (auxTree, st) =
     (if isValueOn auxTree ijk
      then do {
        let auxTree = iter_setValueOff auxTree ijk;
        let st = st\<lparr>mIntersectionTree := setActiveState (mIntersectionTree st) ijk True\<rparr>;
        (pushed, st) \<leftarrow>
          visitNeighbours P tri pointList polygonList primIdx (neighbourSites offs 26 ijk) ([], st);
        let auxTree = fold (\<lambda>n_ijk a. setActiveState a n_ijk True) (rev pushed) auxTree;
        longEdgeSites P tri offs pointList polygonList primIdx sites (auxTree, st)
      }
      else longEdgeSites P tri offs pointList polygonList primIdx sites (auxTree, st))"

fun longEdgeLeafs ::
  "ValueT \<Rightarrow> (Vec3d \<Rightarrow> Vec3d \<Rightarrow> Vec3d \<Rightarrow> Vec3d \<Rightarrow> real) \<Rightarrow> Coord list \<Rightarrow> Vec3d list \<Rightarrow> Vec4I list \<Rightarrow> Int32
     \<Rightarrow> Coord list \<Rightarrow> bool Tree \<times> MeshVoxelizer \<Rightarrow> (bool Tree \<times> MeshVoxelizer) option" where
  "longEdgeLeafs P tri offs pointList polygonList primIdx [] as = Some as"
| "longEdgeLeafs P tri offs pointList polygonList primIdx (leaf # ls) as =
     do {
       as \<leftarrow> longEdgeSites P tri offs pointList polygonList primIdx
               (leafCoords (leafDim (fst as)) leaf) as;
       longEdgeLeafs P tri offs pointList polygonList primIdx ls as
     }"

definition pruneInactive :: "'a Tree \<Rightarrow> 'a Tree" where
  "pruneInactive T =
     T\<lparr>voxel := (\<lambda>c. if \<exists>l \<in> set (leafs T). beginValueOn T l = [] \<and> c \<in> set (leafCoords (leafDim T) l)
                      then background T else voxel T c),
       leafs := filter (\<lambda>l. beginValueOn T l \<noteq> []) (leafs T)\<rparr>"

fun longEdgeFlood ::
  "nat \<Rightarrow> ValueT \<Rightarrow> (Vec3d \<Rightarrow> Vec3d \<Rightarrow> Vec3d \<Rightarrow> Vec3d \<Rightarrow> real) \<Rightarrow> Coord list \<Rightarrow> Vec3d list \<Rightarrow> Vec4I list
     \<Rightarrow> Int32 \<Rightarrow> bool Tree \<times> MeshVoxelizer \<Rightarrow> (bool Tree \<times> MeshVoxelizer) option" where
  "longEdgeFlood fuel P tri offs pointList polygonList primIdx as =
     (if leafs (fst as) = [] then Some as
      else case fuel of
        0 \<Rightarrow> None
      | Suc fuel \<Rightarrow>
          do {
            (auxTree, st) \<leftarrow>
              longEdgeLeafs P tri offs pointList polygonList primIdx (leafs (fst as)) as;
            longEdgeFlood fuel P tri offs pointList polygonList primIdx (pruneInactive auxTree, st)
          })"

definition longEdgeBranch ::
  "nat \<Rightarrow> ValueT \<Rightarrow> (Vec3d \<Rightarrow> Vec3d \<Rightarrow> Vec3d \<Rightarrow> Vec3d \<Rightarrow> real) \<Rightarrow> (Vec3d \<Rightarrow> Coord) \<Rightarrow> Coord list
     \<Rightarrow> Vec3d list \<Rightarrow> Vec4I list \<Rightarrow> Int32 \<Rightarrow> Vec3d \<Rightarrow> bool Tree \<times> MeshVoxelizer
     \<Rightarrow> (bool Tree \<times> MeshVoxelizer) option" where
  "longEdgeBranch fuel P tri nearestCoord offs pointList polygonList primIdx p0 as =
     (case as of (auxTree, st) \<Rightarrow>
        do {
          let ijk = nearestCoord p0;
          (r, st) \<leftarrow> evalVoxel P tri pointList polygonList ijk primIdx st;
          let st = st\<lparr>mLastPrimTree := setValue (mLastPrimTree st) ijk primIdx\<rparr>;
          let auxTree = setActiveState auxTree ijk True;
          longEdgeFlood fuel P tri offs pointList polygonList primIdx (auxTree, st)
        })"

text \<open>\<^verbatim>\<open>MeshVoxelizer::operator()\<close>: the body of the loop over the primitives of the range
  (the auxiliary tree lives across primitives), the loop, and \<^verbatim>\<open>runSerial\<close>.\<close>

definition voxelizePrimitive ::
  "nat \<Rightarrow> ValueT \<Rightarrow> (Vec3d \<Rightarrow> Vec3d \<Rightarrow> Vec3d \<Rightarrow> Vec3d \<Rightarrow> real) \<Rightarrow> (Vec3d \<Rightarrow> Coord) \<Rightarrow> Coord list
     \<Rightarrow> Vec3d list \<Rightarrow> Vec4I list \<Rightarrow> nat \<Rightarrow> bool Tree \<times> MeshVoxelizer
     \<Rightarrow> (bool Tree \<times> MeshVoxelizer) option" where
  "voxelizePrimitive fuel P tri nearestCoord offs pointList polygonList n as =
     do {
       let primIdx = int n;
       verts \<leftarrow> getPolygon polygonList primIdx;
       case verts of (i0, i1, i2, i3) \<Rightarrow>
       do {
         p0 \<leftarrow> getPoint pointList i0;
         p1 \<leftarrow> getPoint pointList i1;
         p2 \<leftarrow> getPoint pointList i2;
         if shortEdge p0 p1 p2
         then do {
           st \<leftarrow> shortEdgeBranch fuel P tri nearestCoord offs pointList polygonList primIdx
                   verts p0 p1 p2 (snd as);
           Some (fst as, st)
         }
         else longEdgeBranch fuel P tri nearestCoord offs pointList polygonList primIdx p0 as
       }
     }"

fun MeshVoxelizer_call ::
  "nat \<Rightarrow> ValueT \<Rightarrow> (Vec3d \<Rightarrow> Vec3d \<Rightarrow> Vec3d \<Rightarrow> Vec3d \<Rightarrow> real) \<Rightarrow> (Vec3d \<Rightarrow> Coord) \<Rightarrow> Coord list
     \<Rightarrow> Vec3d list \<Rightarrow> Vec4I list \<Rightarrow> nat list \<Rightarrow> bool Tree \<times> MeshVoxelizer
     \<Rightarrow> (bool Tree \<times> MeshVoxelizer) option" where
  "MeshVoxelizer_call fuel P tri nearestCoord offs pointList polygonList [] as = Some as"
| "MeshVoxelizer_call fuel P tri nearestCoord offs pointList polygonList (n # ns) as =
     do {
       as \<leftarrow> voxelizePrimitive fuel P tri nearestCoord offs pointList polygonList n as;
       MeshVoxelizer_call fuel P tri nearestCoord offs pointList polygonList ns as
     }"

definition MeshVoxelizer_runSerial ::
  "nat \<Rightarrow> ValueT \<Rightarrow> (Vec3d \<Rightarrow> Vec3d \<Rightarrow> Vec3d \<Rightarrow> Vec3d \<Rightarrow> real) \<Rightarrow> (Vec3d \<Rightarrow> Coord) \<Rightarrow> Coord list
     \<Rightarrow> Vec3d list \<Rightarrow> Vec4I list \<Rightarrow> MeshVoxelizer \<Rightarrow> MeshVoxelizer option" where
  "MeshVoxelizer_runSerial fuel P tri nearestCoord offs pointList polygonList st =
     map_option snd
       (MeshVoxelizer_call fuel P tri nearestCoord offs pointList polygonList
          [0..<length polygonList]
          (createTree (leafDim (mIntersectionTree st)) False, st))"

text \<open>A point list and a polygon list for the examples: two triangles on the \<open>i\<close> axis and
  one quad; and a stand-in for the distance function (the squared distance to the
  triangle's first corner).\<close>

definition examplePoints :: "Vec3d list" where
  "examplePoints = [(0, 0, 0), (150, 0, 0), (- 150, 0, 0), (1, 0, 0), (0, 1, 0), (1, 1, 0)]"

definition examplePolygons :: "Vec4I list" where
  "examplePolygons = [(0, 1, 2, INVALID_IDX), (0, 3, 4, INVALID_IDX), (0, 3, 5, 4)]"

definition cornerDistSqr :: "Vec3d \<Rightarrow> Vec3d \<Rightarrow> Vec3d \<Rightarrow> Vec3d \<Rightarrow> real" where
  "cornerDistSqr p0 p1 p2 x =
     (case p0 of (a, b, c) \<Rightarrow> case x of (u, v, w) \<Rightarrow> (u - a)\<^sup>2 + (v - b)\<^sup>2 + (w - c)\<^sup>2)"

text \<open>A distance function that answers \<open>d\<close> everywhere, and a voxelizer that holds the squared
  distance 1 to primitive 0 at the site \<open>(0, 1, 0)\<close>, for the examples.\<close>

definition constDistSqr :: "real \<Rightarrow> Vec3d \<Rightarrow> Vec3d \<Rightarrow> Vec3d \<Rightarrow> Vec3d \<Rightarrow> real" where
  "constDistSqr d p0 p1 p2 x = d"

definition voxelizerExample :: MeshVoxelizer where
  "voxelizerExample =
     (MeshVoxelizer_new 2)
       \<lparr>mSqrDistTree := setValue (createTree 2 DistValueT_max) (0, 1, 0) (- 1),
        mPrimIndexTree := setValue (createTree 2 Int32_INVALID_IDX) (0, 1, 0) 0\<rparr>"

subsection \<open>Joining two voxelizers\<close>

text \<open>
  Modelled from the spec: \<^verbatim>\<open>Tree::merge\<close> (openvdb/tree, not among the sources) merges by
  logical union: a site is active afterwards when it was active in either tree, and a site
  that was inactive here and active in the other tree takes the other tree's value.
\<close>

definition Tree_merge :: "'a Tree \<Rightarrow> 'a Tree \<Rightarrow> 'a Tree" where
  "Tree_merge T other =
     T\<lparr>voxel := (\<lambda>c. if \<not> active T c \<and> active other c then voxel other c else voxel T c),
       active := (\<lambda>c. active T c \<or> active other c),
       leafs := leafs T @ filter (\<lambda>l. l \<notin> set (leafs T)) (leafs other)\<rparr>"

text \<open>\<^verbatim>\<open>MeshVoxelizer::join\<close>: the body of the loop over the active sites of the right-hand
  distance tree, the loop over one of its leaves, and the whole function.\<close>

definition join_body :: "MeshVoxelizer \<Rightarrow> Coord \<Rightarrow> MeshVoxelizer \<Rightarrow> MeshVoxelizer" where
  "join_body rhs ijk lhs =
     (let rhsDist = voxel (mSqrDistTree rhs) ijk;
          lhsDist = getValue (mSqrDistTree lhs) ijk
      in if - rhsDist < \<bar>lhsDist\<bar>
         then lhs\<lparr>mSqrDistTree := setValue (mSqrDistTree lhs) ijk rhsDist,
                  mPrimIndexTree :=
                    setValue (mPrimIndexTree lhs) ijk (getValue (mPrimIndexTree rhs) ijk)\<rparr>
         else lhs)"

definition join_leaf :: "MeshVoxelizer \<Rightarrow> Coord \<Rightarrow> MeshVoxelizer \<Rightarrow> MeshVoxelizer" where
  "join_leaf rhs leaf lhs = fold (join_body rhs) (beginValueOn (mSqrDistTree rhs) leaf) lhs"

definition join :: "MeshVoxelizer \<Rightarrow> MeshVoxelizer \<Rightarrow> MeshVoxelizer" where
  "join lhs rhs =
     (let lhs = fold (join_leaf rhs) (leafs (mSqrDistTree rhs)) lhs
      in lhs\<lparr>mIntersectionTree := Tree_merge (mIntersectionTree lhs) (mIntersectionTree rhs)\<rparr>)"

text \<open>The sites that \<^verbatim>\<open>join\<close> writes: the active sites in the leaves of the right-hand
  distance tree that pass its test.\<close>

definition joinWrites :: "MeshVoxelizer \<Rightarrow> MeshVoxelizer \<Rightarrow> Coord \<Rightarrow> bool" where
  "joinWrites lhs rhs c =
     (inLeaf (mSqrDistTree rhs) c \<and> active (mSqrDistTree rhs) c
      \<and> - voxel (mSqrDistTree rhs) c < \<bar>voxel (mSqrDistTree lhs) c\<bar>)"

text \<open>What \<^verbatim>\<open>evalVoxel\<close> maintains in a voxelizer, and so what holds of a partial result:
  an active site of the distance tree lies in a leaf, holds minus a squared distance below
  the background and is active in the index tree as well; an inactive site holds the
  backgrounds.\<close>

definition partialResult :: "MeshVoxelizer \<Rightarrow> bool" where
  "partialResult st =
     (0 < leafDim (mSqrDistTree st)
      \<and> (\<forall>c. (active (mSqrDistTree st) c \<longrightarrow>
                 probeLeaf (mSqrDistTree st) c
                 \<and> - DistValueT_max < voxel (mSqrDistTree st) c \<and> voxel (mSqrDistTree st) c \<le> 0
                 \<and> active (mPrimIndexTree st) c)
             \<and> (\<not> active (mSqrDistTree st) c \<longrightarrow>
                 voxel (mSqrDistTree st) c = DistValueT_max
                 \<and> voxel (mPrimIndexTree st) c = Int32_INVALID_IDX
                 \<and> \<not> active (mPrimIndexTree st) c)))"

text \<open>Two voxelizers hold the same partial result when their distance, index and
  intersection trees agree on the value and the state of every site (the scratch tree and
  the order of the leaves are not part of the result).\<close>

definition sameResult :: "MeshVoxelizer \<Rightarrow> MeshVoxelizer \<Rightarrow> bool" where
  "sameResult a b =
     (voxel (mSqrDistTree a) = voxel (mSqrDistTree b)
      \<and> active (mSqrDistTree a) = active (mSqrDistTree b)
      \<and> voxel (mPrimIndexTree a) = voxel (mPrimIndexTree b)
      \<and> active (mPrimIndexTree a) = active (mPrimIndexTree b)
      \<and> active (mIntersectionTree a) = active (mIntersectionTree b))"

text \<open>Three partial results over leaves of side 2: the sites written, with their values
  and primitive indices.\<close>

definition partialExample :: "(Coord \<times> DistValueT \<times> Int32) list \<Rightarrow> MeshVoxelizer" where
  "partialExample ws =
     fold (\<lambda>(c, v, q) st. st\<lparr>mSqrDistTree := setValue (mSqrDistTree st) c v,
                              mPrimIndexTree := setValue (mPrimIndexTree st) c q\<rparr>)
       ws (MeshVoxelizer_new 2)"

subsection \<open>The narrow-band expander\<close>

text \<open>A loop whose body can meet undefined behaviour.\<close>

fun foldOption :: "('a \<Rightarrow> 's \<Rightarrow> 's option) \<Rightarrow> 'a list \<Rightarrow> 's \<Rightarrow> 's option" where
  "foldOption f [] s = Some s"
| "foldOption f (x # xs) s = (case f x s of None \<Rightarrow> None | Some s' \<Rightarrow> foldOption f xs s')"

text \<open>\<^verbatim>\<open>ExpandNB::getDistToPrim\<close>.  The result is
  \<^verbatim>\<open>std::sqrt(dist) * double(mVoxelSize)\<close>: the square root rounds, and so does the product.
  The square root of a negative value is not a number, which is no value of the model:
  \<open>None\<close>.\<close>

definition getDistToPrim ::
  "(Vec3d \<Rightarrow> Vec3d \<Rightarrow> Vec3d \<Rightarrow> Vec3d \<Rightarrow> real) \<Rightarrow> Vec3d list \<Rightarrow> Vec4I list \<Rightarrow> DistValueT
     \<Rightarrow> Coord \<Rightarrow> Int32 \<Rightarrow> real option" where
  "getDistToPrim triToPtnDistSqr pointList polygonList mVoxelSize ijk polyIdx =
     do {
       verts \<leftarrow> getPolygon polygonList polyIdx;
       case verts of (i0, i1, i2, i3) \<Rightarrow>
       do {
         p0 \<leftarrow> getPoint pointList i0;
         p1 \<leftarrow> getPoint pointList i1;
         p2 \<leftarrow> getPoint pointList i2;
         let dist = triToPtnDistSqr p0 p1 p2 (voxelCenter ijk);
         dist \<leftarrow>
           (if INVALID_IDX \<noteq> i3
            then do {
              p1 \<leftarrow> getPoint pointList i3;
              let secondDist = triToPtnDistSqr p0 p1 p2 (voxelCenter ijk);
              Some (if secondDist < dist then secondDist else dist)
            }
            else Some dist);
         if dist < 0 then None else Some (fl64 (fl64 (sqrt dist) * mVoxelSize))
       }
     }"

text \<open>\<^verbatim>\<open>ExpandNB::getDist\<close>: the body of its neighbour loop on the pair
  \<open>(dist, primIndex)\<close> (written \<open>dst\<close>), and the function, which returns the distance and what it leaves in
  the reference \<open>primIndex\<close>.  The loop starts from
  \<^verbatim>\<open>DistValueT dist = std::numeric_limits<double>::max()\<close>, which in a \<^verbatim>\<open>float\<close> tree converts to a
  value above every finite \<^verbatim>\<open>float\<close>; the finite values of such a tree are below both.\<close>

definition getDist_step ::
  "DistValueT Tree \<Rightarrow> Int32 Tree \<Rightarrow> Coord \<Rightarrow> DistValueT \<times> Int32 \<Rightarrow> DistValueT \<times> Int32" where
  "getDist_step distAcc indexAcc n_ijk dp =
     (case dp of (dst, primIndex) \<Rightarrow>
        case probeValue distAcc n_ijk of (on, nDist) \<Rightarrow>
          if on
          then (let nDist = \<bar>nDist\<bar>
                in if nDist < dst then (nDist, getValue indexAcc n_ijk) else (dst, primIndex))
          else (dst, primIndex))"

definition getDist ::
  "(Vec3d \<Rightarrow> Vec3d \<Rightarrow> Vec3d \<Rightarrow> Vec3d \<Rightarrow> real) \<Rightarrow> Coord list \<Rightarrow> Vec3d list \<Rightarrow> Vec4I list
     \<Rightarrow> DistValueT \<Rightarrow> Coord \<Rightarrow> DistValueT Tree \<Rightarrow> Int32 Tree \<Rightarrow> Int32 \<Rightarrow> (real \<times> Int32) option" where
  "getDist tri offs pointList polygonList mVoxelSize ijk distAcc indexAcc primIndex =
     (let dp = fold (getDist_step distAcc indexAcc) (neighbourSites offs 18 ijk)
                 (DistValueT_max, primIndex)
      in map_option (\<lambda>d. (d, snd dp))
           (getDistToPrim tri pointList polygonList mVoxelSize ijk (snd dp)))"

text \<open>\<^verbatim>\<open>ExpandNB::operator()\<close>.  The state is the mask tree, the distance tree, the index
  tree and the variable \<^verbatim>\<open>closestPrimIndex\<close>.  First the body of the loop over the active
  sites of a mask leaf whose leaf exists in both other trees;
  \<^verbatim>\<open>DistValueT distance = getDist(...)\<close> converts the \<^verbatim>\<open>double\<close> to the value type of the
  tree.\<close>

type_synonym ExpandState = "bool Tree \<times> DistValueT Tree \<times> Int32 Tree \<times> Int32"

definition ExpandNB_body ::
  "ValueT \<Rightarrow> (Vec3d \<Rightarrow> Vec3d \<Rightarrow> Vec3d \<Rightarrow> Vec3d \<Rightarrow> real) \<Rightarrow> Coord list \<Rightarrow> Vec3d list \<Rightarrow> Vec4I list
     \<Rightarrow> DistValueT \<Rightarrow> DistValueT \<Rightarrow> DistValueT \<Rightarrow> Coord \<Rightarrow> ExpandState \<Rightarrow> ExpandState option" where
  "ExpandNB_body P tri offs pointList polygonList mExteriorBandWidth mInteriorBandWidth mVoxelSize
       ijk s =
     (case s of (maskTree, distTree, indexTree, closestPrimIndex) \<Rightarrow>
        if isValueOn distTree ijk
        then Some (iter_setValueOff maskTree ijk, distTree, indexTree, closestPrimIndex)
        else do {
          (dist, closestPrimIndex) \<leftarrow>
            getDist tri offs pointList polygonList mVoxelSize ijk distTree indexTree closestPrimIndex;
          let distance = DistValueT_of P dist;
          let inside = (getValue distTree ijk < 0);
          if \<not> inside \<and> distance < mExteriorBandWidth
          then Some (maskTree, leaf_setValueOn distTree ijk distance,
                     leaf_setValueOn indexTree ijk closestPrimIndex, closestPrimIndex)
          else if inside \<and> distance < mInteriorBandWidth
          then Some (maskTree, leaf_setValueOn distTree ijk (- distance),
                     leaf_setValueOn indexTree ijk closestPrimIndex, closestPrimIndex)
          else Some (iter_setValueOff maskTree ijk, distTree, indexTree, closestPrimIndex)
        })"

text \<open>\<^verbatim>\<open>maskLeaf.setValuesOff()\<close>.\<close>

definition leaf_setValuesOff :: "'a Tree \<Rightarrow> Coord \<Rightarrow> 'a Tree" where
  "leaf_setValuesOff T leaf =
     T\<lparr>active := (\<lambda>c. if c \<in> set (leafCoords (leafDim T) leaf) then False else active T c)\<rparr>"

definition ExpandNB_leaf ::
  "ValueT \<Rightarrow> (Vec3d \<Rightarrow> Vec3d \<Rightarrow> Vec3d \<Rightarrow> Vec3d \<Rightarrow> real) \<Rightarrow> Coord list \<Rightarrow> Vec3d list \<Rightarrow> Vec4I list
     \<Rightarrow> DistValueT \<Rightarrow> DistValueT \<Rightarrow> DistValueT \<Rightarrow> Coord \<Rightarrow> ExpandState \<Rightarrow> ExpandState option" where
  "ExpandNB_leaf P tri offs pointList polygonList mExteriorBandWidth mInteriorBandWidth mVoxelSize
       origin s =
     (case s of (maskTree, distTree, indexTree, closestPrimIndex) \<Rightarrow>
        if probeLeaf distTree origin \<and> probeLeaf indexTree origin
        then foldOption
               (ExpandNB_body P tri offs pointList polygonList mExteriorBandWidth
                  mInteriorBandWidth mVoxelSize)
               (beginValueOn maskTree origin) s
        else Some (leaf_setValuesOff maskTree origin, distTree, indexTree, closestPrimIndex))"

text \<open>The loop over the mask leaves, with \<^verbatim>\<open>closestPrimIndex = 0\<close> at the start, and
  \<^verbatim>\<open>ExpandNB::runSerial\<close>.\<close>

definition ExpandNB_call ::
  "ValueT \<Rightarrow> (Vec3d \<Rightarrow> Vec3d \<Rightarrow> Vec3d \<Rightarrow> Vec3d \<Rightarrow> real) \<Rightarrow> Coord list \<Rightarrow> Vec3d list \<Rightarrow> Vec4I list
     \<Rightarrow> DistValueT \<Rightarrow> DistValueT \<Rightarrow> DistValueT
     \<Rightarrow> bool Tree \<times> DistValueT Tree \<times> Int32 Tree \<Rightarrow> (bool Tree \<times> DistValueT Tree \<times> Int32 Tree) option" where
  "ExpandNB_call P tri offs pointList polygonList mExteriorBandWidth mInteriorBandWidth mVoxelSize
       mdi =
     (case mdi of (maskTree, distTree, indexTree) \<Rightarrow>
        map_option (\<lambda>(m, d, i, p). (m, d, i))
          (foldOption
             (ExpandNB_leaf P tri offs pointList polygonList mExteriorBandWidth
                mInteriorBandWidth mVoxelSize)
             (leafs maskTree) (maskTree, distTree, indexTree, 0)))"

definition ExpandNB_runSerial ::
  "ValueT \<Rightarrow> (Vec3d \<Rightarrow> Vec3d \<Rightarrow> Vec3d \<Rightarrow> Vec3d \<Rightarrow> real) \<Rightarrow> Coord list \<Rightarrow> Vec3d list \<Rightarrow> Vec4I list
     \<Rightarrow> DistValueT \<Rightarrow> DistValueT \<Rightarrow> DistValueT
     \<Rightarrow> bool Tree \<times> DistValueT Tree \<times> Int32 Tree \<Rightarrow> (bool Tree \<times> DistValueT Tree \<times> Int32 Tree) option" where
  "ExpandNB_runSerial P tri offs pointList polygonList mExteriorBandWidth mInteriorBandWidth
       mVoxelSize mdi =
     map_option (\<lambda>(m, d, i). (pruneInactive m, d, i))
       (ExpandNB_call P tri offs pointList polygonList mExteriorBandWidth mInteriorBandWidth
          mVoxelSize mdi)"

text \<open>A distance tree after the square-root step with one active site at distance 1 from
  primitive 1 of the example mesh, and a mask that holds its neighbour in \<open>+i\<close>.\<close>

definition expandExampleD :: "DistValueT Tree" where
  "expandExampleD = setValue (createTree 2 DistValueT_max) (0, 0, 0) 1"

definition expandExampleI :: "Int32 Tree" where
  "expandExampleI = setValue (createTree 2 Int32_INVALID_IDX) (0, 0, 0) 1"


text \<open>The contract of \<^verbatim>\<open>math::triToPtnDistSqr\<close> that the invariants need: a squared
  distance is not negative.\<close>

definition nonnegDist :: "(Vec3d \<Rightarrow> Vec3d \<Rightarrow> Vec3d \<Rightarrow> Vec3d \<Rightarrow> real) \<Rightarrow> bool" where
  "nonnegDist tri = (\<forall>a b c x. 0 \<le> tri a b c x)"

subsection \<open>The remaining post-processing functors\<close>



subsection \<open>Narrow-band dilation in the driver\<close>

text \<open>
  Modelled from the spec: \<^verbatim>\<open>Tree::topologyUnion\<close> (not among the sources) makes active every
  site that is active in the other tree and allocates the other tree's leaves; the values
  stay.
\<close>

definition topologyUnion :: "'a Tree \<Rightarrow> 'b Tree \<Rightarrow> 'a Tree" where
  "topologyUnion T other =
     T\<lparr>active := (\<lambda>c. active T c \<or> active other c),
       leafs := leafs T @ filter (\<lambda>l. l \<notin> set (leafs T)) (leafs other)\<rparr>"

text \<open>Leaf preallocation.  One distance leaf of round \<open>i\<close>: its six face-adjacent leaves are
  allocated where missing and collected.\<close>

definition preallocNeighbours :: "int \<Rightarrow> Coord \<Rightarrow> Coord list" where
  "preallocNeighbours DIM orig =
     (case orig of (i, j, k) \<Rightarrow>
        [(i - 1, j, k), (i, j - 1, k), (i, j, k - 1),
         (i + DIM, j, k), (i, j + DIM, k), (i, j, k + DIM)])"

definition preallocLeaf ::
  "nat \<Rightarrow> nat \<Rightarrow> nat \<Rightarrow> Coord \<Rightarrow> DistValueT Tree \<times> Coord list \<Rightarrow> DistValueT Tree \<times> Coord list" where
  "preallocLeaf i inLeafs exLeafs orig Dn =
     (case Dn of (D, newDistLeafs) \<Rightarrow>
        let inside = (voxel D orig < 0) in
        if inside \<and> \<not> i < inLeafs then (D, newDistLeafs)
        else if \<not> inside \<and> \<not> i < exLeafs then (D, newDistLeafs)
        else fold (\<lambda>ijk (D, new).
                     if \<not> probeLeaf D ijk
                     then (touchLeaf D ijk, new @ [leafOrigin (leafDim D) ijk])
                     else (D, new))
               (preallocNeighbours (leafDim D) orig) (D, newDistLeafs))"

text \<open>The rounds \<^verbatim>\<open>for (size_t i = 0; i < numLeafs; ++i)\<close>, counted down by the rounds that
  remain, with the \<^verbatim>\<open>break\<close> on a round that allocates nothing.\<close>

fun preallocRounds ::
  "nat \<Rightarrow> nat \<Rightarrow> nat \<Rightarrow> nat \<Rightarrow> Coord list \<Rightarrow> DistValueT Tree \<Rightarrow> DistValueT Tree" where
  "preallocRounds 0 i inLeafs exLeafs distLeafs D = D"
| "preallocRounds (Suc remaining) i inLeafs exLeafs distLeafs D =
     (case fold (preallocLeaf i inLeafs exLeafs) distLeafs (D, []) of
        (D, newDistLeafs) \<Rightarrow>
          if newDistLeafs = [] then D
          else preallocRounds remaining (i + 1) inLeafs exLeafs newDistLeafs D)"

text \<open>The number of rounds.  \<^verbatim>\<open>std::numeric_limits<size_t>::max()\<close> is \<open>2^64 - 1\<close> and reads
  \<open>2^64\<close> as a double.  With a leaf size of zero the quotients are not finite and their
  conversion to \<^verbatim>\<open>size_t\<close> is undefined: \<open>None\<close>.\<close>

definition preallocate :: "DistValueT \<Rightarrow> DistValueT \<Rightarrow> DistValueT \<Rightarrow> DistValueT Tree \<Rightarrow> DistValueT Tree option" where
  "preallocate voxelSize exBandWidth inBandWidth D =
     (let distLeafs = leafs D;
          leafSize = real_of_int (leafDim D - 1) * voxelSize
      in if leafSize = 0 then None
         else
           let inLeafsRatio = inBandWidth / leafSize;
               inLeafs = (if (2 ^ 64 :: real) > inLeafsRatio + 1
                          then nat \<lceil>inLeafsRatio\<rceil> + 1 else 2 ^ 64 - 1);
               exLeafs = nat \<lceil>exBandWidth / leafSize\<rceil> + 1;
               numLeafs = max inLeafs exLeafs
           in Some (preallocRounds numLeafs 0 inLeafs exLeafs distLeafs D))"

text \<open>The loop \<^verbatim>\<open>while (maskTree.activeVoxelCount() > 0) { dilateVoxels(maskTree); ... expand.runParallel(); }\<close>
  bounded by fuel.  \<^verbatim>\<open>tools::dilateVoxels\<close> (openvdb/tools/Morphology.h, not among the
  sources) is the first argument.\<close>

fun expandLoop ::
  "nat \<Rightarrow> (bool Tree \<Rightarrow> bool Tree) \<Rightarrow> ValueT \<Rightarrow> (Vec3d \<Rightarrow> Vec3d \<Rightarrow> Vec3d \<Rightarrow> Vec3d \<Rightarrow> real) \<Rightarrow> Coord list
     \<Rightarrow> Vec3d list \<Rightarrow> Vec4I list \<Rightarrow> DistValueT \<Rightarrow> DistValueT \<Rightarrow> DistValueT
     \<Rightarrow> bool Tree \<times> DistValueT Tree \<times> Int32 Tree \<Rightarrow> (DistValueT Tree \<times> Int32 Tree) option" where
  "expandLoop fuel dilateVoxels P tri offs pointList polygonList exBandWidth inBandWidth voxelSize mdi =
     (case mdi of (maskTree, D, I) \<Rightarrow>
        if activeVoxelCount maskTree > 0
        then (case fuel of
                0 \<Rightarrow> None
              | Suc fuel \<Rightarrow>
                  do {
                    mdi \<leftarrow> ExpandNB_runSerial P tri offs pointList polygonList exBandWidth
                             inBandWidth voxelSize (dilateVoxels maskTree, D, I);
                    expandLoop fuel dilateVoxels P tri offs pointList polygonList exBandWidth
                      inBandWidth voxelSize mdi
                  })
        else Some (D, I))"

text \<open>The block \<^verbatim>\<open>// Narrow-band dilation\<close> of \<^verbatim>\<open>doConvert\<close>.\<close>

definition narrowBandDilation ::
  "nat \<Rightarrow> (bool Tree \<Rightarrow> bool Tree) \<Rightarrow> ValueT \<Rightarrow> (Vec3d \<Rightarrow> Vec3d \<Rightarrow> Vec3d \<Rightarrow> Vec3d \<Rightarrow> real) \<Rightarrow> Coord list
     \<Rightarrow> Vec3d list \<Rightarrow> Vec4I list \<Rightarrow> DistValueT \<Rightarrow> DistValueT \<Rightarrow> DistValueT
     \<Rightarrow> DistValueT Tree \<times> Int32 Tree \<Rightarrow> (DistValueT Tree \<times> Int32 Tree) option" where
  "narrowBandDilation fuel dilateVoxels P tri offs pointList polygonList exBandWidth inBandWidth
       voxelSize di =
     (case di of (D, I) \<Rightarrow>
        let minWidth = voxelSize * 2 in
        if inBandWidth > minWidth \<or> exBandWidth > minWidth
        then do {
          let maskTree = topologyUnion (createTree (leafDim D) False) D;
          D \<leftarrow> preallocate voxelSize exBandWidth inBandWidth D;
          let I = topologyUnion I D;
          expandLoop fuel dilateVoxels P tri offs pointList polygonList exBandWidth inBandWidth
            voxelSize (maskTree, D, I)
        }
        else Some (D, I))"

subsection \<open>Invariants of the stages\<close>

text \<open>A voxelizer that holds a partial result over leaves of side \<open>d\<close>.\<close>

definition voxInv :: "int \<Rightarrow> MeshVoxelizer \<Rightarrow> bool" where
  "voxInv d st = (partialResult st \<and> leafDim (mSqrDistTree st) = d)"

text \<open>Every active site lies in an allocated leaf (so a walk over the leaves meets it), and
  every active site holds a non-negative value.\<close>

definition activeInLeaf :: "'a Tree \<Rightarrow> bool" where
  "activeInLeaf T = (0 < leafDim T \<and> (\<forall>c. active T c \<longrightarrow> probeLeaf T c))"


text \<open>Rounding to the nearest lattice site, the transform with unit voxels and a distance
  function that keeps every site away from every primitive, for the examples.\<close>

definition roundCoord :: "Vec3d \<Rightarrow> Coord" where
  "roundCoord p = (case p of (x, y, z) \<Rightarrow> (round x, round y, round z))"

definition unitDistSqr :: "Vec3d \<Rightarrow> Vec3d \<Rightarrow> Vec3d \<Rightarrow> Vec3d \<Rightarrow> real" where
  "unitDistSqr p0 p1 p2 x = 1"

definition neverNear :: "(Vec3d \<Rightarrow> Vec3d \<Rightarrow> Vec3d \<Rightarrow> Vec3d \<Rightarrow> real) \<Rightarrow> bool" where
  "neverNear tri = (\<forall>a b c x. \<not> tri a b c x < lit_0_86602540378443861)"

subsection \<open>The contour tracer\<close>

text \<open>The assignment \<^verbatim>\<open>const_cast<DistValueT&>(mDistAccessor.getValue(ijk)) = v\<close>: a write
  through the reference that \<^verbatim>\<open>getValue\<close> returns.  In a leaf the reference is to the site's
  value, and the active state stays.  Outside every leaf it is to the value of a tile or to
  the background, which the facade does not hold apart from the sites they cover: \<open>None\<close>.\<close>

definition refWrite :: "'a Tree \<Rightarrow> Coord \<Rightarrow> 'a \<Rightarrow> 'a Tree option" where
  "refWrite T c v = (if probeLeaf T c then Some (iter_setValue T c v) else None)"

text \<open>The tracer after its constructor: the aligned bounding box and the table of step
  sizes.  The distance tree is the state that the scan threads and the intersection tree is
  read only; \<^verbatim>\<open>getValueDepth\<close> (openvdb/tree, not among the sources) is an argument of the
  scan.\<close>

record ContourTracer =
  mBBox_min :: Coord
  mBBox_max :: Coord
  mStepSize :: "int list"

text \<open>\<^verbatim>\<open>mStepSize[mDistAccessor.getValueDepth(ijk) + 1]\<close>; an index outside the vector is
  undefined behaviour.\<close>

definition stepSizeAt :: "int list \<Rightarrow> (Coord \<Rightarrow> int) \<Rightarrow> Coord \<Rightarrow> int option" where
  "stepSizeAt stepSize getValueDepth ijk =
     (let n = getValueDepth ijk + 1 in
      if 0 \<le> n \<and> nat n < length stepSize then Some (stepSize ! nat n) else None)"

text \<open>The state of \<^verbatim>\<open>sparseScan\<close>; \<^verbatim>\<open>int last_k;\<close> is declared without a value, and \<open>None\<close>
  is that state.\<close>

record ScanState =
  lastVoxelWasOut :: bool
  last_k :: "int option"

text \<open>\<^verbatim>\<open>for (Int32 n = 3; n < 6; n += 2) { n_ijk = ijk + util::COORD_OFFSETS[n]; if (mDistAccessor.probeValue(n_ijk, val) && val > 0) { lastVoxelWasOut = true; break; } }\<close>:
  whether the loop sets the flag.\<close>

definition probeNeighbours :: "Coord list \<Rightarrow> DistValueT Tree \<Rightarrow> Coord \<Rightarrow> bool" where
  "probeNeighbours offs D ijk =
     list_ex (\<lambda>n. case probeValue D (coordAdd ijk (offs ! n)) of (on, val) \<Rightarrow> on \<and> val > 0) [3, 5]"

text \<open>The loop \<^verbatim>\<open>for (--ijk[2]; ijk[2] >= last_k; --ijk[2]) { if (mIntersectionAccessor.isValueOn(ijk)) break; ... if (v < DistValueT(0.0)) v = -v; }\<close>
  entered at \<open>k\<close>.\<close>

function backtrace ::
  "bool Tree \<Rightarrow> int \<Rightarrow> int \<Rightarrow> int \<Rightarrow> int \<Rightarrow> DistValueT Tree \<Rightarrow> DistValueT Tree option" where
  "backtrace M i j lk k D =
     (if k \<ge> lk
      then if isValueOn M (i, j, k) then Some D
           else let v = getValue D (i, j, k) in
                if v < 0
                then (case refWrite D (i, j, k) (- v) of
                        None \<Rightarrow> None
                      | Some D \<Rightarrow> backtrace M i j lk (k - 1) D)
                else backtrace M i j lk (k - 1) D
      else Some D)"
  by pat_completeness auto
termination
  by (relation "measure (\<lambda>(M, i, j, lk, k, D). nat (k - lk + 1))") auto

text \<open>The visit of one site in the \<open>k\<close> loop: the statement
  \<^verbatim>\<open>if (mDistAccessor.isValueOn(ijk)) { ... }\<close>.\<close>

definition scanVoxel ::
  "Coord list \<Rightarrow> bool Tree \<Rightarrow> Coord \<Rightarrow> ScanState \<times> DistValueT Tree
     \<Rightarrow> (ScanState \<times> DistValueT Tree) option" where
  "scanVoxel offs M ijk sD =
     (case sD of (s, D) \<Rightarrow> case ijk of (i, j, k) \<Rightarrow>
        if isValueOn D ijk
        then if isValueOn M ijk
             then Some (s\<lparr>lastVoxelWasOut := False, last_k := Some k\<rparr>, D)
             else if lastVoxelWasOut s
             then map_option (Pair s) (refWrite D ijk (- getValue D ijk))
             else if probeNeighbours offs D ijk
             then (case last_k s of
                     None \<Rightarrow> None
                   | Some lk \<Rightarrow>
                       do {
                         D \<leftarrow> refWrite D ijk (- getValue D ijk);
                         D \<leftarrow> backtrace M i j lk (k - 1) D;
                         Some (s\<lparr>lastVoxelWasOut := True, last_k := Some k\<rparr>, D)
                       })
             else (case last_k s of
                     None \<Rightarrow> None
                   | Some lk \<Rightarrow> Some (s\<lparr>last_k := Some (min k lk)\<rparr>, D))
        else Some (s, D))"

text \<open>The \<open>k\<close> loop \<^verbatim>\<open>for (ijk[2] = mBBox.min()[2]; ijk[2] <= mBBox.max()[2]; ijk[2] += step[2])\<close>
  from \<open>k\<close> on, bounded by fuel; it returns the value of \<^verbatim>\<open>ijk[2]\<close> at its end as well.\<close>

fun kLoop ::
  "nat \<Rightarrow> ContourTracer \<Rightarrow> (Coord \<Rightarrow> int) \<Rightarrow> Coord list \<Rightarrow> bool Tree \<Rightarrow> int \<Rightarrow> int \<Rightarrow> int
     \<Rightarrow> Coord \<times> ScanState \<times> DistValueT Tree
     \<Rightarrow> (int \<times> Coord \<times> ScanState \<times> DistValueT Tree) option" where
  "kLoop fuel tr getValueDepth offs M i j k ssD =
     (case ssD of (step, s, D) \<Rightarrow>
        if k \<le> snd (snd (mBBox_max tr))
        then (case fuel of
                0 \<Rightarrow> None
              | Suc fuel \<Rightarrow>
                  do {
                    s2 \<leftarrow> stepSizeAt (mStepSize tr) getValueDepth (i, j, k);
                    let step = (case step of (s0, s1, _) \<Rightarrow> (min s0 s2, min s1 s2, s2));
                    sD \<leftarrow> scanVoxel offs M (i, j, k) (s, D);
                    kLoop fuel tr getValueDepth offs M i j (k + s2) (step, sD)
                  })
        else Some (k, step, s, D))"

text \<open>The \<open>j\<close> loop \<^verbatim>\<open>for (ijk[1] = mBBox.min()[1]; ijk[1] <= mBBox.max()[1]; ijk[1] += step[1])\<close>
  from \<open>j\<close> on; \<open>k\<close> is the value that \<^verbatim>\<open>ijk[2]\<close> holds when the row begins, at which the
  step of the row is looked up.\<close>

fun jLoop ::
  "nat \<Rightarrow> ContourTracer \<Rightarrow> (Coord \<Rightarrow> int) \<Rightarrow> Coord list \<Rightarrow> bool Tree \<Rightarrow> int \<Rightarrow> int \<Rightarrow> int
     \<Rightarrow> Coord \<times> ScanState \<times> DistValueT Tree
     \<Rightarrow> (Coord \<times> ScanState \<times> DistValueT Tree) option" where
  "jLoop fuel tr getValueDepth offs M i j k ssD =
     (case ssD of (step, s, D) \<Rightarrow>
        if j \<le> fst (snd (mBBox_max tr))
        then (case fuel of
                0 \<Rightarrow> None
              | Suc fuel \<Rightarrow>
                  do {
                    s1 \<leftarrow> stepSizeAt (mStepSize tr) getValueDepth (i, j, k);
                    let step = (case step of (s0, _, s2) \<Rightarrow> (min s0 s1, s1, s2));
                    (k, step, sD) \<leftarrow> kLoop fuel tr getValueDepth offs M i j
                                       (snd (snd (mBBox_min tr))) (step, s, D);
                    jLoop fuel tr getValueDepth offs M i (j + fst (snd step)) k (step, sD)
                  })
        else Some (step, s, D))"

text \<open>\<^verbatim>\<open>ContourTracer::sparseScan\<close>: the step along \<open>i\<close> and the distance tree.\<close>

definition sparseScan ::
  "nat \<Rightarrow> ContourTracer \<Rightarrow> (Coord \<Rightarrow> int) \<Rightarrow> Coord list \<Rightarrow> bool Tree \<Rightarrow> int
     \<Rightarrow> DistValueT Tree \<Rightarrow> (int \<times> DistValueT Tree) option" where
  "sparseScan fuel tr getValueDepth offs M slice D =
     do {
       let ijk = (slice, fst (snd (mBBox_min tr)), snd (snd (mBBox_min tr)));
       s0 \<leftarrow> stepSizeAt (mStepSize tr) getValueDepth ijk;
       (step, s, D) \<leftarrow> jLoop fuel tr getValueDepth offs M slice (fst (snd ijk)) (snd (snd ijk))
                         ((s0, s0, s0), \<lparr>lastVoxelWasOut = True, last_k = None\<rparr>, D);
       Some (fst step, D)
     }"

text \<open>\<^verbatim>\<open>ContourTracer::operator()\<close> on the slices from \<open>n\<close> up to \<open>rangeEnd\<close> (exclusive), and
  \<^verbatim>\<open>runSerial\<close>.\<close>

fun ContourTracer_call ::
  "nat \<Rightarrow> ContourTracer \<Rightarrow> (Coord \<Rightarrow> int) \<Rightarrow> Coord list \<Rightarrow> bool Tree \<Rightarrow> int \<Rightarrow> int
     \<Rightarrow> DistValueT Tree \<Rightarrow> DistValueT Tree option" where
  "ContourTracer_call fuel tr getValueDepth offs M n rangeEnd D =
     (if n < rangeEnd
      then (case fuel of
              0 \<Rightarrow> None
            | Suc fuel \<Rightarrow>
                do {
                  (iStep, D) \<leftarrow> sparseScan (Suc fuel) tr getValueDepth offs M n D;
                  ContourTracer_call fuel tr getValueDepth offs M (n + iStep) rangeEnd D
                })
      else Some D)"

definition ContourTracer_runSerial ::
  "nat \<Rightarrow> ContourTracer \<Rightarrow> (Coord \<Rightarrow> int) \<Rightarrow> Coord list \<Rightarrow> bool Tree
     \<Rightarrow> DistValueT Tree \<Rightarrow> DistValueT Tree option" where
  "ContourTracer_runSerial fuel tr getValueDepth offs M D =
     ContourTracer_call fuel tr getValueDepth offs M (fst (mBBox_min tr)) (fst (mBBox_max tr) + 1) D"

text \<open>The sites that the walk back from \<open>k\<close> down to \<open>lk\<close> in row \<open>(i, j)\<close> passes before it
  stops: those with no site of the intersection tree switched on between them and \<open>k\<close>.\<close>

definition walked :: "bool Tree \<Rightarrow> int \<Rightarrow> int \<Rightarrow> int \<Rightarrow> int \<Rightarrow> Coord \<Rightarrow> bool" where
  "walked M i j lk k c =
     (case c of (a, b, k') \<Rightarrow>
        a = i \<and> b = j \<and> lk \<le> k' \<and> k' \<le> k \<and> list_all (\<lambda>n. \<not> isValueOn M (i, j, n)) [k'..k])"

text \<open>A site as the voxelizer leaves it, before a sweep of the tracer has written it: active
  with minus a squared distance, or inactive with a value that is not negative (the
  background).\<close>

definition unswept :: "DistValueT Tree \<Rightarrow> Coord \<Rightarrow> bool" where
  "unswept D c = (if active D c then voxel D c \<le> 0 else 0 \<le> voxel D c)"

text \<open>The scan of slice \<open>i\<close> of the tree \<open>D0\<close>, about to visit the site \<open>k\<close> of row \<open>j\<close>: the states
  and the leaves are those of \<open>D0\<close>, the sites of the other slices and the sites of the slice
  that the scan has yet to visit hold the values of \<open>D0\<close>, and while the flag is cleared
  \<open>last_k\<close> is set and the sites that a walk back from \<open>k - 1\<close> would pass hold the values of
  \<open>D0\<close>.\<close>

definition scanInv ::
  "bool Tree \<Rightarrow> DistValueT Tree \<Rightarrow> int \<Rightarrow> int \<Rightarrow> int \<Rightarrow> ScanState \<times> DistValueT Tree \<Rightarrow> bool" where
  "scanInv M D0 i j k sD =
     (case sD of (s, D) \<Rightarrow>
        active D = active D0 \<and> leafs D = leafs D0 \<and> leafDim D = leafDim D0
        \<and> (\<forall>a b n. a \<noteq> i \<or> j < b \<or> (b = j \<and> k \<le> n) \<longrightarrow>
               voxel D (a, b, n) = voxel D0 (a, b, n))
        \<and> (\<not> lastVoxelWasOut s \<longrightarrow>
             (\<exists>lk. last_k s = Some lk
                  \<and> (\<forall>c. walked M i j lk (k - 1) c \<longrightarrow> voxel D c = voxel D0 c))))"



subsection \<open>One expansion step, site by site\<close>





section \<open>Properties\<close>

subsection \<open>Rounding\<close>

lemma pow2_powr: "pow2 e = 2 powr (of_int e)"
proof (cases "0 \<le> e")
  case True
  then have "(of_int e :: real) = real (nat e)" by simp
  then have "2 powr (of_int e :: real) = 2 ^ nat e"
    by (simp only: powr_realpow[of 2 "nat e", simplified])
  with True show ?thesis by (simp only: pow2_def if_True)
next
  case False
  then have "(of_int e :: real) = - real (nat (- e))" by simp
  then have "2 powr (of_int e :: real) = 1 / 2 ^ nat (- e)"
    by (simp only: powr_minus_divide powr_realpow[of 2 "nat (- e)", simplified])
  with False show ?thesis by (simp only: pow2_def if_False)
qed

lemma pow2_pos: "0 < pow2 e"
  by (simp add: pow2_powr)

lemma pow2_add: "pow2 (a + b) = pow2 a * pow2 b"
  by (simp add: pow2_powr powr_add)

lemma pow2_mono: "a \<le> b \<Longrightarrow> pow2 a \<le> pow2 b"
  by (simp add: pow2_powr)

lemma pow2_less_iff: "pow2 a < pow2 b \<longleftrightarrow> a < b"
  by (simp add: pow2_powr)

lemma pow2_nat: "pow2 (int n) = 2 ^ n"
  by (simp add: pow2_def)

lemma roundTiesToEven_of_int: "roundTiesToEven (of_int n) = n"
  by (simp add: roundTiesToEven_def)

lemma roundTiesToEven_nonneg: "0 \<le> r \<Longrightarrow> 0 \<le> roundTiesToEven r"
  by (auto simp: roundTiesToEven_def Let_def)

lemma roundTiesToEven_nonpos: "r \<le> 0 \<Longrightarrow> roundTiesToEven r \<le> 0"
proof -
  assume r: "r \<le> 0"
  show ?thesis
  proof (cases "r = of_int \<lfloor>r\<rfloor>")
    case True
    with r show ?thesis by (simp add: roundTiesToEven_def Let_def)
  next
    case False
    then have "of_int \<lfloor>r\<rfloor> < r" using of_int_floor_le[of r] by linarith
    with r have "\<lfloor>r\<rfloor> < 0" by linarith
    then show ?thesis by (auto simp: roundTiesToEven_def Let_def)
  qed
qed

lemma roundTiesToEven_ge_1: "1 \<le> r \<Longrightarrow> 1 \<le> roundTiesToEven r"
proof -
  assume "1 \<le> r"
  then have "1 \<le> \<lfloor>r\<rfloor>" by linarith
  then show ?thesis by (auto simp: roundTiesToEven_def Let_def)
qed

lemma binade_set:
  "finite (insert emin {e \<in> {emin..emax}. pow2 e \<le> \<bar>x\<bar>})"
  "insert emin {e \<in> {emin..emax}. pow2 e \<le> \<bar>x\<bar>} \<noteq> {}"
  "binade emin emax x \<in> insert emin {e \<in> {emin..emax}. pow2 e \<le> \<bar>x\<bar>}"
proof -
  have "{e \<in> {emin..emax}. pow2 e \<le> \<bar>x\<bar>} \<subseteq> {emin..emax}" by blast
  then have "finite {e \<in> {emin..emax}. pow2 e \<le> \<bar>x\<bar>}"
    by (rule finite_subset) (rule finite_atLeastAtMost_int)
  then show f: "finite (insert emin {e \<in> {emin..emax}. pow2 e \<le> \<bar>x\<bar>})"
    by (rule finite.insertI)
  show n: "insert emin {e \<in> {emin..emax}. pow2 e \<le> \<bar>x\<bar>} \<noteq> {}"
    by (rule insert_not_empty)
  show "binade emin emax x \<in> insert emin {e \<in> {emin..emax}. pow2 e \<le> \<bar>x\<bar>}"
    unfolding binade_def by (rule Max_in[OF f n])
qed

lemma binade_cases:
  "binade emin emax x = emin
   \<or> (emin \<le> binade emin emax x \<and> binade emin emax x \<le> emax
      \<and> pow2 (binade emin emax x) \<le> \<bar>x\<bar>)"
  using binade_set(3)[of emin emax x] by auto

lemma binade_ge: "emin \<le> binade emin emax x"
  unfolding binade_def by (rule Max_ge[OF binade_set(1)]) (rule insertI1)

lemma binade_range:
  assumes "emin \<le> emax"
  shows "emin \<le> binade emin emax x" "binade emin emax x \<le> emax"
  using binade_cases[of emin emax x] binade_ge[of emin emax x] assms by auto

lemma binade_eq:
  assumes "emin \<le> e" and "e \<le> emax" and "pow2 e \<le> \<bar>x\<bar>" and "\<bar>x\<bar> < pow2 (e + 1)"
  shows "binade emin emax x = e"
proof (rule antisym)
  have "e \<in> insert emin {e \<in> {emin..emax}. pow2 e \<le> \<bar>x\<bar>}"
    using assms(1-3) by simp
  then show "e \<le> binade emin emax x"
    unfolding binade_def by (rule Max_ge[OF binade_set(1)])
  from binade_cases[of emin emax x] show "binade emin emax x \<le> e"
  proof
    assume "binade emin emax x = emin"
    with assms(1) show ?thesis by simp
  next
    assume "emin \<le> binade emin emax x \<and> binade emin emax x \<le> emax
      \<and> pow2 (binade emin emax x) \<le> \<bar>x\<bar>"
    with assms(4) have "pow2 (binade emin emax x) < pow2 (e + 1)" by linarith
    then show ?thesis by (simp add: pow2_less_iff)
  qed
qed

lemma binade_le:
  assumes "emin < binade emin emax x"
  shows "pow2 (binade emin emax x) \<le> \<bar>x\<bar>"
  using binade_cases[of emin emax x] assms by auto

text \<open>A value \<open>m \<cdot> 2\<^sup>k\<close> with \<open>\<bar>m\<bar> < 2\<^sup>p\<close> on or above the grid of the subnormal values is a
  value of the format, and rounding leaves it.\<close>

lemma roundBinary_exact:
  assumes "emin \<le> emax" and "0 < p"
    and x: "x = of_int m * pow2 k" and m: "\<bar>m\<bar> < 2 ^ p" and k: "emin - int p + 1 \<le> k"
  shows "roundBinary p emin emax x = x"
proof -
  define b where "b = binade emin emax x"
  define q where "q = b - int p + 1"
  have q: "q \<le> k"
  proof (cases "emin < b")
    case False
    with binade_ge[of emin emax x] have "b = emin" by (simp add: b_def)
    with k show ?thesis by (simp add: q_def)
  next
    case True
    then have "pow2 b \<le> \<bar>x\<bar>" unfolding b_def by (rule binade_le)
    also have "\<bar>x\<bar> = of_int \<bar>m\<bar> * pow2 k"
      using pow2_pos[of k] by (simp add: x abs_mult)
    also have "\<dots> < 2 ^ p * pow2 k"
    proof -
      from m have "(of_int \<bar>m\<bar> :: real) < of_int (2 ^ p)" by (simp only: of_int_less_iff)
      then show ?thesis using pow2_pos[of k] by simp
    qed
    also have "\<dots> = pow2 (int p + k)"
      by (simp add: pow2_add pow2_nat)
    finally have "b < int p + k" by (simp add: pow2_less_iff)
    then show ?thesis by (simp add: q_def)
  qed
  then obtain n where n: "k = q + int n"
    by (metis zle_iff_zadd)
  have pk: "pow2 k = pow2 q * 2 ^ n"
    by (simp add: n pow2_add pow2_nat)
  have "x / pow2 q = of_int (m * 2 ^ n)"
    using pow2_pos[of q] by (simp add: x pk)
  then have "of_int (roundTiesToEven (x / pow2 q)) * pow2 q = of_int (m * 2 ^ n) * pow2 q"
    by (simp only: roundTiesToEven_of_int)
  also have "\<dots> = x" by (simp add: x pk)
  finally show ?thesis by (simp add: roundBinary_def Let_def b_def q_def)
qed

lemma roundBinary_of_int:
  assumes "emin \<le> emax" and "0 < p" and "\<bar>m\<bar> < 2 ^ p" and "emin - int p + 1 \<le> 0"
  shows "roundBinary p emin emax (of_int m) = of_int m"
  using roundBinary_exact[OF assms(1,2) _ assms(3), of "of_int m" 0] assms(4)
  by (simp add: pow2_def)

lemma roundBinary_nonneg: "0 \<le> x \<Longrightarrow> 0 \<le> roundBinary p emin emax x"
  using pow2_pos[of "binade emin emax x - int p + 1"]
  by (simp add: roundBinary_def Let_def roundTiesToEven_nonneg)

lemma roundBinary_nonpos: "x \<le> 0 \<Longrightarrow> roundBinary p emin emax x \<le> 0"
proof -
  assume "x \<le> 0"
  let ?u = "pow2 (binade emin emax x - int p + 1)"
  from \<open>x \<le> 0\<close> pow2_pos[of "binade emin emax x - int p + 1"] have "x / ?u \<le> 0"
    by (simp add: divide_le_0_iff)
  from roundTiesToEven_nonpos[OF this] pow2_pos[of "binade emin emax x - int p + 1"]
  show ?thesis
    by (simp add: roundBinary_def Let_def mult_le_0_iff)
qed

text \<open>A value on or above the smallest positive value of the format does not round to
  zero.\<close>

lemma roundBinary_pos:
  assumes "0 < p" and "pow2 (emin - int p + 1) \<le> x"
  shows "0 < roundBinary p emin emax x"
proof -
  define b where "b = binade emin emax x"
  define u where "u = pow2 (b - int p + 1)"
  have up: "0 < u" by (simp add: u_def pow2_pos)
  from assms(2) pow2_pos[of "emin - int p + 1"] have xp: "0 < x" by linarith
  have "u \<le> x"
  proof (cases "emin < b")
    case False
    with binade_ge[of emin emax x] have "b = emin" by (simp add: b_def)
    with assms(2) show ?thesis by (simp add: u_def)
  next
    case True
    then have "pow2 b \<le> \<bar>x\<bar>" unfolding b_def by (rule binade_le)
    with xp have "pow2 b \<le> x" by simp
    moreover have "u \<le> pow2 b" unfolding u_def using assms(1) by (intro pow2_mono) simp
    ultimately show ?thesis by linarith
  qed
  then have "1 \<le> x / u" using up by (simp add: le_divide_eq)
  from roundTiesToEven_ge_1[OF this] up have "0 < of_int (roundTiesToEven (x / u)) * u"
    by simp
  then show ?thesis by (simp add: roundBinary_def Let_def b_def u_def)
qed

lemma fl64_of_int: "\<bar>m\<bar> < 2 ^ 53 \<Longrightarrow> fl64 (of_int m) = of_int m"
  unfolding fl64_def by (rule roundBinary_of_int) simp_all


lemma fl32_nonneg: "0 \<le> x \<Longrightarrow> 0 \<le> fl32 x"
  unfolding fl32_def by (rule roundBinary_nonneg)


lemma DistValueT_of_nonneg: "0 \<le> x \<Longrightarrow> 0 \<le> DistValueT_of P x"
  by (cases P) (simp_all add: DistValueT_of_def fl32_nonneg)

lemma roundBinary_eval:
  assumes "binade emin emax x = b" and "q = b - int p + 1" and "x / pow2 q = r"
    and "roundTiesToEven r = n"
  shows "roundBinary p emin emax x = of_int n * pow2 q"
  using assms by (simp add: roundBinary_def Let_def)

text \<open>\<open>1 - 2\<^sup>-\<^sup>3\<^sup>0\<close> is a \<^verbatim>\<open>double\<close> and rounds to \<open>1\<close> as a \<^verbatim>\<open>float\<close>.\<close>

lemma fl32_below_one: "fl32 (1 - 1 / 2 ^ 30) = 1"
proof -
  let ?x = "1 - 1 / 2 ^ 30 :: real"
  have p1: "pow2 (- 1) = 1 / 2" "pow2 0 = 1" "pow2 (- 24) = 1 / 2 ^ 24"
    by (simp_all add: pow2_def)
  have b: "binade (- 126) 127 ?x = - 1"
    by (rule binade_eq) (simp_all add: p1)
  have d: "?x / pow2 (- 24) = 2 ^ 24 - 1 / 2 ^ 6"
    by (simp add: p1)
  have f: "\<lfloor>2 ^ 24 - 1 / 2 ^ 6 :: real\<rfloor> = 2 ^ 24 - 1"
    by (rule floor_unique) simp_all
  have r: "roundTiesToEven (2 ^ 24 - 1 / 2 ^ 6) = 2 ^ 24"
    unfolding roundTiesToEven_def Let_def f by simp
  have "roundBinary 24 (- 126) 127 ?x = of_int (2 ^ 24) * pow2 (- 24)"
    by (rule roundBinary_eval[OF b _ d r]) simp
  then show ?thesis by (simp add: fl32_def p1)
qed

lemma fl32_below_one_numeral: "fl32 (1073741823 / 1073741824) = 1"
  using fl32_below_one by simp

lemma signSweepLoop_funpow:
  "signSweepLoop tr pg n i s = ((\<lambda>x. pg (tr x)) ^^ nat (n - i)) s"
proof (induction tr pg n i s rule: signSweepLoop.induct)
  case (1 tr pg n i s)
  show ?case
  proof (cases "i < n")
    case True
    then have "nat (n - i) = Suc (nat (n - (i + 1)))" by simp
    then have "((\<lambda>x. pg (tr x)) ^^ nat (n - i)) s
                 = ((\<lambda>x. pg (tr x)) ^^ nat (n - (i + 1))) (pg (tr s))"
      by (simp only: funpow_Suc_right o_def)
    moreover have "signSweepLoop tr pg n i s = signSweepLoop tr pg n (i + 1) (pg (tr s))"
      using True by (subst signSweepLoop.simps) simp
    ultimately show ?thesis using 1 True by simp
  next
    case False
    then show ?thesis by (subst signSweepLoop.simps) simp
  qed
qed

text \<open>
  C1.  A converter built with a sign-sweep count of 3 stores the count 1, and the driver's
  loop then runs one alternation of contour tracing and sign propagation, not three; built
  with the count 0 it runs none.
\<close>

theorem C1_signSweeps_capped:
  "mSignSweeps (MeshToVolume_new 8 tr 0 3) = 1
   \<and> signSweepLoop (\<lambda>l. l @ [ContourTracerRun]) (\<lambda>l. l @ [PropagateSign])
        (mSignSweeps (MeshToVolume_new 8 tr 0 3)) 0 [] = [ContourTracerRun, PropagateSign]
   \<and> signSweepLoop (\<lambda>l. l @ [ContourTracerRun]) (\<lambda>l. l @ [PropagateSign])
        (mSignSweeps (MeshToVolume_new 8 tr 0 0)) 0 [] = []"
  by (simp add: MeshToVolume_new_def MeshToVolume_clear_def signSweepLoop.simps)

subsection \<open>Leaf iteration\<close>

lemma leafCoords_product:
  "leafCoords d (i, j, k) =
     map (\<lambda>(x, y, z). (i + x, j + y, k + z)) (List.product [0..d - 1] (List.product [0..d - 1] [0..d - 1]))"
  by (simp add: leafCoords_def List.product_concat_map map_concat comp_def)

lemma distinct_leafCoords: "distinct (leafCoords d orig)"
proof -
  obtain i j k where o: "orig = (i, j, k)" by (cases orig) auto
  have "inj (\<lambda>(x, y, z). (i + x, j + y, k + z))"
    by (auto simp: inj_on_def)
  then show ?thesis
    unfolding o leafCoords_product
    by (simp add: distinct_map distinct_product inj_on_def)
qed

lemma fold_voxel_local:
  assumes loc: "\<And>c T. op c T = T\<lparr>voxel := (voxel T)(c := fv c (voxel T c) (active T c)),
                                   active := (active T)(c := fa c (voxel T c) (active T c))\<rparr>"
  shows "distinct cs \<Longrightarrow> fold op cs T =
           T\<lparr>voxel := (\<lambda>c. if c \<in> set cs then fv c (voxel T c) (active T c) else voxel T c),
             active := (\<lambda>c. if c \<in> set cs then fa c (voxel T c) (active T c) else active T c)\<rparr>"
proof (induction cs arbitrary: T)
  case Nil
  then show ?case by simp
next
  case (Cons a cs)
  then show ?case
    by (simp add: loc fun_eq_iff) 
qed

subsection \<open>The trim pass\<close>

lemma TrimOp_body_local:
  "TrimOp_body ex inB c T =
     T\<lparr>voxel := (voxel T)(c := trimValue ex inB (voxel T c)),
       active := (active T)(c := (active T c \<and> trimKeeps inB (voxel T c)))\<rparr>"
  by (auto simp: TrimOp_body_def trimValue_def trimKeeps_def iter_setValue_def iter_setValueOff_def
      Let_def not_less not_le fun_upd_idem intro!: Tree.equality)

lemma TrimOp_pointwise:
  "TrimOp ex inB leaf T =
     T\<lparr>voxel := (\<lambda>c. if c \<in> set (leafCoords (leafDim T) leaf) \<and> active T c
                      then trimValue ex inB (voxel T c) else voxel T c),
       active := (\<lambda>c. if c \<in> set (leafCoords (leafDim T) leaf) \<and> active T c
                      then trimKeeps inB (voxel T c) else active T c)\<rparr>"
proof -
  have d: "distinct (beginValueOn T leaf)"
    by (simp add: beginValueOn_def distinct_leafCoords)
  show ?thesis
    unfolding TrimOp_def
    by (subst fold_voxel_local[where fv = "\<lambda>c v a. trimValue ex inB v"
          and fa = "\<lambda>c v a. a \<and> trimKeeps inB v", OF TrimOp_body_local d])
       (auto simp: beginValueOn_def fun_eq_iff intro!: Tree.equality)
qed

lemma TrimOp_sel:
  "voxel (TrimOp ex inB leaf T) c =
     (if c \<in> set (leafCoords (leafDim T) leaf) \<and> active T c
      then trimValue ex inB (voxel T c) else voxel T c)"
  "active (TrimOp ex inB leaf T) c =
     (if c \<in> set (leafCoords (leafDim T) leaf) \<and> active T c
      then trimKeeps inB (voxel T c) else active T c)"
  "leafDim (TrimOp ex inB leaf T) = leafDim T"
  "leafs (TrimOp ex inB leaf T) = leafs T"
  "background (TrimOp ex inB leaf T) = background T"
  by (simp_all add: TrimOp_pointwise)

lemma TrimOp_idem: "TrimOp ex inB leaf (TrimOp ex inB leaf T) = TrimOp ex inB leaf T"
proof -
  let ?T' = "TrimOp ex inB leaf T"
  have v: "voxel (TrimOp ex inB leaf ?T') = voxel ?T'"
    by (rule ext) (auto simp: TrimOp_sel trimValue_def trimKeeps_def)
  have a: "active (TrimOp ex inB leaf ?T') = active ?T'"
    by (rule ext) (auto simp: TrimOp_sel trimValue_def trimKeeps_def)
  show ?thesis
    by (rule Tree.equality) (simp_all add: v a TrimOp_sel(3-5))
qed

lemma trimValue_kept: "trimKeeps inB v \<Longrightarrow> trimValue ex inB v = v"
  by (auto simp: trimKeeps_def trimValue_def split: if_splits)

lemma fold_TrimOp_sel:
  "voxel (fold (TrimOp ex inB) ls T) c =
     (if (\<exists>l \<in> set ls. c \<in> set (leafCoords (leafDim T) l)) \<and> active T c
      then trimValue ex inB (voxel T c) else voxel T c)
   \<and> active (fold (TrimOp ex inB) ls T) c =
     (if (\<exists>l \<in> set ls. c \<in> set (leafCoords (leafDim T) l)) \<and> active T c
      then trimKeeps inB (voxel T c) else active T c)
   \<and> leafDim (fold (TrimOp ex inB) ls T) = leafDim T
   \<and> leafs (fold (TrimOp ex inB) ls T) = leafs T
   \<and> background (fold (TrimOp ex inB) ls T) = background T"
proof (induction ls arbitrary: T)
  case Nil
  then show ?case by simp
next
  case (Cons l ls)
  show ?case
    by (simp add: Cons.IH TrimOp_sel) (auto simp: trimValue_kept)
qed

lemma LeafTransformer_TrimOp_sel:
  "voxel (LeafTransformer (TrimOp ex inB) T) c =
     (if inLeaf T c \<and> active T c then trimValue ex inB (voxel T c) else voxel T c)"
  "active (LeafTransformer (TrimOp ex inB) T) c =
     (if inLeaf T c \<and> active T c then trimKeeps inB (voxel T c) else active T c)"
  "leafDim (LeafTransformer (TrimOp ex inB) T) = leafDim T"
  "leafs (LeafTransformer (TrimOp ex inB) T) = leafs T"
  "background (LeafTransformer (TrimOp ex inB) T) = background T"
  by (simp_all add: LeafTransformer_def inLeaf_def fold_TrimOp_sel)

lemma LeafTransformer_TrimOp_idem:
  "LeafTransformer (TrimOp ex inB) (LeafTransformer (TrimOp ex inB) T) = LeafTransformer (TrimOp ex inB) T"
proof -
  let ?T' = "LeafTransformer (TrimOp ex inB) T"
  have i: "inLeaf ?T' = inLeaf T"
    by (rule ext) (simp add: inLeaf_def LeafTransformer_TrimOp_sel)
  have v: "voxel (LeafTransformer (TrimOp ex inB) ?T') = voxel ?T'"
    by (rule ext) (auto simp: LeafTransformer_TrimOp_sel i trimValue_def trimKeeps_def)
  have a: "active (LeafTransformer (TrimOp ex inB) ?T') = active ?T'"
    by (rule ext) (auto simp: LeafTransformer_TrimOp_sel i trimValue_def trimKeeps_def)
  show ?thesis
    by (rule Tree.equality) (simp_all add: v a LeafTransformer_TrimOp_sel(3-5))
qed

text \<open>
  C10.  In the trim pass over the leaves of a tree, an active site with value \<open>\<ge> 0\<close> is set to
  \<open>exBandWidth\<close> and switched off exactly when its value is not less than \<open>inBandWidth\<close> (the
  interior width: the exterior width is only the value written); an active site with value
  \<open>< 0\<close> is set to \<open>- inBandWidth\<close> and switched off exactly when its value is not greater than
  \<open>- inBandWidth\<close>; every other active site keeps its value and stays active; an inactive site
  is not touched; and running the pass a second time changes nothing.
\<close>

theorem C10_TrimOp:
  "(let T' = LeafTransformer (TrimOp exBandWidth inBandWidth) T in
     (\<forall>c. inLeaf T c \<and> active T c \<and> 0 \<le> voxel T c \<longrightarrow>
        (if \<not> voxel T c < inBandWidth
         then voxel T' c = exBandWidth \<and> \<not> active T' c
         else voxel T' c = voxel T c \<and> active T' c))
   \<and> (\<forall>c. inLeaf T c \<and> active T c \<and> voxel T c < 0 \<longrightarrow>
        (if \<not> voxel T c > - inBandWidth
         then voxel T' c = - inBandWidth \<and> \<not> active T' c
         else voxel T' c = voxel T c \<and> active T' c))
   \<and> (\<forall>c. \<not> active T c \<longrightarrow> voxel T' c = voxel T c \<and> \<not> active T' c)
   \<and> LeafTransformer (TrimOp exBandWidth inBandWidth) T' = T')"
  unfolding Let_def
  by (intro conjI allI impI LeafTransformer_TrimOp_idem)
     (auto simp: LeafTransformer_TrimOp_sel trimValue_def trimKeeps_def)

lemma leafCoords_2: "leafCoords 2 (i, j, k) =
  [(i, j, k), (i, j, k + 1), (i, j + 1, k), (i, j + 1, k + 1),
   (i + 1, j, k), (i + 1, j, k + 1), (i + 1, j + 1, k), (i + 1, j + 1, k + 1)]"
  by (simp add: leafCoords_def upto_rec1)

lemma trimExample_sel:
  "leafs trimExample = [(0, 0, 0)]" "leafDim trimExample = 2"
  "voxel trimExample (0, 0, 0) = 5" "voxel trimExample (0, 0, 1) = - 5" "voxel trimExample (1, 0, 0) = 1"
  "active trimExample (0, 0, 0)" "active trimExample (0, 0, 1)" "active trimExample (1, 0, 0)"
  "\<not> active trimExample (1, 1, 1)"
  by (simp_all add: trimExample_def setValue_def touchLeaf_def probeLeaf_def createTree_def leafOrigin_def)

text \<open>The pass on the example tree with \<open>exBandWidth = 3\<close> and \<open>inBandWidth = 2\<close>: the site
  holding 5 becomes 3 and inactive, the site holding 1 is kept, the site holding -5 becomes
  -2 and inactive.\<close>

theorem C10_TrimOp_witness:
  "(let T' = LeafTransformer (TrimOp 3 2) trimExample in
      inLeaf trimExample (0, 0, 0) \<and> active trimExample (0, 0, 0) \<and> 0 \<le> voxel trimExample (0, 0, 0)
      \<and> \<not> voxel trimExample (0, 0, 0) < 2 \<and> voxel T' (0, 0, 0) = 3 \<and> \<not> active T' (0, 0, 0)
      \<and> inLeaf trimExample (1, 0, 0) \<and> active trimExample (1, 0, 0) \<and> 0 \<le> voxel trimExample (1, 0, 0)
      \<and> voxel trimExample (1, 0, 0) < 2 \<and> voxel T' (1, 0, 0) = 1 \<and> active T' (1, 0, 0)
      \<and> inLeaf trimExample (0, 0, 1) \<and> active trimExample (0, 0, 1) \<and> voxel trimExample (0, 0, 1) < 0
      \<and> \<not> voxel trimExample (0, 0, 1) > - 2 \<and> voxel T' (0, 0, 1) = - 2 \<and> \<not> active T' (0, 0, 1)
      \<and> \<not> active trimExample (1, 1, 1) \<and> voxel T' (1, 1, 1) = voxel trimExample (1, 1, 1)
      \<and> LeafTransformer (TrimOp 3 2) T' = T')"
proof -
  have l: "inLeaf trimExample (0, 0, 0)" "inLeaf trimExample (1, 0, 0)" "inLeaf trimExample (0, 0, 1)"
    by (simp_all add: inLeaf_def trimExample_sel leafCoords_2)
  note t = C10_TrimOp[where T = trimExample and exBandWidth = 3 and inBandWidth = 2, unfolded Let_def]
  from t have a: "\<And>c. inLeaf trimExample c \<and> active trimExample c \<and> 0 \<le> voxel trimExample c \<longrightarrow>
        (if \<not> voxel trimExample c < 2
         then voxel (LeafTransformer (TrimOp 3 2) trimExample) c = 3 \<and> \<not> active (LeafTransformer (TrimOp 3 2) trimExample) c
         else voxel (LeafTransformer (TrimOp 3 2) trimExample) c = voxel trimExample c \<and> active (LeafTransformer (TrimOp 3 2) trimExample) c)"
    by blast
  from t have b: "\<And>c. inLeaf trimExample c \<and> active trimExample c \<and> voxel trimExample c < 0 \<longrightarrow>
        (if \<not> voxel trimExample c > - 2
         then voxel (LeafTransformer (TrimOp 3 2) trimExample) c = - 2 \<and> \<not> active (LeafTransformer (TrimOp 3 2) trimExample) c
         else voxel (LeafTransformer (TrimOp 3 2) trimExample) c = voxel trimExample c \<and> active (LeafTransformer (TrimOp 3 2) trimExample) c)"
    by blast
  from t have c: "\<And>c. \<not> active trimExample c \<longrightarrow> voxel (LeafTransformer (TrimOp 3 2) trimExample) c = voxel trimExample c"
    by blast
  from t have d: "LeafTransformer (TrimOp 3 2) (LeafTransformer (TrimOp 3 2) trimExample) = LeafTransformer (TrimOp 3 2) trimExample"
    by blast
  show ?thesis
    unfolding Let_def
    using a[of "(0, 0, 0)"] a[of "(1, 0, 0)"] b[of "(0, 0, 1)"] c[of "(1, 1, 1)"] d l
    by (simp add: trimExample_sel)
qed

subsection \<open>The shell-voxel cleaner\<close>

lemma ShellVoxelCleaner_body_sel:
  "voxel (fst (ShellVoxelCleaner_body P offs M distBG indexBG c (D, I))) c' =
     (if c' = c \<and> shellTurnsOff offs M c (voxel D c) then distBG
      else if c' = c \<and> shellClamps P offs M c (voxel D c) then distC P else voxel D c')"
  "active (fst (ShellVoxelCleaner_body P offs M distBG indexBG c (D, I))) c' =
     (if c' = c \<and> shellTurnsOff offs M c (voxel D c) then False
      else if c' = c \<and> shellClamps P offs M c (voxel D c) then True else active D c')"
  "voxel (snd (ShellVoxelCleaner_body P offs M distBG indexBG c (D, I))) c' =
     (if c' = c \<and> shellTurnsOff offs M c (voxel D c) then indexBG else voxel I c')"
  "active (snd (ShellVoxelCleaner_body P offs M distBG indexBG c (D, I))) c' =
     (if c' = c \<and> shellTurnsOff offs M c (voxel D c) then False else active I c')"
  "leafs (fst (ShellVoxelCleaner_body P offs M distBG indexBG c (D, I))) = leafs D"
  "leafDim (fst (ShellVoxelCleaner_body P offs M distBG indexBG c (D, I))) = leafDim D"
  "background (fst (ShellVoxelCleaner_body P offs M distBG indexBG c (D, I))) = background D"
  by (auto simp: ShellVoxelCleaner_body_def shellTurnsOff_def shellClamps_def Let_def isValueOn_def
      leaf_setValueOff_def leaf_setValueOn_def setValueOff_def touchLeaf_def)

lemma fold_ShellVoxelCleaner_body_sel:
  "distinct cs \<Longrightarrow>
   (let R = fold (ShellVoxelCleaner_body P offs M distBG indexBG) cs (D, I) in
     voxel (fst R) c =
       (if c \<in> set cs \<and> shellTurnsOff offs M c (voxel D c) then distBG
        else if c \<in> set cs \<and> shellClamps P offs M c (voxel D c) then distC P else voxel D c)
     \<and> active (fst R) c =
       (if c \<in> set cs \<and> shellTurnsOff offs M c (voxel D c) then False
        else if c \<in> set cs \<and> shellClamps P offs M c (voxel D c) then True else active D c)
     \<and> voxel (snd R) c =
       (if c \<in> set cs \<and> shellTurnsOff offs M c (voxel D c) then indexBG else voxel I c)
     \<and> active (snd R) c =
       (if c \<in> set cs \<and> shellTurnsOff offs M c (voxel D c) then False else active I c)
     \<and> leafs (fst R) = leafs D \<and> leafDim (fst R) = leafDim D \<and> background (fst R) = background D)"
proof (induction cs arbitrary: D I)
  case Nil
  then show ?case by simp
next
  case (Cons a cs)
  obtain D1 I1 where b: "ShellVoxelCleaner_body P offs M distBG indexBG a (D, I) = (D1, I1)"
    by (cases "ShellVoxelCleaner_body P offs M distBG indexBG a (D, I)") auto
  note s = ShellVoxelCleaner_body_sel[of P offs M distBG indexBG a D I, unfolded b fst_conv snd_conv]
  from Cons.prems have d: "distinct cs" and na: "a \<notin> set cs" by auto
  show ?case
    using Cons.IH[OF d, of D1 I1] na
    by (simp add: b Let_def s) (auto simp: shellTurnsOff_def shellClamps_def)
qed


lemma ShellVoxelCleaner_leaf_sel:
  "(let R = ShellVoxelCleaner_leaf P offs M distBG indexBG leaf (D, I);
        vis = (\<lambda>c. c \<in> set (leafCoords (leafDim D) leaf) \<and> active D c) in
     voxel (fst R) c =
       (if vis c \<and> shellTurnsOff offs M c (voxel D c) then distBG
        else if vis c \<and> shellClamps P offs M c (voxel D c) then distC P else voxel D c)
     \<and> active (fst R) c = (active D c \<and> \<not> (vis c \<and> shellTurnsOff offs M c (voxel D c)))
     \<and> voxel (snd R) c =
       (if vis c \<and> shellTurnsOff offs M c (voxel D c) then indexBG else voxel I c)
     \<and> active (snd R) c = (active I c \<and> \<not> (vis c \<and> shellTurnsOff offs M c (voxel D c)))
     \<and> leafs (fst R) = leafs D \<and> leafDim (fst R) = leafDim D \<and> background (fst R) = background D)"
proof -
  have d: "distinct (beginValueOn D leaf)"
    by (simp add: beginValueOn_def distinct_leafCoords)
  show ?thesis
    using fold_ShellVoxelCleaner_body_sel[OF d, of P offs M distBG indexBG D I c]
    by (auto simp: ShellVoxelCleaner_leaf_def Let_def beginValueOn_def)
qed

lemma fold_ShellVoxelCleaner_leaf_sel:
  "(let R = fold (ShellVoxelCleaner_leaf P offs M distBG indexBG) ls (D, I);
        vis = (\<lambda>c. (\<exists>l \<in> set ls. c \<in> set (leafCoords (leafDim D) l)) \<and> active D c) in
     voxel (fst R) c =
       (if vis c \<and> shellTurnsOff offs M c (voxel D c) then distBG
        else if vis c \<and> shellClamps P offs M c (voxel D c) then distC P else voxel D c)
     \<and> active (fst R) c = (active D c \<and> \<not> (vis c \<and> shellTurnsOff offs M c (voxel D c)))
     \<and> voxel (snd R) c =
       (if vis c \<and> shellTurnsOff offs M c (voxel D c) then indexBG else voxel I c)
     \<and> active (snd R) c = (active I c \<and> \<not> (vis c \<and> shellTurnsOff offs M c (voxel D c)))
     \<and> leafs (fst R) = leafs D \<and> leafDim (fst R) = leafDim D \<and> background (fst R) = background D)"
proof (induction ls arbitrary: D I)
  case Nil
  then show ?case by simp
next
  case (Cons l ls)
  obtain D1 I1 where b: "ShellVoxelCleaner_leaf P offs M distBG indexBG l (D, I) = (D1, I1)"
    by (cases "ShellVoxelCleaner_leaf P offs M distBG indexBG l (D, I)") auto
  note s = ShellVoxelCleaner_leaf_sel[of P offs M distBG indexBG l D I c, unfolded b Let_def fst_conv snd_conv]
  show ?case
    using Cons.IH[of D1 I1] s
    apply (simp add: b Let_def)
    apply (auto simp: shellTurnsOff_def shellClamps_def)
    done
qed

lemma ShellVoxelCleaner_call_sel:
  "(let R = ShellVoxelCleaner_call P offs D I M in
     voxel (fst R) c =
       (if inLeaf D c \<and> active D c \<and> shellTurnsOff offs M c (voxel D c) then background D
        else if inLeaf D c \<and> active D c \<and> shellClamps P offs M c (voxel D c) then distC P
        else voxel D c)
     \<and> active (fst R) c =
         (active D c \<and> \<not> (inLeaf D c \<and> shellTurnsOff offs M c (voxel D c)))
     \<and> active (snd R) c =
         (active I c \<and> \<not> (inLeaf D c \<and> active D c \<and> shellTurnsOff offs M c (voxel D c))))"
  using fold_ShellVoxelCleaner_leaf_sel[of P offs M "background D" "if background M then 1 else 0"
      "leafs D" D I c]
  by (auto simp: ShellVoxelCleaner_call_def Let_def inLeaf_def)

lemma COORD_OFFSETS_spec_example: "COORD_OFFSETS_spec COORD_OFFSETS_example"
  by (auto simp: COORD_OFFSETS_spec_def COORD_OFFSETS_example_def faceOffsets_def edgeOffsets_def
      cornerOffsets_def)

lemma list_ex_neighbourSites_18:
  assumes "COORD_OFFSETS_spec offs"
  shows "list_ex (isValueOn M) (neighbourSites offs 18 v)
           = (\<exists>n \<in> set (faceOffsets @ edgeOffsets). active M (coordAdd v n))"
proof -
  from assms have "set (take 18 offs) = set (faceOffsets @ edgeOffsets)"
    by (simp add: COORD_OFFSETS_spec_def)
  then show ?thesis
    by (simp add: list_ex_iff neighbourSites_def isValueOn_def del: set_append)
qed

text \<open>
  C3 (amended).  In the shell-voxel cleaner pass, for every active site \<open>v\<close> of a leaf of the
  distance tree that is not a shell site and holds a value \<open>\<le> 0\<close>: if none of its 18 face and
  edge neighbours is a shell site then \<open>v\<close> is switched off in the distance tree and in the
  index tree; otherwise \<open>v\<close> stays active and its value becomes the smaller of its previous
  value and the constant \<^verbatim>\<open>distC = -0.86602540378443861\<close> (the \<^verbatim>\<open>double\<close> nearest to the literal,
  converted to the value type of the tree).
\<close>

theorem C3_ShellVoxelCleaner:
  assumes "COORD_OFFSETS_spec offs"
  shows "\<forall>v. inLeaf D v \<and> active D v \<and> \<not> active M v \<and> voxel D v \<le> 0 \<longrightarrow>
           (if \<forall>n \<in> set (faceOffsets @ edgeOffsets). \<not> active M (coordAdd v n)
            then \<not> active (fst (ShellVoxelCleaner_call P offs D I M)) v
                 \<and> \<not> active (snd (ShellVoxelCleaner_call P offs D I M)) v
            else active (fst (ShellVoxelCleaner_call P offs D I M)) v
                 \<and> voxel (fst (ShellVoxelCleaner_call P offs D I M)) v = min (voxel D v) (distC P))"
proof (intro allI impI)
  fix v
  assume h: "inLeaf D v \<and> active D v \<and> \<not> active M v \<and> voxel D v \<le> 0"
  note n = list_ex_neighbourSites_18[OF assms, of M v]
  note s = ShellVoxelCleaner_call_sel[of P offs D I M v, unfolded Let_def]
  show "if \<forall>n \<in> set (faceOffsets @ edgeOffsets). \<not> active M (coordAdd v n)
        then \<not> active (fst (ShellVoxelCleaner_call P offs D I M)) v
             \<and> \<not> active (snd (ShellVoxelCleaner_call P offs D I M)) v
        else active (fst (ShellVoxelCleaner_call P offs D I M)) v
             \<and> voxel (fst (ShellVoxelCleaner_call P offs D I M)) v = min (voxel D v) (distC P)"
  proof (cases "\<forall>n \<in> set (faceOffsets @ edgeOffsets). \<not> active M (coordAdd v n)")
    case True
    with h n have "shellTurnsOff offs M v (voxel D v)"
      by (auto simp: shellTurnsOff_def)
    with h s True show ?thesis by simp
  next
    case False
    with h n have "\<not> shellTurnsOff offs M v (voxel D v)"
      and "shellClamps P offs M v (voxel D v) = (voxel D v > distC P)"
      by (auto simp: shellTurnsOff_def shellClamps_def)
    with h s False show ?thesis by (auto simp: min_def)
  qed
qed

lemma shellExample_sel:
  "leafs shellExampleD = [(0, 0, 0)]" "leafDim shellExampleD = 2"
  "voxel shellExampleD (0, 0, 0) = - (1 / 10)" "active shellExampleD (0, 0, 0)"
  "\<not> active shellExampleM (0, 0, 0)" "active shellExampleM (1, 0, 0)"
  by (simp_all add: shellExampleD_def shellExampleM_def setValue_def setActiveState_def
      touchLeaf_def probeLeaf_def createTree_def leafOrigin_def)

lemma shellExample_clamps:
  "inLeaf shellExampleD (0, 0, 0)"
  "shellClamps DoubleT COORD_OFFSETS_example shellExampleM (0, 0, 0) (- (1 / 10))"
  by (simp_all add: inLeaf_def shellExample_sel leafCoords_2 shellClamps_def
      COORD_OFFSETS_example_def neighbourSites_def coordAdd_def isValueOn_def distC_def
      DistValueT_of_def lit_0_86602540378443861_def)

text \<open>The cleaner on the example, a \<^verbatim>\<open>double\<close> tree: the site holds \<open>- 1 / 10\<close>, is not a shell
  site and has a shell site as face neighbour, and it ends with the constant, the smaller
  of the two values.\<close>

theorem C3_ShellVoxelCleaner_witness:
  "COORD_OFFSETS_spec COORD_OFFSETS_example
   \<and> inLeaf shellExampleD (0, 0, 0) \<and> active shellExampleD (0, 0, 0)
   \<and> \<not> active shellExampleM (0, 0, 0) \<and> voxel shellExampleD (0, 0, 0) \<le> 0
   \<and> (1, 0, 0) \<in> set (faceOffsets @ edgeOffsets)
   \<and> active shellExampleM (coordAdd (0, 0, 0) (1, 0, 0))
   \<and> active (fst (ShellVoxelCleaner_call DoubleT COORD_OFFSETS_example shellExampleD
                (createTree 2 Int32_INVALID_IDX) shellExampleM)) (0, 0, 0)
   \<and> voxel (fst (ShellVoxelCleaner_call DoubleT COORD_OFFSETS_example shellExampleD
                (createTree 2 Int32_INVALID_IDX) shellExampleM)) (0, 0, 0) = distC DoubleT"
proof -
  have n: "(1, 0, 0) \<in> set (faceOffsets @ edgeOffsets)"
    "active shellExampleM (coordAdd (0, 0, 0) (1, 0, 0))"
    by (simp_all add: faceOffsets_def coordAdd_def shellExample_sel)
  then have e: "\<not> (\<forall>n \<in> set (faceOffsets @ edgeOffsets). \<not> active shellExampleM (coordAdd (0, 0, 0) n))"
    by blast
  have h: "inLeaf shellExampleD (0, 0, 0) \<and> active shellExampleD (0, 0, 0)
           \<and> \<not> active shellExampleM (0, 0, 0) \<and> voxel shellExampleD (0, 0, 0) \<le> 0"
    by (simp add: shellExample_sel shellExample_clamps)
  have m: "min (- (1 / 10)) (distC DoubleT) = distC DoubleT"
    by (simp add: distC_def DistValueT_of_def lit_0_86602540378443861_def)
  from C3_ShellVoxelCleaner[OF COORD_OFFSETS_spec_example, where D = shellExampleD
      and M = shellExampleM and I = "createTree 2 Int32_INVALID_IDX" and P = DoubleT,
      rule_format, OF h] e
  have "active (fst (ShellVoxelCleaner_call DoubleT COORD_OFFSETS_example shellExampleD
                (createTree 2 Int32_INVALID_IDX) shellExampleM)) (0, 0, 0)
        \<and> voxel (fst (ShellVoxelCleaner_call DoubleT COORD_OFFSETS_example shellExampleD
                (createTree 2 Int32_INVALID_IDX) shellExampleM)) (0, 0, 0) = distC DoubleT"
    by (simp add: shellExample_sel m)
  with COORD_OFFSETS_spec_example h n show ?thesis by simp
qed

text \<open>The claim as first stated (the value afterwards is the larger of the previous value
  and \<open>- \<surd>3 / 2\<close>) fails on the example: the site ends with the constant, which is less than
  \<open>max (- 1 / 10) (- \<surd>3 / 2)\<close>, than \<open>max (- 1 / 10) (- 0.86602540378443861)\<close> and than the
  larger of \<open>- 1 / 10\<close> and the constant.\<close>

theorem C3_max_counterexample:
  "inLeaf shellExampleD (0, 0, 0) \<and> active shellExampleD (0, 0, 0)
   \<and> \<not> active shellExampleM (0, 0, 0) \<and> voxel shellExampleD (0, 0, 0) \<le> 0
   \<and> active shellExampleM (coordAdd (0, 0, 0) (1, 0, 0))
   \<and> voxel (fst (ShellVoxelCleaner_call DoubleT COORD_OFFSETS_example shellExampleD
                (createTree 2 Int32_INVALID_IDX) shellExampleM)) (0, 0, 0)
       < max (voxel shellExampleD (0, 0, 0)) (- (sqrt 3 / 2))
   \<and> voxel (fst (ShellVoxelCleaner_call DoubleT COORD_OFFSETS_example shellExampleD
                (createTree 2 Int32_INVALID_IDX) shellExampleM)) (0, 0, 0)
       < max (voxel shellExampleD (0, 0, 0)) (- 0.86602540378443861)
   \<and> voxel (fst (ShellVoxelCleaner_call DoubleT COORD_OFFSETS_example shellExampleD
                (createTree 2 Int32_INVALID_IDX) shellExampleM)) (0, 0, 0)
       < max (voxel shellExampleD (0, 0, 0)) (distC DoubleT)"
proof -
  have v: "voxel (fst (ShellVoxelCleaner_call DoubleT COORD_OFFSETS_example shellExampleD
                (createTree 2 Int32_INVALID_IDX) shellExampleM)) (0, 0, 0) = distC DoubleT"
    using ShellVoxelCleaner_call_sel[of DoubleT COORD_OFFSETS_example shellExampleD
        "createTree 2 Int32_INVALID_IDX" shellExampleM "(0, 0, 0)"] shellExample_clamps
    by (simp add: Let_def shellExample_sel shellTurnsOff_def shellClamps_def)
  have "distC DoubleT < - (1 / 10)"
    by (simp add: distC_def DistValueT_of_def lit_0_86602540378443861_def)
  then show ?thesis
    by (simp add: v shellExample_sel shellExample_clamps coordAdd_def max_def)
qed

subsection \<open>The mesh voxelizer\<close>

declare longEdgeFlood.simps [simp del]

lemma evalVoxel_unfold:
  assumes "getPolygon polygonList q = Some (i0, i1, i2, i3)"
    and "getPoint pointList i0 = Some v0"
    and "getPoint pointList i1 = Some v1"
    and "getPoint pointList i2 = Some v2"
    and "i3 \<noteq> INVALID_IDX \<longrightarrow> getPoint pointList i3 = Some v3"
  shows "evalVoxel P tri pointList polygonList c q st =
     (let d2 = (if i3 \<noteq> INVALID_IDX
                then min (tri v0 v1 v2 (voxelCenter c)) (tri v0 v3 v2 (voxelCenter c))
                else tri v0 v1 v2 (voxelCenter c));
          tmp = DistValueT_of P d2
      in Some (d2 < lit_0_86602540378443861,
               if tmp < \<bar>voxel (mSqrDistTree st) c\<bar>
               then st\<lparr>mSqrDistTree := setValue (mSqrDistTree st) c (- tmp),
                       mPrimIndexTree := setValue (mPrimIndexTree st) c q\<rparr>
               else st))"
  using assms
  by (cases "i3 = INVALID_IDX") (auto simp: evalVoxel_def Let_def getValue_def min_def)

lemma setValue_sel:
  "voxel (setValue T c v) c' = (if c' = c then v else voxel T c')"
  "active (setValue T c v) c' = (c' = c \<or> active T c')"
  "leafDim (setValue T c v) = leafDim T"
  "background (setValue T c v) = background T"
  by (simp_all add: setValue_def touchLeaf_def)

text \<open>
  C2 (amended).  For a voxel coordinate \<open>c\<close> and a primitive \<open>q\<close> whose indices lie in the
  lists, \<open>evalVoxel\<close> computes \<open>d\<^sup>2\<close> as the squared distance from the voxel centre to the
  triangle \<open>(v0, v1, v2)\<close>, and for a quad the smaller of that and the squared distance to
  \<open>(v0, v3, v2)\<close>.  With \<open>tmp\<close> the value of \<open>d\<^sup>2\<close> converted to the value type of the distance
  tree (\<open>d\<^sup>2\<close> itself in a \<^verbatim>\<open>double\<close> tree, \<open>d\<^sup>2\<close> rounded to single precision in a \<^verbatim>\<open>float\<close>
  tree), it writes \<open>- tmp\<close> to the distance tree and \<open>q\<close> to the index tree at \<open>c\<close>, switching
  the site on in both, exactly when \<open>tmp < \<bar>D_sq[c]\<bar>\<close>; it leaves the voxelizer unchanged
  otherwise, and every other site, the intersection tree and the scratch tree in either
  case; and it returns true exactly when \<open>d\<^sup>2\<close> is less than the \<^verbatim>\<open>double\<close> nearest to
  \<open>0.86602540378443861\<close>, which is \<open>3900231685776981 / 2\<^sup>5\<^sup>2\<close>.
\<close>

theorem C2_evalVoxel:
  assumes "getPolygon polygonList q = Some (i0, i1, i2, i3)"
    and "getPoint pointList i0 = Some v0"
    and "getPoint pointList i1 = Some v1"
    and "getPoint pointList i2 = Some v2"
    and "i3 \<noteq> INVALID_IDX \<longrightarrow> getPoint pointList i3 = Some v3"
    and "d2 = (if i3 \<noteq> INVALID_IDX
               then min (tri v0 v1 v2 (voxelCenter c)) (tri v0 v3 v2 (voxelCenter c))
               else tri v0 v1 v2 (voxelCenter c))"
    and "tmp = DistValueT_of P d2"
  shows "\<exists>st'. evalVoxel P tri pointList polygonList c q st
                 = Some (d2 < 3900231685776981 / 2 ^ 52, st')
           \<and> (tmp < \<bar>voxel (mSqrDistTree st) c\<bar> \<longrightarrow>
                 voxel (mSqrDistTree st') c = - tmp \<and> active (mSqrDistTree st') c
                 \<and> voxel (mPrimIndexTree st') c = q \<and> active (mPrimIndexTree st') c
                 \<and> (\<forall>c'. c' \<noteq> c \<longrightarrow>
                        voxel (mSqrDistTree st') c' = voxel (mSqrDistTree st) c'
                        \<and> active (mSqrDistTree st') c' = active (mSqrDistTree st) c'
                        \<and> voxel (mPrimIndexTree st') c' = voxel (mPrimIndexTree st) c'
                        \<and> active (mPrimIndexTree st') c' = active (mPrimIndexTree st) c'))
           \<and> (\<not> tmp < \<bar>voxel (mSqrDistTree st) c\<bar> \<longrightarrow> st' = st)
           \<and> mIntersectionTree st' = mIntersectionTree st
           \<and> mLastPrimTree st' = mLastPrimTree st"
proof -
  have e: "evalVoxel P tri pointList polygonList c q st =
     Some (d2 < 3900231685776981 / 2 ^ 52,
           if tmp < \<bar>voxel (mSqrDistTree st) c\<bar>
           then st\<lparr>mSqrDistTree := setValue (mSqrDistTree st) c (- tmp),
                   mPrimIndexTree := setValue (mPrimIndexTree st) c q\<rparr>
           else st)"
    using assms
    by (cases "i3 = INVALID_IDX")
       (auto simp: evalVoxel_def Let_def getValue_def min_def lit_0_86602540378443861_def)
  show ?thesis
    unfolding e by (rule exI, rule conjI, rule refl) (simp add: setValue_sel)
qed

lemma DistValueT_max_gt: "1000 < DistValueT_max"
proof -
  have "(1000::real) < 1 * 2 ^ 10" by simp
  also have "\<dots> \<le> (2 - 1 / 2 ^ 52) * 2 ^ 1023"
    by (intro mult_mono power_increasing) simp_all
  finally show ?thesis by (simp only: DistValueT_max_def)
qed

lemma example_mesh_sel:
  "getPolygon examplePolygons 0 = Some (0, 1, 2, INVALID_IDX)"
  "getPolygon examplePolygons 1 = Some (0, 3, 4, INVALID_IDX)"
  "getPolygon examplePolygons 2 = Some (0, 3, 5, 4)"
  "getPoint examplePoints 0 = Some (0, 0, 0)"
  "getPoint examplePoints 1 = Some (150, 0, 0)"
  "getPoint examplePoints 2 = Some (- 150, 0, 0)"
  "getPoint examplePoints 3 = Some (1, 0, 0)"
  "getPoint examplePoints 4 = Some (0, 1, 0)"
  "getPoint examplePoints 5 = Some (1, 1, 0)"
  by (simp_all add: getPolygon_def getPoint_def examplePolygons_def examplePoints_def)

text \<open>\<open>evalVoxel\<close> on the quad of the example mesh at the site \<open>(0, 1, 0)\<close> of an empty
  voxelizer over a \<^verbatim>\<open>double\<close> tree: the squared distance is 1, which is written and is not
  below the threshold.\<close>

theorem C2_evalVoxel_witness:
  "getPolygon examplePolygons 2 = Some (0, 3, 5, 4)
   \<and> getPoint examplePoints 0 = Some (0, 0, 0) \<and> getPoint examplePoints 3 = Some (1, 0, 0)
   \<and> getPoint examplePoints 5 = Some (1, 1, 0) \<and> 4 \<noteq> INVALID_IDX
   \<and> getPoint examplePoints 4 = Some (0, 1, 0)
   \<and> (1 :: real) = min (cornerDistSqr (0, 0, 0) (1, 0, 0) (1, 1, 0) (voxelCenter (0, 1, 0)))
                        (cornerDistSqr (0, 0, 0) (0, 1, 0) (1, 1, 0) (voxelCenter (0, 1, 0)))
   \<and> (1 :: real) = DistValueT_of DoubleT 1
   \<and> (1 :: real) < \<bar>voxel (mSqrDistTree (MeshVoxelizer_new 2)) (0, 1, 0)\<bar>
   \<and> (\<exists>st'. evalVoxel DoubleT cornerDistSqr examplePoints examplePolygons (0, 1, 0) 2
                (MeshVoxelizer_new 2) = Some (False, st')
          \<and> voxel (mSqrDistTree st') (0, 1, 0) = - 1 \<and> active (mSqrDistTree st') (0, 1, 0)
          \<and> voxel (mPrimIndexTree st') (0, 1, 0) = 2 \<and> active (mPrimIndexTree st') (0, 1, 0)
          \<and> \<not> active (mSqrDistTree st') (0, 0, 0))"
proof -
  have i: "4 \<noteq> INVALID_IDX" by (simp add: INVALID_IDX_def)
  have m: "(1::real) < \<bar>voxel (mSqrDistTree (MeshVoxelizer_new 2)) (0, 1, 0)\<bar>"
    using DistValueT_max_gt by (simp add: MeshVoxelizer_new_def createTree_def)
  have q: "4 \<noteq> INVALID_IDX \<longrightarrow> getPoint examplePoints 4 = Some (0, 1, 0)"
    by (simp add: example_mesh_sel)
  have d: "(1 :: real) = (if 4 \<noteq> INVALID_IDX
              then min (cornerDistSqr (0, 0, 0) (1, 0, 0) (1, 1, 0) (voxelCenter (0, 1, 0)))
                       (cornerDistSqr (0, 0, 0) (0, 1, 0) (1, 1, 0) (voxelCenter (0, 1, 0)))
              else cornerDistSqr (0, 0, 0) (1, 0, 0) (1, 1, 0) (voxelCenter (0, 1, 0)))"
    by (simp add: i cornerDistSqr_def voxelCenter_def)
  have t: "(1 :: real) = DistValueT_of DoubleT 1" by (simp add: DistValueT_of_def)
  from C2_evalVoxel[where tri = cornerDistSqr and P = DoubleT and c = "(0, 1, 0)"
        and st = "MeshVoxelizer_new 2" and pointList = examplePoints
        and polygonList = examplePolygons and q = 2 and ?i0.0 = 0 and ?i1.0 = 3 and ?i2.0 = 5
        and ?i3.0 = 4 and ?v0.0 = "(0, 0, 0)" and ?v1.0 = "(1, 0, 0)" and ?v2.0 = "(1, 1, 0)"
        and ?v3.0 = "(0, 1, 0)" and ?d2.0 = 1 and tmp = 1,
        OF example_mesh_sel(3) example_mesh_sel(4) example_mesh_sel(7) example_mesh_sel(9) q d t]
  obtain st' where
    r: "evalVoxel DoubleT cornerDistSqr examplePoints examplePolygons (0, 1, 0) 2
          (MeshVoxelizer_new 2) = Some ((1 :: real) < 3900231685776981 / 2 ^ 52, st')"
    and w: "1 < \<bar>voxel (mSqrDistTree (MeshVoxelizer_new 2)) (0, 1, 0)\<bar> \<longrightarrow>
                 voxel (mSqrDistTree st') (0, 1, 0) = - 1 \<and> active (mSqrDistTree st') (0, 1, 0)
                 \<and> voxel (mPrimIndexTree st') (0, 1, 0) = 2 \<and> active (mPrimIndexTree st') (0, 1, 0)
                 \<and> (\<forall>c'. c' \<noteq> (0, 1, 0) \<longrightarrow>
                        voxel (mSqrDistTree st') c' = voxel (mSqrDistTree (MeshVoxelizer_new 2)) c'
                        \<and> active (mSqrDistTree st') c' = active (mSqrDistTree (MeshVoxelizer_new 2)) c'
                        \<and> voxel (mPrimIndexTree st') c' = voxel (mPrimIndexTree (MeshVoxelizer_new 2)) c'
                        \<and> active (mPrimIndexTree st') c' = active (mPrimIndexTree (MeshVoxelizer_new 2)) c')"
    by blast
  from w m have w1: "voxel (mSqrDistTree st') (0, 1, 0) = - 1" "active (mSqrDistTree st') (0, 1, 0)"
    "voxel (mPrimIndexTree st') (0, 1, 0) = 2" "active (mPrimIndexTree st') (0, 1, 0)"
    and w2: "active (mSqrDistTree st') (0, 0, 0) = active (mSqrDistTree (MeshVoxelizer_new 2)) (0, 0, 0)"
    by simp_all
  have n: "\<not> active (mSqrDistTree st') (0, 0, 0)"
    unfolding w2 by (simp add: MeshVoxelizer_new_def createTree_def)
  have f: "\<not> (1 :: real) < 3900231685776981 / 2 ^ 52" by simp
  from r f have r': "evalVoxel DoubleT cornerDistSqr examplePoints examplePolygons (0, 1, 0) 2
          (MeshVoxelizer_new 2) = Some (False, st')" by simp
  from r' w1 n m d i t show ?thesis
    by (simp add: example_mesh_sel)
qed

lemma voxelizerExample_sel:
  "voxel (mSqrDistTree voxelizerExample) (0, 1, 0) = - 1"
  "active (mSqrDistTree voxelizerExample) (0, 1, 0)"
  by (simp_all add: voxelizerExample_def MeshVoxelizer_new_def setValue_sel)

text \<open>As stated, the claim fails in a \<^verbatim>\<open>float\<close> tree and at the threshold.  With
  \<open>d\<^sup>2 = 1 - 2\<^sup>-\<^sup>3\<^sup>0\<close> and \<open>D_sq[c] = - 1\<close> in a \<^verbatim>\<open>float\<close> tree, \<open>d\<^sup>2 < \<bar>D_sq[c]\<bar>\<close> holds and nothing is
  written: the site keeps \<open>- 1\<close>, which is not \<open>- d\<^sup>2\<close>.  With \<open>d\<^sup>2 = 3900231685776981 / 2\<^sup>5\<^sup>2\<close>,
  which is less than \<open>0.86602540378443861\<close>, the result is false.\<close>

theorem C2_float_counterexample:
  "(1 - 1 / 2 ^ 30 :: real) < \<bar>voxel (mSqrDistTree voxelizerExample) (0, 1, 0)\<bar>
   \<and> evalVoxel FloatT (constDistSqr (1 - 1 / 2 ^ 30)) examplePoints examplePolygons (0, 1, 0) 1
         voxelizerExample = Some (False, voxelizerExample)
   \<and> voxel (mSqrDistTree voxelizerExample) (0, 1, 0) \<noteq> - (1 - 1 / 2 ^ 30)
   \<and> (3900231685776981 / 2 ^ 52 :: real) < 0.86602540378443861
   \<and> map_option fst
         (evalVoxel DoubleT (constDistSqr (3900231685776981 / 2 ^ 52)) examplePoints
            examplePolygons (0, 1, 0) 1 voxelizerExample) = Some False"
proof -
  have q: "0 \<noteq> INVALID_IDX \<longrightarrow> getPoint examplePoints 0 = Some (0, 0, 0)"
    by (simp add: example_mesh_sel)
  note u = evalVoxel_unfold[OF example_mesh_sel(2) example_mesh_sel(4) example_mesh_sel(7)
      example_mesh_sel(8), where ?v3.0 = "(0, 0, 0)"
      and c = "(0, 1, 0)" and st = voxelizerExample, simplified]
  have a: "evalVoxel FloatT (constDistSqr (1 - 1 / 2 ^ 30)) examplePoints examplePolygons
             (0, 1, 0) 1 voxelizerExample = Some (False, voxelizerExample)"
    by (simp add: u constDistSqr_def DistValueT_of_def fl32_below_one_numeral
        voxelizerExample_sel lit_0_86602540378443861_def Let_def)
  have b: "map_option fst
         (evalVoxel DoubleT (constDistSqr (3900231685776981 / 2 ^ 52)) examplePoints
            examplePolygons (0, 1, 0) 1 voxelizerExample) = Some False"
    by (simp add: u constDistSqr_def lit_0_86602540378443861_def Let_def)
  from a b show ?thesis
    by (simp add: voxelizerExample_sel)
qed

lemma fl64_numeral [simp]:
  "fl64 0 = 0" "fl64 1 = 1" "fl64 (- 1) = - 1"
  "(numeral n :: int) < 2 ^ 53 \<Longrightarrow> fl64 (numeral n) = numeral n"
  "(numeral n :: int) < 2 ^ 53 \<Longrightarrow> fl64 (- numeral n) = - numeral n"
  using fl64_of_int[of 0] fl64_of_int[of 1] fl64_of_int[of "- 1"] fl64_of_int[of "numeral n"]
    fl64_of_int[of "- numeral n"]
  by simp_all

lemma shortEdge_iff:
  "shortEdge (x0, y0, z0) (x1, y1, z1) (x2, y2, z2) =
     (\<bar>fl64 (x1 - x0)\<bar> < 200 \<and> \<bar>fl64 (y1 - y0)\<bar> < 200 \<and> \<bar>fl64 (z1 - z0)\<bar> < 200
      \<and> \<bar>fl64 (x0 - x2)\<bar> < 200 \<and> \<bar>fl64 (y0 - y2)\<bar> < 200 \<and> \<bar>fl64 (z0 - z2)\<bar> < 200)"
  by (simp add: shortEdge_def Let_def)

text \<open>
  C4 (amended).  The mesh voxelizer classifies a primitive as short-edge exactly when the
  three axis-wise extents of its \<open>v0\<rightarrow>v1\<close> edge and the three axis-wise extents of its \<open>v0\<leftrightarrow>v2\<close>
  edge, each the absolute value of the difference of the coordinates computed in \<^verbatim>\<open>double\<close>
  precision, are all strictly less than 200 index units (the \<open>v1\<leftrightarrow>v2\<close> edge and a quad's
  fourth corner are not examined); a short-edge primitive takes the short-edge branch and
  every other primitive takes the long-edge flood-fill branch.
\<close>

theorem C4_shortEdge:
  assumes "getPolygon polygonList (int n) = Some (i0, i1, i2, i3)"
    and "getPoint pointList i0 = Some (x0, y0, z0)"
    and "getPoint pointList i1 = Some (x1, y1, z1)"
    and "getPoint pointList i2 = Some (x2, y2, z2)"
  shows "shortEdge (x0, y0, z0) (x1, y1, z1) (x2, y2, z2) =
           (\<bar>fl64 (x1 - x0)\<bar> < 200 \<and> \<bar>fl64 (y1 - y0)\<bar> < 200 \<and> \<bar>fl64 (z1 - z0)\<bar> < 200
            \<and> \<bar>fl64 (x0 - x2)\<bar> < 200 \<and> \<bar>fl64 (y0 - y2)\<bar> < 200 \<and> \<bar>fl64 (z0 - z2)\<bar> < 200)
         \<and> voxelizePrimitive fuel P tri nearestCoord offs pointList polygonList n as =
           (if shortEdge (x0, y0, z0) (x1, y1, z1) (x2, y2, z2)
            then map_option (Pair (fst as))
                   (shortEdgeBranch fuel P tri nearestCoord offs pointList polygonList (int n)
                      (i0, i1, i2, i3) (x0, y0, z0) (x1, y1, z1) (x2, y2, z2) (snd as))
            else longEdgeBranch fuel P tri nearestCoord offs pointList polygonList (int n)
                   (x0, y0, z0) as)"
proof
  show "shortEdge (x0, y0, z0) (x1, y1, z1) (x2, y2, z2) =
           (\<bar>fl64 (x1 - x0)\<bar> < 200 \<and> \<bar>fl64 (y1 - y0)\<bar> < 200 \<and> \<bar>fl64 (z1 - z0)\<bar> < 200
            \<and> \<bar>fl64 (x0 - x2)\<bar> < 200 \<and> \<bar>fl64 (y0 - y2)\<bar> < 200 \<and> \<bar>fl64 (z0 - z2)\<bar> < 200)"
    by (rule shortEdge_iff)
  show "voxelizePrimitive fuel P tri nearestCoord offs pointList polygonList n as =
           (if shortEdge (x0, y0, z0) (x1, y1, z1) (x2, y2, z2)
            then map_option (Pair (fst as))
                   (shortEdgeBranch fuel P tri nearestCoord offs pointList polygonList (int n)
                      (i0, i1, i2, i3) (x0, y0, z0) (x1, y1, z1) (x2, y2, z2) (snd as))
            else longEdgeBranch fuel P tri nearestCoord offs pointList polygonList (int n)
                   (x0, y0, z0) as)"
    using assms
    by (cases "shortEdgeBranch fuel P tri nearestCoord offs pointList polygonList (int n)
                      (i0, i1, i2, i3) (x0, y0, z0) (x1, y1, z1) (x2, y2, z2) (snd as)")
       (simp_all add: voxelizePrimitive_def Let_def)
qed

text \<open>The second triangle of the example mesh has corners \<open>(0, 0, 0)\<close>, \<open>(1, 0, 0)\<close> and
  \<open>(0, 1, 0)\<close>: it is short-edge and takes the short-edge branch.\<close>

theorem C4_shortEdge_witness:
  "getPolygon examplePolygons (int 1) = Some (0, 3, 4, INVALID_IDX)
   \<and> getPoint examplePoints 0 = Some (0, 0, 0) \<and> getPoint examplePoints 3 = Some (1, 0, 0)
   \<and> getPoint examplePoints 4 = Some (0, 1, 0)
   \<and> shortEdge (0, 0, 0) (1, 0, 0) (0, 1, 0)
   \<and> voxelizePrimitive 10 DoubleT cornerDistSqr (\<lambda>p. (0, 0, 0)) COORD_OFFSETS_example examplePoints
        examplePolygons 1 (createTree 2 False, MeshVoxelizer_new 2) =
      map_option (Pair (createTree 2 False))
        (shortEdgeBranch 10 DoubleT cornerDistSqr (\<lambda>p. (0, 0, 0)) COORD_OFFSETS_example examplePoints
           examplePolygons 1 (0, 3, 4, INVALID_IDX) (0, 0, 0) (1, 0, 0) (0, 1, 0)
           (MeshVoxelizer_new 2))"
proof -
  have p: "getPolygon examplePolygons (int 1) = Some (0, 3, 4, INVALID_IDX)"
    by (simp add: example_mesh_sel)
  have s: "shortEdge (0, 0, 0) (1, 0, 0) (0, 1, 0)"
    by (simp add: shortEdge_def)
  from C4_shortEdge[OF p example_mesh_sel(4) example_mesh_sel(7) example_mesh_sel(8),
      of 10 DoubleT cornerDistSqr "\<lambda>p. (0, 0, 0)" COORD_OFFSETS_example
         "(createTree 2 False, MeshVoxelizer_new 2)"] s
  show ?thesis
    by (simp add: example_mesh_sel)
qed

text \<open>Read as a condition on the edges of the triangle \<open>(v0, v1, v2)\<close>, the claim fails on the
  first triangle of the example mesh, with corners \<open>(0, 0, 0)\<close>, \<open>(150, 0, 0)\<close> and
  \<open>(- 150, 0, 0)\<close>: it is classified short-edge although its \<open>v1\<leftrightarrow>v2\<close> edge extends over 300
  index units along \<open>i\<close>, in exact arithmetic and in \<^verbatim>\<open>double\<close> precision.\<close>

theorem C4_edge_counterexample:
  "getPolygon examplePolygons 0 = Some (0, 1, 2, INVALID_IDX)
   \<and> getPoint examplePoints 0 = Some (0, 0, 0) \<and> getPoint examplePoints 1 = Some (150, 0, 0)
   \<and> getPoint examplePoints 2 = Some (- 150, 0, 0)
   \<and> shortEdge (0, 0, 0) (150, 0, 0) (- 150, 0, 0)
   \<and> \<not> \<bar>150 - (- 150)\<bar> < (200::real)
   \<and> \<not> \<bar>fl64 (150 - (- 150))\<bar> < 200"
  by (simp add: getPolygon_def getPoint_def examplePolygons_def examplePoints_def shortEdge_def)

text \<open>The differences round: the extent \<open>200 - 2\<^sup>-\<^sup>6\<^sup>0\<close> is \<open>200\<close> in \<^verbatim>\<open>double\<close> precision, and the
  triangle with corners \<open>(2\<^sup>-\<^sup>6\<^sup>0, 0, 0)\<close>, \<open>(200, 0, 0)\<close> and \<open>(2\<^sup>-\<^sup>6\<^sup>0, 1, 0)\<close> is not short-edge.\<close>

lemma fl64_below_200: "fl64 (200 - 1 / 2 ^ 60) = 200"
proof -
  let ?x = "200 - 1 / 2 ^ 60 :: real"
  have p1: "pow2 7 = 128" "pow2 8 = 256" "pow2 (- 45) = 1 / 2 ^ 45"
    by (simp_all add: pow2_def)
  have b: "binade (- 1022) 1023 ?x = 7"
    by (rule binade_eq) (simp_all add: p1)
  have d: "?x / pow2 (- 45) = 200 * 2 ^ 45 - 1 / 2 ^ 15"
    by (simp add: p1)
  have f: "\<lfloor>200 * 2 ^ 45 - 1 / 2 ^ 15 :: real\<rfloor> = 200 * 2 ^ 45 - 1"
    by (rule floor_unique) simp_all
  have r: "roundTiesToEven (200 * 2 ^ 45 - 1 / 2 ^ 15) = 200 * 2 ^ 45"
    unfolding roundTiesToEven_def Let_def f by simp
  have "roundBinary 53 (- 1022) 1023 ?x = of_int (200 * 2 ^ 45) * pow2 (- 45)"
    by (rule roundBinary_eval[OF b _ d r]) simp
  then show ?thesis by (simp add: fl64_def p1)
qed

lemma fl64_below_200_numeral: "fl64 (230584300921369395199 / 1152921504606846976) = 200"
  using fl64_below_200 by simp

lemma shortEdge_rounds: "\<not> shortEdge (1 / 2 ^ 60, 0, 0) (200, 0, 0) (1 / 2 ^ 60, 1, 0)"
  by (simp add: shortEdge_def fl64_below_200_numeral)

subsection \<open>Joining two voxelizers\<close>

lemma fold_pointwise:
  assumes step: "\<And>c s c'. obs (f c s) c' = (if c' = c then g c (obs s c) else obs s c')"
    and idem: "\<And>c v. g c (g c v) = g c v"
  shows "obs (fold f cs s) c = (if c \<in> set cs then g c (obs s c) else obs s c)"
proof (induction cs arbitrary: s)
  case Nil
  then show ?case by simp
next
  case (Cons a cs)
  show ?case
    by (simp add: Cons.IH step idem)
qed

lemma leafOrigin_in_leafCoords:
  assumes "0 < d"
  shows "c \<in> set (leafCoords d (leafOrigin d c))"
proof -
  obtain i j k where c: "c = (i, j, k)" by (cases c) auto
  let ?f = "\<lambda>(x, y, z). (i - i mod d + x, j - j mod d + y, k - k mod d + z)"
  have "(i mod d, j mod d, k mod d)
          \<in> set (List.product [0..d - 1] (List.product [0..d - 1] [0..d - 1]))"
    using assms by (auto simp: zle_diff1_eq)
  then have "?f (i mod d, j mod d, k mod d) \<in> set (leafCoords d (i - i mod d, j - j mod d, k - k mod d))"
    unfolding leafCoords_product set_map by (rule imageI)
  then show ?thesis
    by (simp add: c leafOrigin_def)
qed

lemma probeLeaf_inLeaf: "0 < leafDim T \<Longrightarrow> probeLeaf T c \<Longrightarrow> inLeaf T c"
  unfolding probeLeaf_def inLeaf_def
  using leafOrigin_in_leafCoords by blast


lemma join_body_obs:
  "(\<lambda>s c. (voxel (mSqrDistTree s) c, active (mSqrDistTree s) c,
            voxel (mPrimIndexTree s) c, active (mPrimIndexTree s) c)) (join_body rhs c s) c' =
     (if c' = c
      then (\<lambda>c (lv, la, li, lia).
              if - voxel (mSqrDistTree rhs) c < \<bar>lv\<bar>
              then (voxel (mSqrDistTree rhs) c, True, voxel (mPrimIndexTree rhs) c, True)
              else (lv, la, li, lia)) c
             ((\<lambda>s c. (voxel (mSqrDistTree s) c, active (mSqrDistTree s) c,
                       voxel (mPrimIndexTree s) c, active (mPrimIndexTree s) c)) s c)
      else (\<lambda>s c. (voxel (mSqrDistTree s) c, active (mSqrDistTree s) c,
                    voxel (mPrimIndexTree s) c, active (mPrimIndexTree s) c)) s c')"
  by (simp add: join_body_def Let_def getValue_def setValue_def touchLeaf_def)

lemma fold_join_body_obs:
  "(voxel (mSqrDistTree (fold (join_body rhs) cs s)) c,
    active (mSqrDistTree (fold (join_body rhs) cs s)) c,
    voxel (mPrimIndexTree (fold (join_body rhs) cs s)) c,
    active (mPrimIndexTree (fold (join_body rhs) cs s)) c) =
   (if c \<in> set cs \<and> - voxel (mSqrDistTree rhs) c < \<bar>voxel (mSqrDistTree s) c\<bar>
    then (voxel (mSqrDistTree rhs) c, True, voxel (mPrimIndexTree rhs) c, True)
    else (voxel (mSqrDistTree s) c, active (mSqrDistTree s) c,
          voxel (mPrimIndexTree s) c, active (mPrimIndexTree s) c))"
proof -
  let ?obs = "\<lambda>s c. (voxel (mSqrDistTree s) c, active (mSqrDistTree s) c,
                      voxel (mPrimIndexTree s) c, active (mPrimIndexTree s) c)"
  let ?g = "\<lambda>c (lv, la, li, lia).
              if - voxel (mSqrDistTree rhs) c < \<bar>lv\<bar>
              then (voxel (mSqrDistTree rhs) c, True, voxel (mPrimIndexTree rhs) c, True)
              else (lv, la, li, lia)"
  have idem: "\<And>c v. ?g c (?g c v) = ?g c v"
    by (auto split: prod.splits)
  have "?obs (fold (join_body rhs) cs s) c = (if c \<in> set cs then ?g c (?obs s c) else ?obs s c)"
    by (rule fold_pointwise[where obs = ?obs and g = ?g, OF join_body_obs idem])
  then show ?thesis by (simp split: if_splits)
qed

lemma join_body_frame:
  "mIntersectionTree (join_body rhs c s) = mIntersectionTree s"
  "leafDim (mSqrDistTree (join_body rhs c s)) = leafDim (mSqrDistTree s)"
  by (simp_all add: join_body_def Let_def setValue_def touchLeaf_def)

lemma fold_join_body_frame:
  "mIntersectionTree (fold (join_body rhs) cs s) = mIntersectionTree s
   \<and> leafDim (mSqrDistTree (fold (join_body rhs) cs s)) = leafDim (mSqrDistTree s)"
  by (induction cs arbitrary: s) (simp_all add: join_body_frame)

lemma join_loops:
  "fold (join_leaf rhs) ls s =
     fold (join_body rhs) (concat (map (beginValueOn (mSqrDistTree rhs)) ls)) s"
  by (induction ls arbitrary: s) (simp_all add: join_leaf_def)

lemma join_sites:
  "c \<in> set (concat (map (beginValueOn T) (leafs T))) = (inLeaf T c \<and> active T c)"
  by (auto simp: beginValueOn_def inLeaf_def)

lemma join_sel:
  "voxel (mSqrDistTree (join lhs rhs)) c =
     (if joinWrites lhs rhs c then voxel (mSqrDistTree rhs) c else voxel (mSqrDistTree lhs) c)"
  "active (mSqrDistTree (join lhs rhs)) c = (joinWrites lhs rhs c \<or> active (mSqrDistTree lhs) c)"
  "voxel (mPrimIndexTree (join lhs rhs)) c =
     (if joinWrites lhs rhs c then voxel (mPrimIndexTree rhs) c else voxel (mPrimIndexTree lhs) c)"
  "active (mPrimIndexTree (join lhs rhs)) c = (joinWrites lhs rhs c \<or> active (mPrimIndexTree lhs) c)"
  "active (mIntersectionTree (join lhs rhs)) c =
     (active (mIntersectionTree lhs) c \<or> active (mIntersectionTree rhs) c)"
  "leafDim (mSqrDistTree (join lhs rhs)) = leafDim (mSqrDistTree lhs)"
proof -
  let ?cs = "concat (map (beginValueOn (mSqrDistTree rhs)) (leafs (mSqrDistTree rhs)))"
  have w: "(c \<in> set ?cs \<and> - voxel (mSqrDistTree rhs) c < \<bar>voxel (mSqrDistTree lhs) c\<bar>)
             = joinWrites lhs rhs c"
    by (simp only: join_sites joinWrites_def conj_assoc)
  note o = fold_join_body_obs[of rhs ?cs lhs c, unfolded w]
  have j: "mSqrDistTree (join lhs rhs) = mSqrDistTree (fold (join_body rhs) ?cs lhs)"
    "mPrimIndexTree (join lhs rhs) = mPrimIndexTree (fold (join_body rhs) ?cs lhs)"
    by (simp_all add: join_def Let_def join_loops)
  show "voxel (mSqrDistTree (join lhs rhs)) c =
     (if joinWrites lhs rhs c then voxel (mSqrDistTree rhs) c else voxel (mSqrDistTree lhs) c)"
    using o unfolding j by (simp split: if_splits)
  show "active (mSqrDistTree (join lhs rhs)) c = (joinWrites lhs rhs c \<or> active (mSqrDistTree lhs) c)"
    using o unfolding j by (simp split: if_splits)
  show "voxel (mPrimIndexTree (join lhs rhs)) c =
     (if joinWrites lhs rhs c then voxel (mPrimIndexTree rhs) c else voxel (mPrimIndexTree lhs) c)"
    using o unfolding j by (simp split: if_splits)
  show "active (mPrimIndexTree (join lhs rhs)) c = (joinWrites lhs rhs c \<or> active (mPrimIndexTree lhs) c)"
    using o unfolding j by (simp split: if_splits)
  show "active (mIntersectionTree (join lhs rhs)) c =
     (active (mIntersectionTree lhs) c \<or> active (mIntersectionTree rhs) c)"
    by (simp add: join_def Let_def join_loops fold_join_body_frame Tree_merge_def)
  show "leafDim (mSqrDistTree (join lhs rhs)) = leafDim (mSqrDistTree lhs)"
    by (simp add: j fold_join_body_frame)
qed

lemma join_body_probeLeaf:
  assumes "\<forall>c. active (mSqrDistTree s) c \<longrightarrow> probeLeaf (mSqrDistTree s) c"
  shows "\<forall>c. active (mSqrDistTree (join_body rhs a s)) c \<longrightarrow> probeLeaf (mSqrDistTree (join_body rhs a s)) c"
  using assms
  by (auto simp: join_body_def Let_def setValue_def touchLeaf_def probeLeaf_def)

lemma fold_join_body_probeLeaf:
  "\<forall>c. active (mSqrDistTree s) c \<longrightarrow> probeLeaf (mSqrDistTree s) c \<Longrightarrow>
   \<forall>c. active (mSqrDistTree (fold (join_body rhs) cs s)) c
         \<longrightarrow> probeLeaf (mSqrDistTree (fold (join_body rhs) cs s)) c"
proof (induction cs arbitrary: s)
  case Nil
  then show ?case by simp
next
  case (Cons a cs)
  show ?case
    unfolding fold_simps by (rule Cons.IH) (rule join_body_probeLeaf[OF Cons.prems])
qed

lemma join_probeLeaf:
  assumes "\<forall>c. active (mSqrDistTree lhs) c \<longrightarrow> probeLeaf (mSqrDistTree lhs) c"
  shows "active (mSqrDistTree (join lhs rhs)) c \<Longrightarrow> probeLeaf (mSqrDistTree (join lhs rhs)) c"
proof -
  have j: "mSqrDistTree (join lhs rhs) =
      mSqrDistTree (fold (join_body rhs)
        (concat (map (beginValueOn (mSqrDistTree rhs)) (leafs (mSqrDistTree rhs)))) lhs)"
    by (simp add: join_def Let_def join_loops)
  assume "active (mSqrDistTree (join lhs rhs)) c"
  then show ?thesis
    unfolding j using fold_join_body_probeLeaf[OF assms] by blast
qed

lemma DistValueT_max_pos: "0 < DistValueT_max"
  using DistValueT_max_gt by simp

lemma partialResultD:
  "partialResult st \<Longrightarrow> active (mSqrDistTree st) c \<Longrightarrow>
     inLeaf (mSqrDistTree st) c \<and> probeLeaf (mSqrDistTree st) c
     \<and> - DistValueT_max < voxel (mSqrDistTree st) c \<and> voxel (mSqrDistTree st) c \<le> 0
     \<and> active (mPrimIndexTree st) c"
  "partialResult st \<Longrightarrow> \<not> active (mSqrDistTree st) c \<Longrightarrow>
     voxel (mSqrDistTree st) c = DistValueT_max
     \<and> voxel (mPrimIndexTree st) c = Int32_INVALID_IDX \<and> \<not> active (mPrimIndexTree st) c"
  unfolding partialResult_def by (blast intro: probeLeaf_inLeaf)+

lemma joinWrites_partial:
  assumes "partialResult lhs" "partialResult rhs"
  shows "joinWrites lhs rhs c =
           (active (mSqrDistTree rhs) c
            \<and> (active (mSqrDistTree lhs) c \<longrightarrow> voxel (mSqrDistTree lhs) c < voxel (mSqrDistTree rhs) c))"
proof (cases "active (mSqrDistTree rhs) c")
  case False
  then show ?thesis by (simp add: joinWrites_def)
next
  case True
  with partialResultD(1)[OF assms(2), of c] have l: "inLeaf (mSqrDistTree rhs) c"
    and r: "- DistValueT_max < voxel (mSqrDistTree rhs) c" "voxel (mSqrDistTree rhs) c \<le> 0"
    by simp_all
  show ?thesis
  proof (cases "active (mSqrDistTree lhs) c")
    case True
    with partialResultD(1)[OF assms(1), of c] have "voxel (mSqrDistTree lhs) c \<le> 0" by simp
    with l r \<open>active (mSqrDistTree rhs) c\<close> True show ?thesis
      by (auto simp: joinWrites_def)
  next
    case False
    with partialResultD(2)[OF assms(1), of c] have "voxel (mSqrDistTree lhs) c = DistValueT_max" by simp
    with l r \<open>active (mSqrDistTree rhs) c\<close> False DistValueT_max_pos show ?thesis
      by (auto simp: joinWrites_def)
  qed
qed

lemma join_partialResult:
  assumes "partialResult lhs" "partialResult rhs"
  shows "partialResult (join lhs rhs)"
proof -
  have p: "\<forall>c. active (mSqrDistTree lhs) c \<longrightarrow> probeLeaf (mSqrDistTree lhs) c"
    using assms(1) by (simp add: partialResult_def)
  have d: "0 < leafDim (mSqrDistTree (join lhs rhs))"
    using assms(1) by (simp add: join_sel partialResult_def)
  have "(active (mSqrDistTree (join lhs rhs)) c \<longrightarrow>
            probeLeaf (mSqrDistTree (join lhs rhs)) c
            \<and> - DistValueT_max < voxel (mSqrDistTree (join lhs rhs)) c
            \<and> voxel (mSqrDistTree (join lhs rhs)) c \<le> 0
            \<and> active (mPrimIndexTree (join lhs rhs)) c)
         \<and> (\<not> active (mSqrDistTree (join lhs rhs)) c \<longrightarrow>
            voxel (mSqrDistTree (join lhs rhs)) c = DistValueT_max
            \<and> voxel (mPrimIndexTree (join lhs rhs)) c = Int32_INVALID_IDX
            \<and> \<not> active (mPrimIndexTree (join lhs rhs)) c)" for c
    using join_probeLeaf[OF p, of rhs c] partialResultD[OF assms(1), of c]
      partialResultD[OF assms(2), of c]
    by (auto simp: join_sel joinWrites_partial[OF assms])
  with d show ?thesis
    unfolding partialResult_def by blast
qed

lemma join_active_rhs:
  assumes "partialResult lhs" "partialResult rhs" "active (mSqrDistTree rhs) c"
  shows "joinWrites lhs rhs c = (- voxel (mSqrDistTree rhs) c < \<bar>voxel (mSqrDistTree lhs) c\<bar>)"
  using partialResultD(1)[OF assms(2) assms(3)] assms(3)
  by (simp add: joinWrites_def)

lemma join_commute_partial:
  assumes l: "partialResult lhs" and r: "partialResult rhs"
  shows "voxel (mSqrDistTree (join lhs rhs)) c = voxel (mSqrDistTree (join rhs lhs)) c"
    "active (mSqrDistTree (join lhs rhs)) c = active (mSqrDistTree (join rhs lhs)) c"
    "active (mPrimIndexTree (join lhs rhs)) c = active (mPrimIndexTree (join rhs lhs)) c"
    "active (mIntersectionTree (join lhs rhs)) c = active (mIntersectionTree (join rhs lhs)) c"
    "\<not> (active (mSqrDistTree lhs) c \<and> active (mSqrDistTree rhs) c
        \<and> voxel (mSqrDistTree lhs) c = voxel (mSqrDistTree rhs) c) \<Longrightarrow>
     voxel (mPrimIndexTree (join lhs rhs)) c = voxel (mPrimIndexTree (join rhs lhs)) c"
    "active (mSqrDistTree lhs) c \<and> active (mSqrDistTree rhs) c
        \<and> voxel (mSqrDistTree lhs) c = voxel (mSqrDistTree rhs) c \<Longrightarrow>
     voxel (mPrimIndexTree (join lhs rhs)) c = voxel (mPrimIndexTree lhs) c"
  using partialResultD[OF l, of c] partialResultD[OF r, of c]
  by (auto simp: join_sel joinWrites_partial[OF l r] joinWrites_partial[OF r l])

lemma join_assoc_partial:
  assumes a: "partialResult x" and b: "partialResult y" and c: "partialResult z"
  shows "sameResult (join (join x y) z) (join x (join y z))"
proof -
  note xy = join_partialResult[OF a b]
  note yz = join_partialResult[OF b c]
  have "voxel (mSqrDistTree (join (join x y) z)) s = voxel (mSqrDistTree (join x (join y z))) s
        \<and> active (mSqrDistTree (join (join x y) z)) s = active (mSqrDistTree (join x (join y z))) s
        \<and> voxel (mPrimIndexTree (join (join x y) z)) s = voxel (mPrimIndexTree (join x (join y z))) s
        \<and> active (mPrimIndexTree (join (join x y) z)) s = active (mPrimIndexTree (join x (join y z))) s
        \<and> active (mIntersectionTree (join (join x y) z)) s
            = active (mIntersectionTree (join x (join y z))) s" for s
    using partialResultD[OF a, of s] partialResultD[OF b, of s] partialResultD[OF c, of s]
    by (auto simp: join_sel joinWrites_partial[OF xy c] joinWrites_partial[OF a yz]
        joinWrites_partial[OF a b] joinWrites_partial[OF b c])
  then show ?thesis
    unfolding sameResult_def by (intro conjI ext) blast+
qed

text \<open>
  C5.  For partial results \<open>L\<close>, \<open>R\<close> and \<open>S\<close> of the voxelizer: at every active site \<open>c\<close> of
  \<open>R\<close>'s distance tree, \<open>join\<close> sets \<open>L_sq[c] = R_sq[c]\<close> and \<open>L_I[c] = R_I[c]\<close> exactly when
  \<open>- R_sq[c] < \<bar>L_sq[c]\<bar>\<close> and leaves both as they were otherwise, as it does at every other
  site; the intersection masks are merged by logical union; the join of two partial results
  is a partial result; \<open>join L R\<close> and \<open>join R L\<close> hold the same distances and the same active
  sites, and the same primitive index wherever the two distances are not numerically
  identical; where they are identical \<open>join L R\<close> keeps \<open>L\<close>'s primitive index; and \<open>join\<close> is
  associative.
\<close>

theorem C5_join:
  assumes "partialResult L" and "partialResult R" and "partialResult S"
  shows "(\<forall>c. active (mSqrDistTree R) c \<longrightarrow>
            (if - voxel (mSqrDistTree R) c < \<bar>voxel (mSqrDistTree L) c\<bar>
             then voxel (mSqrDistTree (join L R)) c = voxel (mSqrDistTree R) c
                  \<and> voxel (mPrimIndexTree (join L R)) c = voxel (mPrimIndexTree R) c
             else voxel (mSqrDistTree (join L R)) c = voxel (mSqrDistTree L) c
                  \<and> voxel (mPrimIndexTree (join L R)) c = voxel (mPrimIndexTree L) c))
       \<and> (\<forall>c. \<not> active (mSqrDistTree R) c \<longrightarrow>
            voxel (mSqrDistTree (join L R)) c = voxel (mSqrDistTree L) c
            \<and> voxel (mPrimIndexTree (join L R)) c = voxel (mPrimIndexTree L) c)
       \<and> (\<forall>c. active (mIntersectionTree (join L R)) c =
                 (active (mIntersectionTree L) c \<or> active (mIntersectionTree R) c))
       \<and> partialResult (join L R)
       \<and> voxel (mSqrDistTree (join L R)) = voxel (mSqrDistTree (join R L))
       \<and> active (mSqrDistTree (join L R)) = active (mSqrDistTree (join R L))
       \<and> active (mPrimIndexTree (join L R)) = active (mPrimIndexTree (join R L))
       \<and> active (mIntersectionTree (join L R)) = active (mIntersectionTree (join R L))
       \<and> (\<forall>c. \<not> (active (mSqrDistTree L) c \<and> active (mSqrDistTree R) c
                    \<and> voxel (mSqrDistTree L) c = voxel (mSqrDistTree R) c) \<longrightarrow>
                voxel (mPrimIndexTree (join L R)) c = voxel (mPrimIndexTree (join R L)) c)
       \<and> (\<forall>c. active (mSqrDistTree L) c \<and> active (mSqrDistTree R) c
                    \<and> voxel (mSqrDistTree L) c = voxel (mSqrDistTree R) c \<longrightarrow>
                voxel (mPrimIndexTree (join L R)) c = voxel (mPrimIndexTree L) c)
       \<and> sameResult (join (join L R) S) (join L (join R S))"
proof (intro conjI allI impI)
  fix c
  assume "active (mSqrDistTree R) c"
  then show "if - voxel (mSqrDistTree R) c < \<bar>voxel (mSqrDistTree L) c\<bar>
             then voxel (mSqrDistTree (join L R)) c = voxel (mSqrDistTree R) c
                  \<and> voxel (mPrimIndexTree (join L R)) c = voxel (mPrimIndexTree R) c
             else voxel (mSqrDistTree (join L R)) c = voxel (mSqrDistTree L) c
                  \<and> voxel (mPrimIndexTree (join L R)) c = voxel (mPrimIndexTree L) c"
    by (simp add: join_sel join_active_rhs[OF assms(1) assms(2)])
next
  fix c
  assume "\<not> active (mSqrDistTree R) c"
  then have "\<not> joinWrites L R c" by (simp add: joinWrites_def)
  then show "voxel (mSqrDistTree (join L R)) c = voxel (mSqrDistTree L) c"
    and "voxel (mPrimIndexTree (join L R)) c = voxel (mPrimIndexTree L) c"
    by (simp_all add: join_sel)
next
  fix c
  show "active (mIntersectionTree (join L R)) c =
          (active (mIntersectionTree L) c \<or> active (mIntersectionTree R) c)"
    by (rule join_sel)
next
  show "partialResult (join L R)"
    by (rule join_partialResult[OF assms(1) assms(2)])
next
  show "voxel (mSqrDistTree (join L R)) = voxel (mSqrDistTree (join R L))"
    by (rule ext) (rule join_commute_partial[OF assms(1) assms(2)])
  show "active (mSqrDistTree (join L R)) = active (mSqrDistTree (join R L))"
    by (rule ext) (rule join_commute_partial[OF assms(1) assms(2)])
  show "active (mPrimIndexTree (join L R)) = active (mPrimIndexTree (join R L))"
    by (rule ext) (rule join_commute_partial[OF assms(1) assms(2)])
  show "active (mIntersectionTree (join L R)) = active (mIntersectionTree (join R L))"
    by (rule ext) (rule join_commute_partial[OF assms(1) assms(2)])
next
  fix c
  assume "\<not> (active (mSqrDistTree L) c \<and> active (mSqrDistTree R) c
              \<and> voxel (mSqrDistTree L) c = voxel (mSqrDistTree R) c)"
  then show "voxel (mPrimIndexTree (join L R)) c = voxel (mPrimIndexTree (join R L)) c"
    by (rule join_commute_partial[OF assms(1) assms(2)])
next
  fix c
  assume "active (mSqrDistTree L) c \<and> active (mSqrDistTree R) c
              \<and> voxel (mSqrDistTree L) c = voxel (mSqrDistTree R) c"
  then show "voxel (mPrimIndexTree (join L R)) c = voxel (mPrimIndexTree L) c"
    by (rule join_commute_partial[OF assms(1) assms(2)])
next
  show "sameResult (join (join L R) S) (join L (join R S))"
    by (rule join_assoc_partial[OF assms])
qed

lemma MeshVoxelizer_new_partialResult: "0 < d \<Longrightarrow> partialResult (MeshVoxelizer_new d)"
  by (simp add: partialResult_def MeshVoxelizer_new_def createTree_def)

lemma write_partialResult:
  assumes "partialResult st" and "- DistValueT_max < v" and "v \<le> 0"
  shows "partialResult (st\<lparr>mSqrDistTree := setValue (mSqrDistTree st) c v,
                            mPrimIndexTree := setValue (mPrimIndexTree st) c q\<rparr>)"
proof -
  have "0 < leafDim (mSqrDistTree st)"
    using assms(1) by (simp add: partialResult_def)
  moreover have "(active (setValue (mSqrDistTree st) c v) s \<longrightarrow>
            probeLeaf (setValue (mSqrDistTree st) c v) s
            \<and> - DistValueT_max < voxel (setValue (mSqrDistTree st) c v) s
            \<and> voxel (setValue (mSqrDistTree st) c v) s \<le> 0
            \<and> active (setValue (mPrimIndexTree st) c q) s)
         \<and> (\<not> active (setValue (mSqrDistTree st) c v) s \<longrightarrow>
            voxel (setValue (mSqrDistTree st) c v) s = DistValueT_max
            \<and> voxel (setValue (mPrimIndexTree st) c q) s = Int32_INVALID_IDX
            \<and> \<not> active (setValue (mPrimIndexTree st) c q) s)" for s
    using partialResultD[OF assms(1), of s] assms(2,3)
    by (auto simp: setValue_def touchLeaf_def probeLeaf_def)
  ultimately show ?thesis
    unfolding partialResult_def by (simp add: setValue_def touchLeaf_def)
qed

lemma nonnegDistD: "nonnegDist tri \<Longrightarrow> 0 \<le> tri a b c x"
  unfolding nonnegDist_def by blast

text \<open>\<open>evalVoxel\<close> keeps a voxelizer a partial result when the distance function is
  non-negative, so a voxelizer that starts empty holds a partial result throughout.\<close>

lemma evalVoxel_indices:
  assumes "evalVoxel P tri pointList polygonList c q st = Some (r, st')"
  shows "\<exists>i0 i1 i2 i3 v0 v1 v2 v3.
           getPolygon polygonList q = Some (i0, i1, i2, i3)
           \<and> getPoint pointList i0 = Some v0 \<and> getPoint pointList i1 = Some v1
           \<and> getPoint pointList i2 = Some v2
           \<and> (i3 \<noteq> INVALID_IDX \<longrightarrow> getPoint pointList i3 = Some v3)"
proof -
  from assms obtain i0 i1 i2 i3 where p: "getPolygon polygonList q = Some (i0, i1, i2, i3)"
    by (cases "getPolygon polygonList q") (auto simp: evalVoxel_def)
  from assms p obtain v0 where v0: "getPoint pointList i0 = Some v0"
    by (cases "getPoint pointList i0") (auto simp: evalVoxel_def)
  from assms p v0 obtain v1 where v1: "getPoint pointList i1 = Some v1"
    by (cases "getPoint pointList i1") (auto simp: evalVoxel_def)
  from assms p v0 v1 obtain v2 where v2: "getPoint pointList i2 = Some v2"
    by (cases "getPoint pointList i2") (auto simp: evalVoxel_def)
  from assms p v0 v1 v2 have "i3 \<noteq> INVALID_IDX \<longrightarrow> (\<exists>v3. getPoint pointList i3 = Some v3)"
    by (cases "getPoint pointList i3"; cases "i3 = INVALID_IDX") (auto simp: evalVoxel_def Let_def)
  with p v0 v1 v2 show ?thesis by blast
qed

lemma evalVoxel_partialResult:
  assumes "partialResult st" and "nonnegDist tri"
    and "evalVoxel P tri pointList polygonList c q st = Some (r, st')"
  shows "partialResult st'"
proof -
  from evalVoxel_indices[OF assms(3)] obtain i0 i1 i2 i3 v0 v1 v2 v3 where
    i: "getPolygon polygonList q = Some (i0, i1, i2, i3)"
      "getPoint pointList i0 = Some v0" "getPoint pointList i1 = Some v1"
      "getPoint pointList i2 = Some v2"
      "i3 \<noteq> INVALID_IDX \<longrightarrow> getPoint pointList i3 = Some v3"
    by blast
  define d2 where "d2 = (if i3 \<noteq> INVALID_IDX
                then min (tri v0 v1 v2 (voxelCenter c)) (tri v0 v3 v2 (voxelCenter c))
                else tri v0 v1 v2 (voxelCenter c))"
  define tmp where "tmp = DistValueT_of P d2"
  have "0 \<le> d2" using nonnegDistD[OF assms(2)] by (simp add: d2_def)
  then have d: "0 \<le> tmp" unfolding tmp_def by (rule DistValueT_of_nonneg)
  have s: "st' = (if tmp < \<bar>voxel (mSqrDistTree st) c\<bar>
                  then st\<lparr>mSqrDistTree := setValue (mSqrDistTree st) c (- tmp),
                          mPrimIndexTree := setValue (mPrimIndexTree st) c q\<rparr>
                  else st)"
    using assms(3) evalVoxel_unfold[OF i, of P tri c st]
    by (simp add: Let_def d2_def tmp_def split: if_splits)
  show ?thesis
  proof (cases "tmp < \<bar>voxel (mSqrDistTree st) c\<bar>")
    case False
    with s assms(1) show ?thesis by simp
  next
    case True
    have "\<bar>voxel (mSqrDistTree st) c\<bar> \<le> DistValueT_max"
      using partialResultD[OF assms(1), of c] DistValueT_max_pos
      by (cases "active (mSqrDistTree st) c") auto
    with True d have "- DistValueT_max < - tmp" "- tmp \<le> 0" by simp_all
    from write_partialResult[OF assms(1) this] s True show ?thesis by simp
  qed
qed

lemma partialExample_partialResult:
  assumes "\<forall>(c, v, q) \<in> set ws. - DistValueT_max < v \<and> v \<le> 0"
  shows "partialResult (partialExample ws)"
proof -
  have "partialResult st \<Longrightarrow> \<forall>(c, v, q) \<in> set ws. - DistValueT_max < v \<and> v \<le> 0 \<Longrightarrow>
        partialResult (fold (\<lambda>(c, v, q) st. st\<lparr>mSqrDistTree := setValue (mSqrDistTree st) c v,
                                 mPrimIndexTree := setValue (mPrimIndexTree st) c q\<rparr>) ws st)" for st
  proof (induction ws arbitrary: st)
    case Nil
    then show ?case by simp
  next
    case (Cons w ws)
    obtain c v q where w: "w = (c, v, q)" by (cases w) auto
    from Cons.prems(2) have "- DistValueT_max < v" "v \<le> 0" by (simp_all add: w)
    from write_partialResult[OF Cons.prems(1) this] Cons.prems(2) show ?case
      by (simp add: w Cons.IH)
  qed
  with assms show ?thesis
    unfolding partialExample_def by (simp add: MeshVoxelizer_new_partialResult)
qed

lemma partialExample_sel:
  "voxel (mSqrDistTree (partialExample [((0, 0, 0), - 1, 0), ((0, 0, 1), - (1 / 2), 0)])) (0, 0, 0) = - 1"
  "voxel (mSqrDistTree (partialExample [((0, 0, 0), - 1, 0), ((0, 0, 1), - (1 / 2), 0)])) (0, 0, 1) = - (1 / 2)"
  "voxel (mPrimIndexTree (partialExample [((0, 0, 0), - 1, 0), ((0, 0, 1), - (1 / 2), 0)])) (0, 0, 1) = 0"
  "active (mSqrDistTree (partialExample [((0, 0, 0), - 1, 0), ((0, 0, 1), - (1 / 2), 0)])) (0, 0, 0)"
  "active (mSqrDistTree (partialExample [((0, 0, 0), - 1, 0), ((0, 0, 1), - (1 / 2), 0)])) (0, 0, 1)"
  "voxel (mSqrDistTree (partialExample [((0, 0, 0), - (1 / 2), 1), ((0, 0, 1), - (1 / 2), 1)])) (0, 0, 0) = - (1 / 2)"
  "voxel (mSqrDistTree (partialExample [((0, 0, 0), - (1 / 2), 1), ((0, 0, 1), - (1 / 2), 1)])) (0, 0, 1) = - (1 / 2)"
  "voxel (mPrimIndexTree (partialExample [((0, 0, 0), - (1 / 2), 1), ((0, 0, 1), - (1 / 2), 1)])) (0, 0, 0) = 1"
  "active (mSqrDistTree (partialExample [((0, 0, 0), - (1 / 2), 1), ((0, 0, 1), - (1 / 2), 1)])) (0, 0, 0)"
  "active (mSqrDistTree (partialExample [((0, 0, 0), - (1 / 2), 1), ((0, 0, 1), - (1 / 2), 1)])) (0, 0, 1)"
  by (simp_all add: partialExample_def MeshVoxelizer_new_def createTree_def setValue_def)

text \<open>Three partial results: \<open>L\<close> holds \<open>- 1\<close> and \<open>- 1 / 2\<close> from primitive 0, \<open>R\<close> holds \<open>- 1 / 2\<close>
  twice from primitive 1, \<open>S\<close> holds \<open>- 1 / 4\<close> from primitive 2.  At \<open>(0, 0, 0)\<close> the join takes
  \<open>R\<close>'s distance and index; at \<open>(0, 0, 1)\<close> the distances are identical and \<open>L\<close>'s index stays.\<close>

theorem C5_join_witness:
  "partialResult (partialExample [((0, 0, 0), - 1, 0), ((0, 0, 1), - (1 / 2), 0)])
   \<and> partialResult (partialExample [((0, 0, 0), - (1 / 2), 1), ((0, 0, 1), - (1 / 2), 1)])
   \<and> partialResult (partialExample [((0, 0, 0), - (1 / 4), 2)])
   \<and> active (mSqrDistTree (partialExample [((0, 0, 0), - (1 / 2), 1), ((0, 0, 1), - (1 / 2), 1)])) (0, 0, 0)
   \<and> voxel (mSqrDistTree (join (partialExample [((0, 0, 0), - 1, 0), ((0, 0, 1), - (1 / 2), 0)])
        (partialExample [((0, 0, 0), - (1 / 2), 1), ((0, 0, 1), - (1 / 2), 1)]))) (0, 0, 0) = - (1 / 2)
   \<and> voxel (mPrimIndexTree (join (partialExample [((0, 0, 0), - 1, 0), ((0, 0, 1), - (1 / 2), 0)])
        (partialExample [((0, 0, 0), - (1 / 2), 1), ((0, 0, 1), - (1 / 2), 1)]))) (0, 0, 0) = 1
   \<and> voxel (mPrimIndexTree (join (partialExample [((0, 0, 0), - 1, 0), ((0, 0, 1), - (1 / 2), 0)])
        (partialExample [((0, 0, 0), - (1 / 2), 1), ((0, 0, 1), - (1 / 2), 1)]))) (0, 0, 1) = 0
   \<and> sameResult
        (join (join (partialExample [((0, 0, 0), - 1, 0), ((0, 0, 1), - (1 / 2), 0)])
                    (partialExample [((0, 0, 0), - (1 / 2), 1), ((0, 0, 1), - (1 / 2), 1)]))
              (partialExample [((0, 0, 0), - (1 / 4), 2)]))
        (join (partialExample [((0, 0, 0), - 1, 0), ((0, 0, 1), - (1 / 2), 0)])
              (join (partialExample [((0, 0, 0), - (1 / 2), 1), ((0, 0, 1), - (1 / 2), 1)])
                    (partialExample [((0, 0, 0), - (1 / 4), 2)])))"
proof -
  let ?L = "partialExample [((0, 0, 0), - 1, 0), ((0, 0, 1), - (1 / 2), 0)]"
  let ?R = "partialExample [((0, 0, 0), - (1 / 2), 1), ((0, 0, 1), - (1 / 2), 1)]"
  let ?S = "partialExample [((0, 0, 0), - (1 / 4), 2)]"
  have l: "partialResult ?L" and r: "partialResult ?R" and s: "partialResult ?S"
    using DistValueT_max_gt by (auto intro!: partialExample_partialResult)
  note t = C5_join[OF l r s]
  from t have a: "\<And>c. active (mSqrDistTree ?R) c \<longrightarrow>
            (if - voxel (mSqrDistTree ?R) c < \<bar>voxel (mSqrDistTree ?L) c\<bar>
             then voxel (mSqrDistTree (join ?L ?R)) c = voxel (mSqrDistTree ?R) c
                  \<and> voxel (mPrimIndexTree (join ?L ?R)) c = voxel (mPrimIndexTree ?R) c
             else voxel (mSqrDistTree (join ?L ?R)) c = voxel (mSqrDistTree ?L) c
                  \<and> voxel (mPrimIndexTree (join ?L ?R)) c = voxel (mPrimIndexTree ?L) c)"
    by blast
  from t have b: "sameResult (join (join ?L ?R) ?S) (join ?L (join ?R ?S))"
    by blast
  show ?thesis
    using a[of "(0, 0, 0)"] a[of "(0, 0, 1)"] b l r s
    by (simp add: partialExample_sel)
qed

subsection \<open>The narrow-band expander\<close>






subsection \<open>The voxelizer keeps a partial result\<close>

lemma voxInv_cong:
  "mSqrDistTree a = mSqrDistTree b \<Longrightarrow> mPrimIndexTree a = mPrimIndexTree b \<Longrightarrow>
   voxInv d a = voxInv d b"
  by (simp add: voxInv_def partialResult_def)

lemma evalVoxel_voxInv:
  assumes "voxInv d st" and "nonnegDist tri"
    and "evalVoxel P tri pointList polygonList c q st = Some (r, st')"
  shows "voxInv d st'"
proof -
  from assms(1) have p: "partialResult st" and l: "leafDim (mSqrDistTree st) = d"
    by (simp_all add: voxInv_def)
  from evalVoxel_indices[OF assms(3)] obtain i0 i1 i2 i3 v0 v1 v2 v3 where
    i: "getPolygon polygonList q = Some (i0, i1, i2, i3)"
      "getPoint pointList i0 = Some v0" "getPoint pointList i1 = Some v1"
      "getPoint pointList i2 = Some v2"
      "i3 \<noteq> INVALID_IDX \<longrightarrow> getPoint pointList i3 = Some v3"
    by blast
  from assms(3) evalVoxel_unfold[OF i, of P tri c st]
  have "leafDim (mSqrDistTree st') = leafDim (mSqrDistTree st)"
    by (auto simp: Let_def setValue_def touchLeaf_def split: if_splits)
  with evalVoxel_partialResult[OF p assms(2) assms(3)] l show ?thesis
    by (simp add: voxInv_def)
qed

lemma visitNeighbours_voxInv:
  assumes "nonnegDist tri"
  shows "voxInv d st \<Longrightarrow>
         visitNeighbours P tri pointList polygonList primIdx ns (pushed, st) = Some (pushed', st') \<Longrightarrow>
         voxInv d st'"
proof (induction ns arbitrary: pushed st)
  case Nil
  then show ?case by simp
next
  case (Cons n ns)
  show ?case
  proof (cases "primIdx \<noteq> getValue (mLastPrimTree st) n")
    case False
    with Cons.prems(2) have
      "visitNeighbours P tri pointList polygonList primIdx ns (pushed, st) = Some (pushed', st')"
      by simp
    from Cons.IH[OF Cons.prems(1) this] show ?thesis .
  next
    case True
    let ?st1 = "st\<lparr>mLastPrimTree := setValue (mLastPrimTree st) n primIdx\<rparr>"
    have i1: "voxInv d ?st1"
      using Cons.prems(1) voxInv_cong[of ?st1 st d] by simp
    from Cons.prems(2) True obtain r st2 where
      e: "evalVoxel P tri pointList polygonList n primIdx ?st1 = Some (r, st2)"
      and v: "visitNeighbours P tri pointList polygonList primIdx ns
                (if r then n # pushed else pushed, st2) = Some (pushed', st')"
      by (auto simp: Let_def split: bind_splits)
    from Cons.IH[OF evalVoxel_voxInv[OF i1 assms e] v] show ?thesis .
  qed
qed

lemma shortEdgeFlood_voxInv:
  assumes "nonnegDist tri"
  shows "voxInv d st \<Longrightarrow>
         shortEdgeFlood fuel P tri offs pointList polygonList primIdx coordList st = Some st' \<Longrightarrow>
         voxInv d st'"
proof (induction fuel arbitrary: coordList st)
  case 0
  then show ?case by (cases coordList) simp_all
next
  case (Suc fuel)
  show ?case
  proof (cases coordList)
    case Nil
    with Suc.prems show ?thesis by simp
  next
    case (Cons ijk cl0)
    let ?st1 = "st\<lparr>mIntersectionTree := setActiveState (mIntersectionTree st) ijk True\<rparr>"
    have i1: "voxInv d ?st1"
      using Suc.prems(1) voxInv_cong[of ?st1 st d] by simp
    from Suc.prems(2) Cons obtain cl st2 where
      v: "visitNeighbours P tri pointList polygonList primIdx (neighbourSites offs 26 ijk)
            (cl0, ?st1) = Some (cl, st2)"
      and f: "shortEdgeFlood fuel P tri offs pointList polygonList primIdx cl st2 = Some st'"
      by (auto simp: Let_def split: bind_splits)
    from Suc.IH[OF visitNeighbours_voxInv[OF assms i1 v] f] show ?thesis .
  qed
qed

lemma seedVoxel_voxInv:
  assumes "nonnegDist tri" and "voxInv d (snd cs)"
    and "seedVoxel P tri nearestCoord pointList polygonList primIdx p cs = Some cs'"
  shows "voxInv d (snd cs')"
proof -
  obtain cl st where c: "cs = (cl, st)" by (cases cs) auto
  from assms(3) c obtain r st2 where
    e: "evalVoxel P tri pointList polygonList (nearestCoord p) primIdx st = Some (r, st2)"
    and s: "cs' = (nearestCoord p # cl, st2)"
    by (auto simp: seedVoxel_def Let_def split: bind_splits)
  from evalVoxel_voxInv[OF _ assms(1) e] assms(2) c s show ?thesis by simp
qed

lemma shortEdgeBranch_voxInv:
  assumes t: "nonnegDist tri" and i: "voxInv d st"
    and b: "shortEdgeBranch fuel P tri nearestCoord offs pointList polygonList primIdx verts
              p0 p1 p2 st = Some st'"
  shows "voxInv d st'"
proof -
  obtain i0 i1 i2 i3 where v: "verts = (i0, i1, i2, i3)" by (cases verts) auto
  from b v obtain c1 c2 c3 c4 where
    s1: "seedVoxel P tri nearestCoord pointList polygonList primIdx p0 ([], st) = Some c1"
    and s2: "seedVoxel P tri nearestCoord pointList polygonList primIdx p1 c1 = Some c2"
    and s3: "seedVoxel P tri nearestCoord pointList polygonList primIdx p2 c2 = Some c3"
    and s4: "(if INVALID_IDX \<noteq> i3
              then getPoint pointList i3 \<bind>
                   (\<lambda>p3. seedVoxel P tri nearestCoord pointList polygonList primIdx p3 c3)
              else Some c3) = Some c4"
    and f: "shortEdgeFlood fuel P tri offs pointList polygonList primIdx (fst c4) (snd c4) = Some st'"
    by (auto simp: shortEdgeBranch_def split: bind_splits)
  have "voxInv d (snd c1)" using seedVoxel_voxInv[OF t _ s1] i by simp
  then have "voxInv d (snd c2)" by (rule seedVoxel_voxInv[OF t _ s2])
  then have i3: "voxInv d (snd c3)" by (rule seedVoxel_voxInv[OF t _ s3])
  have "voxInv d (snd c4)"
  proof (cases "INVALID_IDX \<noteq> i3")
    case False
    with s4 i3 show ?thesis by simp
  next
    case True
    with s4 obtain p3 where
      "seedVoxel P tri nearestCoord pointList polygonList primIdx p3 c3 = Some c4"
      by (auto split: bind_splits)
    from seedVoxel_voxInv[OF t i3 this] show ?thesis .
  qed
  from shortEdgeFlood_voxInv[OF t this f] show ?thesis .
qed

lemma longEdgeSites_voxInv:
  assumes "nonnegDist tri"
  shows "voxInv d st \<Longrightarrow>
         longEdgeSites P tri offs pointList polygonList primIdx sites (aux, st) = Some (aux', st') \<Longrightarrow>
         voxInv d st'"
proof (induction sites arbitrary: aux st)
  case Nil
  then show ?case by simp
next
  case (Cons ijk sites)
  show ?case
  proof (cases "isValueOn aux ijk")
    case False
    with Cons.prems(2) have
      "longEdgeSites P tri offs pointList polygonList primIdx sites (aux, st) = Some (aux', st')"
      by simp
    from Cons.IH[OF Cons.prems(1) this] show ?thesis .
  next
    case True
    let ?st1 = "st\<lparr>mIntersectionTree := setActiveState (mIntersectionTree st) ijk True\<rparr>"
    have i1: "voxInv d ?st1"
      using Cons.prems(1) voxInv_cong[of ?st1 st d] by simp
    from Cons.prems(2) True obtain pushed st2 aux2 where
      v: "visitNeighbours P tri pointList polygonList primIdx (neighbourSites offs 26 ijk)
            ([], ?st1) = Some (pushed, st2)"
      and f: "longEdgeSites P tri offs pointList polygonList primIdx sites (aux2, st2) = Some (aux', st')"
      by (auto simp: Let_def split: bind_splits)
    from Cons.IH[OF visitNeighbours_voxInv[OF assms i1 v] f] show ?thesis .
  qed
qed

lemma longEdgeLeafs_voxInv:
  assumes "nonnegDist tri"
  shows "voxInv d (snd as) \<Longrightarrow>
         longEdgeLeafs P tri offs pointList polygonList primIdx ls as = Some as' \<Longrightarrow>
         voxInv d (snd as')"
proof (induction ls arbitrary: as)
  case Nil
  then show ?case by simp
next
  case (Cons l ls)
  from Cons.prems(2) obtain as1 where
    s: "longEdgeSites P tri offs pointList polygonList primIdx (leafCoords (leafDim (fst as)) l) as
          = Some as1"
    and f: "longEdgeLeafs P tri offs pointList polygonList primIdx ls as1 = Some as'"
    by (auto split: bind_splits)
  have "voxInv d (snd as1)"
    using longEdgeSites_voxInv[OF assms, where d = d and st = "snd as" and aux = "fst as"
        and aux' = "fst as1" and st' = "snd as1" and offs = offs and pointList = pointList
        and polygonList = polygonList and primIdx = primIdx
        and sites = "leafCoords (leafDim (fst as)) l"] Cons.prems(1) s
    by simp
  from Cons.IH[OF this f] show ?case .
qed

lemma longEdgeFlood_voxInv:
  assumes "nonnegDist tri"
  shows "voxInv d (snd as) \<Longrightarrow>
         longEdgeFlood fuel P tri offs pointList polygonList primIdx as = Some as' \<Longrightarrow>
         voxInv d (snd as')"
proof (induction fuel arbitrary: as)
  case 0
  then show ?case
    by (subst (asm) longEdgeFlood.simps) (auto split: if_splits)
next
  case (Suc fuel)
  show ?case
  proof (cases "leafs (fst as) = []")
    case True
    with Suc.prems show ?thesis
      by (subst (asm) longEdgeFlood.simps) simp
  next
    case False
    with Suc.prems(2) obtain aux st where
      l: "longEdgeLeafs P tri offs pointList polygonList primIdx (leafs (fst as)) as = Some (aux, st)"
      and f: "longEdgeFlood fuel P tri offs pointList polygonList primIdx (pruneInactive aux, st)
                = Some as'"
      by (subst (asm) longEdgeFlood.simps) (auto split: bind_splits)
    from longEdgeLeafs_voxInv[OF assms Suc.prems(1) l] have "voxInv d (snd (pruneInactive aux, st))"
      by simp
    from Suc.IH[OF this f] show ?thesis .
  qed
qed

lemma voxelizePrimitive_indices:
  assumes "voxelizePrimitive fuel P tri nearestCoord offs pointList polygonList n as = Some as'"
  shows "\<exists>i0 i1 i2 i3 p0 p1 p2.
           getPolygon polygonList (int n) = Some (i0, i1, i2, i3)
           \<and> getPoint pointList i0 = Some p0 \<and> getPoint pointList i1 = Some p1
           \<and> getPoint pointList i2 = Some p2"
proof -
  from assms obtain i0 i1 i2 i3 where p: "getPolygon polygonList (int n) = Some (i0, i1, i2, i3)"
    by (cases "getPolygon polygonList (int n)") (auto simp: voxelizePrimitive_def)
  from assms p obtain v0 where v0: "getPoint pointList i0 = Some v0"
    by (cases "getPoint pointList i0") (auto simp: voxelizePrimitive_def)
  from assms p v0 obtain v1 where v1: "getPoint pointList i1 = Some v1"
    by (cases "getPoint pointList i1") (auto simp: voxelizePrimitive_def)
  from assms p v0 v1 obtain v2 where v2: "getPoint pointList i2 = Some v2"
    by (cases "getPoint pointList i2") (auto simp: voxelizePrimitive_def)
  from p v0 v1 v2 show ?thesis by blast
qed

lemma voxelizePrimitive_voxInv:
  assumes t: "nonnegDist tri" and i: "voxInv d (snd as)"
    and v: "voxelizePrimitive fuel P tri nearestCoord offs pointList polygonList n as = Some as'"
  shows "voxInv d (snd as')"
proof -
  from voxelizePrimitive_indices[OF v] obtain i0 i1 i2 i3 p0 p1 p2 where
    g: "getPolygon polygonList (int n) = Some (i0, i1, i2, i3)"
      "getPoint pointList i0 = Some p0" "getPoint pointList i1 = Some p1"
      "getPoint pointList i2 = Some p2"
    by blast
  from v g have
    b: "(if shortEdge p0 p1 p2
         then shortEdgeBranch fuel P tri nearestCoord offs pointList polygonList (int n)
                (i0, i1, i2, i3) p0 p1 p2 (snd as) \<bind> (\<lambda>st. Some (fst as, st))
         else longEdgeBranch fuel P tri nearestCoord offs pointList polygonList (int n) p0 as)
        = Some as'"
    by (simp add: voxelizePrimitive_def Let_def)
  show ?thesis
  proof (cases "shortEdge p0 p1 p2")
    case True
    with b obtain st where
      "shortEdgeBranch fuel P tri nearestCoord offs pointList polygonList (int n)
         (i0, i1, i2, i3) p0 p1 p2 (snd as) = Some st" and "as' = (fst as, st)"
      by (auto split: bind_splits)
    with shortEdgeBranch_voxInv[OF t i] show ?thesis by simp
  next
    case False
    obtain aux st where a: "as = (aux, st)" by (cases as) auto
    let ?ijk = "nearestCoord p0"
    from b False a obtain r st1 where
      e: "evalVoxel P tri pointList polygonList ?ijk (int n) st = Some (r, st1)"
      and f: "longEdgeFlood fuel P tri offs pointList polygonList (int n)
                (setActiveState aux ?ijk True,
                 st1\<lparr>mLastPrimTree := setValue (mLastPrimTree st1) ?ijk (int n)\<rparr>) = Some as'"
      by (auto simp: longEdgeBranch_def Let_def split: bind_splits)
    let ?st2 = "st1\<lparr>mLastPrimTree := setValue (mLastPrimTree st1) ?ijk (int n)\<rparr>"
    from evalVoxel_voxInv[OF _ t e] i a have "voxInv d st1" by simp
    then have "voxInv d ?st2"
      using voxInv_cong[of ?st2 st1 d] by simp
    then have "voxInv d (snd (setActiveState aux ?ijk True, ?st2))" by simp
    from longEdgeFlood_voxInv[OF t this f] show ?thesis .
  qed
qed

lemma MeshVoxelizer_call_voxInv:
  assumes "nonnegDist tri"
  shows "voxInv d (snd as) \<Longrightarrow>
         MeshVoxelizer_call fuel P tri nearestCoord offs pointList polygonList ns as = Some as' \<Longrightarrow>
         voxInv d (snd as')"
proof (induction ns arbitrary: as)
  case Nil
  then show ?case by simp
next
  case (Cons n ns)
  from Cons.prems(2) obtain as1 where
    v: "voxelizePrimitive fuel P tri nearestCoord offs pointList polygonList n as = Some as1"
    and c: "MeshVoxelizer_call fuel P tri nearestCoord offs pointList polygonList ns as1 = Some as'"
    by (auto split: bind_splits)
  from Cons.IH[OF voxelizePrimitive_voxInv[OF assms Cons.prems(1) v] c] show ?case .
qed

lemma MeshVoxelizer_runSerial_voxInv:
  assumes "nonnegDist tri" and "0 < d"
    and "MeshVoxelizer_runSerial fuel P tri nearestCoord offs pointList polygonList
           (MeshVoxelizer_new d) = Some v"
  shows "voxInv d v"
proof -
  have i: "voxInv d (MeshVoxelizer_new d)"
    using MeshVoxelizer_new_partialResult[OF assms(2)]
    by (simp add: voxInv_def) (simp add: MeshVoxelizer_new_def createTree_def)
  from assms(3) obtain as' where
    c: "MeshVoxelizer_call fuel P tri nearestCoord offs pointList polygonList
          [0..<length polygonList]
          (createTree (leafDim (mIntersectionTree (MeshVoxelizer_new d))) False,
           MeshVoxelizer_new d) = Some as'"
    and v: "v = snd as'"
    by (auto simp: MeshVoxelizer_runSerial_def)
  from MeshVoxelizer_call_voxInv[OF assms(1) _ c] i v show ?thesis by simp
qed

subsection \<open>The square-root step in unsigned mode\<close>

lemma fold_invariant:
  assumes "\<And>x s. P s \<Longrightarrow> P (f x s)" and "P s"
  shows "P (fold f xs s)"
  using assms(2) by (induction xs arbitrary: s) (simp_all add: assms(1))

lemma foldOption_invariant:
  assumes "\<And>x s s'. P s \<Longrightarrow> f x s = Some s' \<Longrightarrow> P s'"
  shows "P s \<Longrightarrow> foldOption f xs s = Some s' \<Longrightarrow> P s'"
proof (induction xs arbitrary: s)
  case Nil
  then show ?case by simp
next
  case (Cons x xs)
  from Cons.prems(2) obtain s1 where f: "f x s = Some s1" and r: "foldOption f xs s1 = Some s'"
    by (cases "f x s") auto
  from Cons.IH[OF assms[OF Cons.prems(1) f] r] show ?case .
qed






lemma voxInv_activeInLeaf: "voxInv d v \<Longrightarrow> activeInLeaf (mSqrDistTree v) \<and> leafDim (mSqrDistTree v) = d"
  unfolding voxInv_def partialResult_def activeInLeaf_def by blast

text \<open>
  C9.  The narrow-band dilation of the driver (mask construction, leaf preallocation and the
  dilate-and-expand loop) runs exactly when the interior or the exterior world-space band
  width is strictly greater than twice the voxel size; when both are at most twice the voxel
  size the stage returns the distance tree and the index tree exactly as it received them.
\<close>

theorem C9_narrowBandDilation:
  "(inBandWidth \<le> 2 * voxelSize \<and> exBandWidth \<le> 2 * voxelSize \<longrightarrow>
      narrowBandDilation fuel dilate P tri offs pointList polygonList exBandWidth inBandWidth
        voxelSize (D, I) = Some (D, I))
   \<and> (inBandWidth > 2 * voxelSize \<or> exBandWidth > 2 * voxelSize \<longrightarrow>
      narrowBandDilation fuel dilate P tri offs pointList polygonList exBandWidth inBandWidth
        voxelSize (D, I) =
      preallocate voxelSize exBandWidth inBandWidth D \<bind>
        (\<lambda>D'. expandLoop fuel dilate P tri offs pointList polygonList exBandWidth inBandWidth
                voxelSize
                (topologyUnion (createTree (leafDim D) False) D, D', topologyUnion I D')))"
  by (auto simp: narrowBandDilation_def Let_def mult.commute)

subsection \<open>A run of the voxelizer that returns\<close>

lemma neverNearD: "neverNear tri \<Longrightarrow> \<not> tri a b c x < lit_0_86602540378443861"
  unfolding neverNear_def by blast

lemma evalVoxel_far:
  assumes "neverNear tri"
    and "getPolygon polygonList q = Some (i0, i1, i2, i3)"
    and "getPoint pointList i0 = Some v0"
    and "getPoint pointList i1 = Some v1"
    and "getPoint pointList i2 = Some v2"
    and "i3 \<noteq> INVALID_IDX \<longrightarrow> getPoint pointList i3 = Some v3"
  shows "\<exists>st'. evalVoxel P tri pointList polygonList c q st = Some (False, st')"
proof -
  have "\<not> (if i3 \<noteq> INVALID_IDX
            then min (tri v0 v1 v2 (voxelCenter c)) (tri v0 v3 v2 (voxelCenter c))
            else tri v0 v1 v2 (voxelCenter c)) < lit_0_86602540378443861"
    using neverNearD[OF assms(1), of v0 v1 v2 "voxelCenter c"]
      neverNearD[OF assms(1), of v0 v3 v2 "voxelCenter c"]
    by (simp add: min_def)
  with evalVoxel_unfold[OF assms(2-6), of P tri c st] show ?thesis
    by (simp add: Let_def)
qed

lemma visitNeighbours_far:
  assumes "neverNear tri"
    and "getPolygon polygonList q = Some (i0, i1, i2, i3)"
    and "getPoint pointList i0 = Some v0"
    and "getPoint pointList i1 = Some v1"
    and "getPoint pointList i2 = Some v2"
    and "i3 \<noteq> INVALID_IDX \<longrightarrow> getPoint pointList i3 = Some v3"
  shows "\<exists>st'. visitNeighbours P tri pointList polygonList q ns (pushed, st) = Some (pushed, st')"
proof (induction ns arbitrary: st)
  case Nil
  then show ?case by simp
next
  case (Cons n ns)
  show ?case
  proof (cases "q \<noteq> getValue (mLastPrimTree st) n")
    case False
    with Cons.IH[of st] show ?thesis by simp
  next
    case True
    from evalVoxel_far[OF assms, of P n "st\<lparr>mLastPrimTree := setValue (mLastPrimTree st) n q\<rparr>"]
    obtain st1 where
      "evalVoxel P tri pointList polygonList n q
         (st\<lparr>mLastPrimTree := setValue (mLastPrimTree st) n q\<rparr>) = Some (False, st1)"
      by blast
    with True Cons.IH[of st1] show ?thesis by (simp add: Let_def)
  qed
qed

lemma shortEdgeFlood_far:
  assumes "neverNear tri"
    and "getPolygon polygonList q = Some (i0, i1, i2, i3)"
    and "getPoint pointList i0 = Some v0"
    and "getPoint pointList i1 = Some v1"
    and "getPoint pointList i2 = Some v2"
    and "i3 \<noteq> INVALID_IDX \<longrightarrow> getPoint pointList i3 = Some v3"
  shows "length coordList \<le> fuel \<Longrightarrow>
         \<exists>st'. shortEdgeFlood fuel P tri offs pointList polygonList q coordList st = Some st'"
proof (induction coordList arbitrary: fuel st)
  case Nil
  then show ?case by simp
next
  case (Cons ijk coordList)
  then obtain f where f: "fuel = Suc f" and l: "length coordList \<le> f"
    by (cases fuel) auto
  from visitNeighbours_far[OF assms, of P "neighbourSites offs 26 ijk" coordList
      "st\<lparr>mIntersectionTree := setActiveState (mIntersectionTree st) ijk True\<rparr>"]
  obtain st1 where
    "visitNeighbours P tri pointList polygonList q (neighbourSites offs 26 ijk)
       (coordList, st\<lparr>mIntersectionTree := setActiveState (mIntersectionTree st) ijk True\<rparr>)
     = Some (coordList, st1)"
    by blast
  with Cons.IH[OF l, of st1] f show ?case by (simp add: Let_def)
qed

lemma example_runSerial:
  "\<exists>vx. MeshVoxelizer_runSerial 3 DoubleT unitDistSqr roundCoord COORD_OFFSETS_example examplePoints
          [(0, 3, 4, INVALID_IDX)] (MeshVoxelizer_new 2) = Some vx"
proof -
  let ?pl = "[(0, 3, 4, INVALID_IDX)]"
  have n: "neverNear unitDistSqr"
    by (simp add: neverNear_def unitDistSqr_def lit_0_86602540378443861_def)
  have g: "getPolygon ?pl 0 = Some (0, 3, 4, INVALID_IDX)"
    by (simp add: getPolygon_def)
  have i: "INVALID_IDX \<noteq> INVALID_IDX \<longrightarrow> getPoint examplePoints INVALID_IDX = Some (0, 0, 0)"
    by simp
  note e = evalVoxel_far[OF n g example_mesh_sel(4) example_mesh_sel(7) example_mesh_sel(8) i]
  let ?st0 = "MeshVoxelizer_new 2"
  from e[of DoubleT "roundCoord (0, 0, 0)" ?st0] obtain st1 where
    s1: "evalVoxel DoubleT unitDistSqr examplePoints ?pl (roundCoord (0, 0, 0)) 0 ?st0 = Some (False, st1)"
    by blast
  from e[of DoubleT "roundCoord (1, 0, 0)" st1] obtain st2 where
    s2: "evalVoxel DoubleT unitDistSqr examplePoints ?pl (roundCoord (1, 0, 0)) 0 st1 = Some (False, st2)"
    by blast
  from e[of DoubleT "roundCoord (0, 1, 0)" st2] obtain st3 where
    s3: "evalVoxel DoubleT unitDistSqr examplePoints ?pl (roundCoord (0, 1, 0)) 0 st2 = Some (False, st3)"
    by blast
  from shortEdgeFlood_far[OF n g example_mesh_sel(4) example_mesh_sel(7) example_mesh_sel(8) i,
      of "[roundCoord (0, 1, 0), roundCoord (1, 0, 0), roundCoord (0, 0, 0)]" 3
         DoubleT COORD_OFFSETS_example st3]
  obtain st4 where
    f: "shortEdgeFlood 3 DoubleT unitDistSqr COORD_OFFSETS_example examplePoints ?pl 0
          [roundCoord (0, 1, 0), roundCoord (1, 0, 0), roundCoord (0, 0, 0)] st3 = Some st4"
    by auto
  have "shortEdge (0, 0, 0) (1, 0, 0) (0, 1, 0)"
    by (simp add: shortEdge_def)
  then have "voxelizePrimitive 3 DoubleT unitDistSqr roundCoord COORD_OFFSETS_example examplePoints ?pl 0
          (createTree 2 False, ?st0) = Some (createTree 2 False, st4)"
    using g s1 s2 s3 f
    by (simp add: voxelizePrimitive_def example_mesh_sel shortEdgeBranch_def seedVoxel_def)
  then show ?thesis
    by (simp add: MeshVoxelizer_runSerial_def MeshVoxelizer_new_def createTree_def)
qed

text \<open>With a voxel size of 1 and both widths 3/2 the stage hands the example trees back;
  with both widths 3 it is the preallocation followed by the expansion loop.\<close>

theorem C9_narrowBandDilation_witness:
  "(3 / 2 :: real) \<le> 2 * 1
   \<and> narrowBandDilation 5 (\<lambda>M. M) DoubleT cornerDistSqr COORD_OFFSETS_example examplePoints
        examplePolygons (3 / 2) (3 / 2) 1 (expandExampleD, expandExampleI)
      = Some (expandExampleD, expandExampleI)
   \<and> (3 :: real) > 2 * 1
   \<and> narrowBandDilation 5 (\<lambda>M. M) DoubleT cornerDistSqr COORD_OFFSETS_example examplePoints
        examplePolygons 3 3 1 (expandExampleD, expandExampleI)
      = preallocate 1 3 3 expandExampleD \<bind>
          (\<lambda>D'. expandLoop 5 (\<lambda>M. M) DoubleT cornerDistSqr COORD_OFFSETS_example examplePoints
                  examplePolygons 3 3 1
                  (topologyUnion (createTree (leafDim expandExampleD) False) expandExampleD, D',
                   topologyUnion expandExampleI D'))"
proof -
  have a: "(3 / 2 :: real) \<le> 2 * 1 \<and> (3 / 2 :: real) \<le> 2 * 1" by simp
  have b: "(3 :: real) > 2 * 1 \<or> (3 :: real) > 2 * 1" by simp
  note t1 = C9_narrowBandDilation[where inBandWidth = "3 / 2" and exBandWidth = "3 / 2"
      and voxelSize = 1 and fuel = 5 and dilate = "\<lambda>M. M" and tri = cornerDistSqr
      and offs = COORD_OFFSETS_example and pointList = examplePoints
      and polygonList = examplePolygons and D = expandExampleD and I = expandExampleI,
      THEN conjunct1, rule_format, OF a]
  note t2 = C9_narrowBandDilation[where inBandWidth = 3 and exBandWidth = 3
      and voxelSize = 1 and fuel = 5 and dilate = "\<lambda>M. M" and tri = cornerDistSqr
      and offs = COORD_OFFSETS_example and pointList = examplePoints
      and polygonList = examplePolygons and D = expandExampleD and I = expandExampleI,
      THEN conjunct2, rule_format, OF b]
  from t1 t2 show ?thesis by simp
qed

subsection \<open>The contour tracer at one site\<close>

declare backtrace.simps [simp del]

lemma walked_iff:
  "walked M i j lk k (a, b, n) =
     (a = i \<and> b = j \<and> lk \<le> n \<and> n \<le> k \<and> (\<forall>m. n \<le> m \<and> m \<le> k \<longrightarrow> \<not> active M (i, j, m)))"
  by (auto simp: walked_def list_all_iff isValueOn_def)

lemma walked_empty: "k < lk \<Longrightarrow> \<not> walked M i j lk k c"
  by (cases c) (simp add: walked_iff)

lemma walked_stop: "active M (i, j, k) \<Longrightarrow> \<not> walked M i j lk k c"
  by (cases c) (auto simp: walked_iff)

lemma walked_step:
  assumes "\<not> active M (i, j, k)" and "lk \<le> k"
  shows "walked M i j lk k c = (c = (i, j, k) \<or> walked M i j lk (k - 1) c)"
proof (cases c)
  case (fields a b n)
  have e: "(\<forall>m. n \<le> m \<and> m \<le> k \<longrightarrow> \<not> active M (i, j, m))
        = (\<forall>m. n \<le> m \<and> m \<le> k - 1 \<longrightarrow> \<not> active M (i, j, m))" (is "?L = ?R")
  proof
    assume ?L then show ?R by simp
  next
    assume r: ?R
    show ?L
    proof (intro allI impI)
      fix m assume m: "n \<le> m \<and> m \<le> k"
      show "\<not> active M (i, j, m)"
      proof (cases "m = k")
        case True with assms(1) show ?thesis by simp
      next
        case False with m have "n \<le> m \<and> m \<le> k - 1" by simp
        with r show ?thesis by blast
      qed
    qed
  qed
  show ?thesis
    unfolding fields walked_iff e using assms(2) by auto
qed


lemma backtrace_Some:
  "backtrace M i j lk k D = Some D' \<Longrightarrow>
     active D' = active D \<and> leafs D' = leafs D \<and> leafDim D' = leafDim D
     \<and> background D' = background D
     \<and> (\<forall>c. voxel D' c = (if walked M i j lk k c then \<bar>voxel D c\<bar> else voxel D c))"
proof (induction M i j lk k D rule: backtrace.induct)
  case (1 M i j lk k D)
  show ?case
  proof (cases "lk \<le> k")
    case False
    with "1.prems" show ?thesis
      by (subst (asm) backtrace.simps) (simp add: walked_empty)
  next
    case lk: True
    show ?thesis
    proof (cases "active M (i, j, k)")
      case True
      with lk "1.prems" show ?thesis
        by (subst (asm) backtrace.simps) (simp add: walked_stop isValueOn_def)
    next
      case off: False
      have noff: "\<not> isValueOn M (i, j, k)" using off by (simp add: isValueOn_def)
      show ?thesis
      proof (cases "voxel D (i, j, k) < 0")
        case neg: True
        let ?D1 = "iter_setValue D (i, j, k) (- voxel D (i, j, k))"
        have negv: "getValue D (i, j, k) < 0" using neg by (simp add: getValue_def)
        from "1.prems" lk noff negv have
          w: "refWrite D (i, j, k) (- getValue D (i, j, k)) = Some ?D1"
          and r: "backtrace M i j lk (k - 1) ?D1 = Some D'"
          by (subst (asm) backtrace.simps,
              auto simp: Let_def refWrite_def getValue_def split: if_splits option.splits)+
        from "1.IH"(1)[OF lk noff refl negv w r]
        have s: "active D' = active ?D1" "leafs D' = leafs ?D1" "leafDim D' = leafDim ?D1"
            "background D' = background ?D1"
          and v: "\<And>c. voxel D' c = (if walked M i j lk (k - 1) c then \<bar>voxel ?D1 c\<bar> else voxel ?D1 c)"
          by (simp_all del: split_paired_All)
        have nk: "\<not> walked M i j lk (k - 1) (i, j, k)"
          by (simp add: walked_iff)
        have "voxel D' c = (if walked M i j lk k c then \<bar>voxel D c\<bar> else voxel D c)" for c
          using nk neg by (auto simp: v walked_step[OF off lk] iter_setValue_def)
        with s show ?thesis
          by (simp add: iter_setValue_def)
      next
        case pos: False
        have posv: "\<not> getValue D (i, j, k) < 0" using pos by (simp add: getValue_def)
        from "1.prems" lk noff posv have r: "backtrace M i j lk (k - 1) D = Some D'"
          by (subst (asm) backtrace.simps) (simp add: Let_def)
        from "1.IH"(2)[OF lk noff refl posv r]
        have s: "active D' = active D" "leafs D' = leafs D" "leafDim D' = leafDim D"
            "background D' = background D"
          and v: "\<And>c. voxel D' c = (if walked M i j lk (k - 1) c then \<bar>voxel D c\<bar> else voxel D c)"
          by (simp_all del: split_paired_All)
        have "voxel D' c = (if walked M i j lk k c then \<bar>voxel D c\<bar> else voxel D c)" for c
          using pos by (auto simp: v walked_step[OF off lk])
        with s show ?thesis
          by simp
      qed
    qed
  qed
qed

lemma backtrace_returns:
  "(\<forall>c. walked M i j lk k c \<and> voxel D c < 0 \<longrightarrow> probeLeaf D c) \<Longrightarrow>
     \<exists>D'. backtrace M i j lk k D = Some D'"
proof (induction M i j lk k D rule: backtrace.induct)
  case (1 M i j lk k D)
  show ?case
  proof (cases "lk \<le> k")
    case False
    then show ?thesis
      by (subst backtrace.simps) simp
  next
    case lk: True
    show ?thesis
    proof (cases "active M (i, j, k)")
      case True
      with lk show ?thesis
        by (subst backtrace.simps) (simp add: isValueOn_def)
    next
      case off: False
      have noff: "\<not> isValueOn M (i, j, k)" using off by (simp add: isValueOn_def)
      have wk: "walked M i j lk k (i, j, k)"
        by (simp add: walked_step[OF off lk])
      show ?thesis
      proof (cases "voxel D (i, j, k) < 0")
        case neg: True
        let ?D1 = "iter_setValue D (i, j, k) (- voxel D (i, j, k))"
        have negv: "getValue D (i, j, k) < 0" using neg by (simp add: getValue_def)
        from "1.prems" wk neg have pl: "probeLeaf D (i, j, k)" by blast
        have w: "refWrite D (i, j, k) (- getValue D (i, j, k)) = Some ?D1"
          using pl by (simp add: refWrite_def getValue_def)
        have nk: "\<not> walked M i j lk (k - 1) (i, j, k)"
          by (simp add: walked_iff)
        have pl1: "\<forall>c. walked M i j lk (k - 1) c \<and> voxel ?D1 c < 0 \<longrightarrow> probeLeaf ?D1 c"
        proof (intro allI impI)
          fix c assume h: "walked M i j lk (k - 1) c \<and> voxel ?D1 c < 0"
          with nk have ne: "c \<noteq> (i, j, k)" by blast
          with h have "walked M i j lk k c \<and> voxel D c < 0"
            by (simp add: walked_step[OF off lk] iter_setValue_def)
          with "1.prems" have "probeLeaf D c" by blast
          then show "probeLeaf ?D1 c" by (simp add: probeLeaf_def iter_setValue_def)
        qed
        from "1.IH"(1)[OF lk noff refl negv w pl1]
        obtain D' where r: "backtrace M i j lk (k - 1) ?D1 = Some D'" by blast
        have "backtrace M i j lk k D = Some D'"
          using lk noff negv w r by (subst backtrace.simps) (simp add: Let_def)
        then show ?thesis by blast
      next
        case pos: False
        have posv: "\<not> getValue D (i, j, k) < 0" using pos by (simp add: getValue_def)
        have pl1: "\<forall>c. walked M i j lk (k - 1) c \<and> voxel D c < 0 \<longrightarrow> probeLeaf D c"
          using "1.prems" by (simp add: walked_step[OF off lk])
        from "1.IH"(2)[OF lk noff refl posv pl1]
        obtain D' where r: "backtrace M i j lk (k - 1) D = Some D'" by blast
        have "backtrace M i j lk k D = Some D'"
          using lk noff posv r by (subst backtrace.simps) (simp add: Let_def)
        then show ?thesis by blast
      qed
    qed
  qed
qed

lemma scanVoxel_backtrace:
  assumes on: "isValueOn D (i, j, k)" and off: "\<not> isValueOn M (i, j, k)"
    and out: "\<not> lastVoxelWasOut s" and lk: "last_k s = Some lk"
    and probe: "probeNeighbours offs D (i, j, k)"
    and leaf: "probeLeaf D (i, j, k)"
    and leaves: "\<forall>c. walked M i j lk (k - 1) c \<and> voxel D c < 0 \<longrightarrow> probeLeaf D c"
  shows "\<exists>D'. scanVoxel offs M (i, j, k) (s, D)
                = Some (s\<lparr>lastVoxelWasOut := True, last_k := Some k\<rparr>, D')
           \<and> active D' = active D \<and> leafs D' = leafs D \<and> leafDim D' = leafDim D
           \<and> (\<forall>c. voxel D' c = (if c = (i, j, k) then - voxel D c
                                 else if walked M i j lk (k - 1) c then \<bar>voxel D c\<bar>
                                 else voxel D c))"
proof -
  let ?D1 = "iter_setValue D (i, j, k) (- voxel D (i, j, k))"
  have w: "refWrite D (i, j, k) (- getValue D (i, j, k)) = Some ?D1"
    using leaf by (simp add: refWrite_def getValue_def)
  have nk: "\<not> walked M i j lk (k - 1) (i, j, k)"
    by (simp add: walked_iff)
  have "\<forall>c. walked M i j lk (k - 1) c \<and> voxel ?D1 c < 0 \<longrightarrow> probeLeaf ?D1 c"
  proof (intro allI impI)
    fix c assume h: "walked M i j lk (k - 1) c \<and> voxel ?D1 c < 0"
    with nk have "c \<noteq> (i, j, k)" by blast
    with h have "walked M i j lk (k - 1) c \<and> voxel D c < 0" by (simp add: iter_setValue_def)
    with leaves have "probeLeaf D c" by blast
    then show "probeLeaf ?D1 c" by (simp add: probeLeaf_def iter_setValue_def)
  qed
  from backtrace_returns[OF this]
  obtain D' where b: "backtrace M i j lk (k - 1) ?D1 = Some D'" by blast
  from backtrace_Some[OF b] have
    a: "active D' = active ?D1" "leafs D' = leafs ?D1" "leafDim D' = leafDim ?D1"
    and v: "\<And>c. voxel D' c = (if walked M i j lk (k - 1) c then \<bar>voxel ?D1 c\<bar> else voxel ?D1 c)"
    by (simp_all del: split_paired_All)
  have "scanVoxel offs M (i, j, k) (s, D)
          = Some (s\<lparr>lastVoxelWasOut := True, last_k := Some k\<rparr>, D')"
    using on off out lk probe w b by (simp add: scanVoxel_def)
  moreover have "active D' = active D" "leafs D' = leafs D" "leafDim D' = leafDim D"
    using a by (simp_all add: iter_setValue_def)
  moreover have "voxel D' c = (if c = (i, j, k) then - voxel D c
                               else if walked M i j lk (k - 1) c then \<bar>voxel D c\<bar>
                               else voxel D c)" for c
    using nk by (auto simp: v iter_setValue_def)
  ultimately show ?thesis by blast
qed







subsection \<open>The walked sites during one scan of a slice\<close>

text \<open>The scan of a slice writes in the row it is in, at the site it visits and behind it.
  While the flag is cleared nothing has been written between \<open>last_k\<close> and the site, so the
  sites that a walk passes hold the values that the slice had when the scan began.  On the
  output of the voxelizer these sites are as the visit of a site (C7) takes them to be.\<close>

lemma scanInvI:
  assumes "active D = active D0" and "leafs D = leafs D0" and "leafDim D = leafDim D0"
    and "\<And>a b n. a \<noteq> i \<or> j < b \<or> (b = j \<and> k \<le> n) \<Longrightarrow> voxel D (a, b, n) = voxel D0 (a, b, n)"
    and "\<not> lastVoxelWasOut s \<Longrightarrow>
           \<exists>lk. last_k s = Some lk \<and> (\<forall>c. walked M i j lk (k - 1) c \<longrightarrow> voxel D c = voxel D0 c)"
  shows "scanInv M D0 i j k (s, D)"
  using assms unfolding scanInv_def by (simp del: split_paired_All split_paired_Ex)

lemma scanInvD:
  assumes "scanInv M D0 i j k (s, D)"
  shows "active D = active D0" and "leafs D = leafs D0" and "leafDim D = leafDim D0"
    and "\<And>a b n. a \<noteq> i \<or> j < b \<or> (b = j \<and> k \<le> n) \<Longrightarrow> voxel D (a, b, n) = voxel D0 (a, b, n)"
    and "\<not> lastVoxelWasOut s \<Longrightarrow>
           \<exists>lk. last_k s = Some lk \<and> (\<forall>c. walked M i j lk (k - 1) c \<longrightarrow> voxel D c = voxel D0 c)"
  using assms unfolding scanInv_def by (simp_all del: split_paired_All split_paired_Ex)

lemma scanInv_start:
  "scanInv M D0 i j k (\<lparr>lastVoxelWasOut = True, last_k = None\<rparr>, D0)"
  by (rule scanInvI) simp_all

lemma walked_ahead:
  assumes "walked M i j lk (k + s2 - 1) (a, b, n)" and "0 \<le> s2"
  shows "a = i \<and> b = j \<and> lk \<le> n \<and> (k \<le> n \<or> walked M i j lk (k - 1) (a, b, n))"
proof -
  from assms(1) have r: "a = i" "b = j" "lk \<le> n" "n \<le> k + s2 - 1"
    and f: "\<And>m. n \<le> m \<and> m \<le> k + s2 - 1 \<Longrightarrow> \<not> active M (i, j, m)"
    by (simp_all add: walked_iff)
  have "walked M i j lk (k - 1) (a, b, n)" if "\<not> k \<le> n"
  proof -
    have "\<not> active M (i, j, m)" if "n \<le> m \<and> m \<le> k - 1" for m
      using that assms(2) by (intro f) simp
    with r that show ?thesis by (simp add: walked_iff)
  qed
  with r show ?thesis by blast
qed

text \<open>A visit keeps the invariant, whatever positive step the loop takes next.\<close>

lemma scanVoxel_scanInv:
  assumes inv: "scanInv M D0 i j k (s, D)"
    and r: "scanVoxel offs M (i, j, k) (s, D) = Some (s', D')"
    and s2: "0 < s2"
  shows "scanInv M D0 i j (k + s2) (s', D')"
proof -
  note d = scanInvD[OF inv]
  have ahead: "voxel D (a, b, n) = voxel D0 (a, b, n)"
    if "a \<noteq> i \<or> j < b \<or> (b = j \<and> k + s2 \<le> n)" for a b n
    using that s2 by (intro d(4)) auto
  have keep: "\<forall>c. walked M i j lk' (k + s2 - 1) c \<longrightarrow> voxel D c = voxel D0 c"
    if "k \<le> lk' \<or> (\<not> lastVoxelWasOut s \<and> (\<exists>lk. last_k s = Some lk \<and> min k lk \<le> lk'))" for lk'
  proof (intro allI impI)
    fix c assume w: "walked M i j lk' (k + s2 - 1) c"
    obtain a b n where c: "c = (a, b, n)" by (cases c) auto
    have "0 \<le> s2" using s2 by simp
    from walked_ahead[OF w[unfolded c] this]
    have p: "a = i" "b = j" "lk' \<le> n" "k \<le> n \<or> walked M i j lk' (k - 1) (a, b, n)" by blast+
    show "voxel D c = voxel D0 c"
    proof (cases "k \<le> n")
      case True
      with p d(4)[of a b n] show ?thesis by (simp add: c)
    next
      case False
      with p have wk: "walked M i j lk' (k - 1) (a, b, n)" by blast
      from False p(3) that obtain lk where f: "\<not> lastVoxelWasOut s" and l: "last_k s = Some lk"
        and m: "min k lk \<le> lk'" by auto
      from m False p(3) have "lk \<le> n" by (simp add: min_def split: if_splits)
      with wk have "walked M i j lk (k - 1) (a, b, n)" by (simp add: walked_iff)
      with d(5)[OF f] l show ?thesis by (simp add: c)
    qed
  qed
  show ?thesis
  proof (cases "isValueOn D (i, j, k)")
    case False
    with r have e: "s' = s" "D' = D" by (simp_all add: scanVoxel_def)
    show ?thesis
      unfolding e
    proof (rule scanInvI)
      assume f: "\<not> lastVoxelWasOut s"
      from d(5)[OF f] obtain lk where l: "last_k s = Some lk" by blast
      with f keep[of lk] show "\<exists>lk. last_k s = Some lk
          \<and> (\<forall>c. walked M i j lk (k + s2 - 1) c \<longrightarrow> voxel D c = voxel D0 c)"
        by auto
    qed (simp_all add: d(1-3) ahead)
  next
    case on: True
    show ?thesis
    proof (cases "isValueOn M (i, j, k)")
      case True
      with on r have e: "s' = s\<lparr>lastVoxelWasOut := False, last_k := Some k\<rparr>" "D' = D"
        by (simp_all add: scanVoxel_def)
      show ?thesis
        unfolding e
      proof (rule scanInvI)
        from keep[of k]
        show "\<exists>lk. last_k (s\<lparr>lastVoxelWasOut := False, last_k := Some k\<rparr>) = Some lk
          \<and> (\<forall>c. walked M i j lk (k + s2 - 1) c \<longrightarrow> voxel D c = voxel D0 c)"
          by simp
      qed (simp_all add: d(1-3) ahead)
    next
      case off: False
      let ?D1 = "iter_setValue D (i, j, k) (- voxel D (i, j, k))"
      show ?thesis
      proof (cases "lastVoxelWasOut s")
        case True
        with on off r have e: "s' = s" "D' = ?D1"
          by (auto simp: scanVoxel_def refWrite_def getValue_def split: if_splits)
        show ?thesis
          unfolding e
        proof (rule scanInvI)
          fix a b n assume "a \<noteq> i \<or> j < b \<or> (b = j \<and> k + s2 \<le> n)"
          with ahead[of a b n] s2 show "voxel ?D1 (a, b, n) = voxel D0 (a, b, n)"
            by (auto simp: iter_setValue_def)
        qed (simp_all add: d(1-3) True iter_setValue_def)
      next
        case f: False
        from d(5)[OF f] obtain lk where l: "last_k s = Some lk" by blast
        show ?thesis
        proof (cases "probeNeighbours offs D (i, j, k)")
          case True
          with on off f l r obtain D2 where
            b: "backtrace M i j lk (k - 1) ?D1 = Some D2"
            and e: "s' = s\<lparr>lastVoxelWasOut := True, last_k := Some k\<rparr>" "D' = D2"
            by (auto simp: scanVoxel_def refWrite_def getValue_def
                split: if_splits option.splits bind_splits)
          from backtrace_Some[OF b] have
            a: "active D2 = active ?D1" "leafs D2 = leafs ?D1" "leafDim D2 = leafDim ?D1"
            and v: "\<And>c. voxel D2 c = (if walked M i j lk (k - 1) c then \<bar>voxel ?D1 c\<bar> else voxel ?D1 c)"
            by (simp_all del: split_paired_All)
          show ?thesis
            unfolding e
          proof (rule scanInvI)
            fix a b n assume h: "a \<noteq> i \<or> j < b \<or> (b = j \<and> k + s2 \<le> n)"
            with s2 have "\<not> walked M i j lk (k - 1) (a, b, n)" "(a, b, n) \<noteq> (i, j, k)"
              by (auto simp: walked_iff)
            with ahead[OF h] show "voxel D2 (a, b, n) = voxel D0 (a, b, n)"
              by (auto simp: v iter_setValue_def)
          qed (simp_all add: a d(1-3) iter_setValue_def)
        next
          case False
          with on off f l r have e: "s' = s\<lparr>last_k := Some (min k lk)\<rparr>" "D' = D"
            by (simp_all add: scanVoxel_def)
          show ?thesis
            unfolding e
          proof (rule scanInvI)
            from keep[of "min k lk"] f l
            show "\<exists>lk'. last_k (s\<lparr>last_k := Some (min k lk)\<rparr>) = Some lk'
              \<and> (\<forall>c. walked M i j lk' (k + s2 - 1) c \<longrightarrow> voxel D c = voxel D0 c)"
              by simp
          qed (simp_all add: d(1-3) ahead)
        qed
      qed
    qed
  qed
qed

text \<open>At a state of the scan of a slice that the voxelizer left, with the flag cleared, the
  walked sites are as the voxelizer left them and the active sites lie in leaves.\<close>

lemma scanInv_unswept:
  assumes "scanInv M D0 i j k (s, D)" and "\<forall>b n. unswept D0 (i, b, n)"
    and "\<not> lastVoxelWasOut s"
  shows "\<exists>lk. last_k s = Some lk \<and> (\<forall>c. walked M i j lk (k - 1) c \<longrightarrow> unswept D c)"
proof -
  note d = scanInvD[OF assms(1)]
  from d(5)[OF assms(3)] obtain lk where l: "last_k s = Some lk"
    and w: "\<And>c. walked M i j lk (k - 1) c \<Longrightarrow> voxel D c = voxel D0 c" by blast
  have "unswept D c" if h: "walked M i j lk (k - 1) c" for c
  proof -
    obtain a b n where c: "c = (a, b, n)" by (cases c) auto
    from h have "a = i" by (simp add: c walked_iff)
    with assms(2) have "unswept D0 c" by (simp add: c)
    with w[OF h] show ?thesis by (simp add: unswept_def d(1))
  qed
  with l show ?thesis by blast
qed

lemma scanInv_activeInLeaf:
  assumes "scanInv M D0 i j k (s, D)" and "activeInLeaf D0"
  shows "activeInLeaf D"
  using assms(2) scanInvD(1-3)[OF assms(1)]
  by (simp add: activeInLeaf_def probeLeaf_def)

text \<open>At such a state every visit returns.\<close>

lemma scanVoxel_returns:
  assumes inv: "scanInv M D0 i j k (s, D)" and u: "\<forall>b n. unswept D0 (i, b, n)"
    and al: "activeInLeaf D0"
  shows "\<exists>sD'. scanVoxel offs M (i, j, k) (s, D) = Some sD'"
proof (cases "isValueOn D (i, j, k) \<and> \<not> isValueOn M (i, j, k)")
  case False
  then show ?thesis by (auto simp: scanVoxel_def)
next
  case True
  then have on: "isValueOn D (i, j, k)" and off: "\<not> isValueOn M (i, j, k)" by simp_all
  from on have "active D (i, j, k)" by (simp add: isValueOn_def)
  with scanInv_activeInLeaf[OF inv al] have leaf: "probeLeaf D (i, j, k)"
    unfolding activeInLeaf_def by blast
  show ?thesis
  proof (cases "lastVoxelWasOut s")
    case True
    with on off leaf show ?thesis by (simp add: scanVoxel_def refWrite_def)
  next
    case f: False
    from scanInv_unswept[OF inv u f] obtain lk where l: "last_k s = Some lk"
      and w: "\<And>c. walked M i j lk (k - 1) c \<Longrightarrow> unswept D c" by blast
    show ?thesis
    proof (cases "probeNeighbours offs D (i, j, k)")
      case False
      with on off f l show ?thesis by (simp add: scanVoxel_def)
    next
      case True
      have "\<forall>c. walked M i j lk (k - 1) c \<and> voxel D c < 0 \<longrightarrow> probeLeaf D c"
      proof (intro allI impI)
        fix c assume h: "walked M i j lk (k - 1) c \<and> voxel D c < 0"
        with w[of c] have "active D c" by (auto simp: unswept_def split: if_splits)
        with scanInv_activeInLeaf[OF inv al] show "probeLeaf D c"
          unfolding activeInLeaf_def by blast
      qed
      from scanVoxel_backtrace[OF on off f l True leaf this] show ?thesis by blast
    qed
  qed
qed

text \<open>The distance tree of a voxelizer is such a tree.\<close>

lemma partialResult_unswept:
  assumes "partialResult st"
  shows "unswept (mSqrDistTree st) c" and "activeInLeaf (mSqrDistTree st)"
proof -
  from assms have p: "0 < leafDim (mSqrDistTree st)"
    and a: "\<And>c. active (mSqrDistTree st) c \<Longrightarrow>
              probeLeaf (mSqrDistTree st) c \<and> voxel (mSqrDistTree st) c \<le> 0"
    and n: "\<And>c. \<not> active (mSqrDistTree st) c \<Longrightarrow> voxel (mSqrDistTree st) c = DistValueT_max"
    unfolding partialResult_def by blast+
  show "unswept (mSqrDistTree st) c"
    using a[of c] n[of c] DistValueT_max_pos by (simp add: unswept_def)
  show "activeInLeaf (mSqrDistTree st)"
    unfolding activeInLeaf_def using p a by blast
qed

text \<open>The next row.\<close>

lemma scanInv_row:
  assumes "scanInv M D0 i j k (s, D)" and "j < j'"
  shows "scanInv M D0 i j' k0 (s, D)"
proof -
  note d = scanInvD[OF assms(1)]
  show ?thesis
  proof (rule scanInvI)
    fix a b n assume "a \<noteq> i \<or> j' < b \<or> (b = j' \<and> k0 \<le> n)"
    with assms(2) show "voxel D (a, b, n) = voxel D0 (a, b, n)"
      by (intro d(4)) auto
  next
    assume f: "\<not> lastVoxelWasOut s"
    from d(5)[OF f] obtain lk where l: "last_k s = Some lk" by blast
    have "voxel D c = voxel D0 c" if w: "walked M i j' lk (k0 - 1) c" for c
    proof -
      obtain a b n where c: "c = (a, b, n)" by (cases c) auto
      from w have "b = j'" by (simp add: c walked_iff)
      with assms(2) d(4)[of a b n] show ?thesis by (simp add: c)
    qed
    with l show "\<exists>lk. last_k s = Some lk
        \<and> (\<forall>c. walked M i j' lk (k0 - 1) c \<longrightarrow> voxel D c = voxel D0 c)"
      by blast
  qed (simp_all add: d(1-3))
qed

lemma stepSizeAt_pos:
  assumes "\<forall>x \<in> set stepSize. 0 < x" and "stepSizeAt stepSize gvd ijk = Some s2"
  shows "0 < s2"
  using assms by (auto simp: stepSizeAt_def Let_def split: if_splits)

text \<open>The loops over the sites of a row and over the rows of a slice.\<close>

declare kLoop.simps [simp del]

declare jLoop.simps [simp del]

lemma kLoop_scanInv:
  assumes pos: "\<forall>x \<in> set (mStepSize tr). 0 < x"
  shows "scanInv M D0 i j k (s, D) \<Longrightarrow> 0 < fst (snd step) \<Longrightarrow>
         kLoop fuel tr gvd offs M i j k (step, s, D) = Some (k', step', s', D') \<Longrightarrow>
         scanInv M D0 i j k' (s', D') \<and> 0 < fst (snd step')"
proof (induction fuel arbitrary: k step s D)
  case 0
  then show ?case by (subst (asm) kLoop.simps) (simp split: if_splits)
next
  case (Suc fuel)
  show ?case
  proof (cases "k \<le> snd (snd (mBBox_max tr))")
    case False
    with Suc.prems show ?thesis by (subst (asm) kLoop.simps) simp
  next
    case True
    obtain s0 s1 sx where st: "step = (s0, s1, sx)" by (cases step) auto
    from True Suc.prems(3) obtain s2 s1' D1 where
      z: "stepSizeAt (mStepSize tr) gvd (i, j, k) = Some s2"
      and v: "scanVoxel offs M (i, j, k) (s, D) = Some (s1', D1)"
      and l: "kLoop fuel tr gvd offs M i j (k + s2) ((min s0 s2, min s1 s2, s2), s1', D1)
                = Some (k', step', s', D')"
      by (subst (asm) kLoop.simps) (auto simp: st split: bind_splits)
    from stepSizeAt_pos[OF pos z] have p: "0 < s2" .
    from Suc.prems(2) p have q: "0 < fst (snd (min s0 s2, min s1 s2, s2))" by (simp add: st)
    from Suc.IH[OF scanVoxel_scanInv[OF Suc.prems(1) v p] q l] show ?thesis .
  qed
qed

lemma jLoop_scanInv:
  assumes pos: "\<forall>x \<in> set (mStepSize tr). 0 < x"
  shows "scanInv M D0 i j (snd (snd (mBBox_min tr))) (s, D) \<Longrightarrow>
         jLoop fuel tr gvd offs M i j k (step, s, D) = Some (step', s', D') \<Longrightarrow>
         \<exists>j'. scanInv M D0 i j' (snd (snd (mBBox_min tr))) (s', D')"
proof (induction fuel arbitrary: j k step s D)
  case 0
  then show ?case by (subst (asm) jLoop.simps) (auto split: if_splits)
next
  case (Suc fuel)
  show ?case
  proof (cases "j \<le> fst (snd (mBBox_max tr))")
    case False
    with Suc.prems show ?thesis by (subst (asm) jLoop.simps) auto
  next
    case True
    obtain s0 sx s2 where st: "step = (s0, sx, s2)" by (cases step) auto
    from True Suc.prems(2) obtain s1 k2 step2 sa Da where
      z: "stepSizeAt (mStepSize tr) gvd (i, j, k) = Some s1"
      and l: "kLoop fuel tr gvd offs M i j (snd (snd (mBBox_min tr))) ((min s0 s1, s1, s2), s, D)
                = Some (k2, step2, sa, Da)"
      and n: "jLoop fuel tr gvd offs M i (j + fst (snd step2)) k2 (step2, sa, Da)
                = Some (step', s', D')"
      by (subst (asm) jLoop.simps) (auto simp: st split: bind_splits)
    from stepSizeAt_pos[OF pos z] have "0 < fst (snd (min s0 s1, s1, s2))" by simp
    from kLoop_scanInv[OF pos Suc.prems(1) this l]
    have i2: "scanInv M D0 i j k2 (sa, Da)" and p2: "0 < fst (snd step2)" by simp_all
    from p2 have "j < j + fst (snd step2)" by simp
    from Suc.IH[OF scanInv_row[OF i2 this] n] show ?thesis .
  qed
qed

text \<open>The scan of a slice keeps the states and the leaves, and writes in its slice only.\<close>

lemma sparseScan_scanInv:
  assumes "\<forall>x \<in> set (mStepSize tr). 0 < x"
    and "sparseScan fuel tr gvd offs M i D0 = Some (iStep, D')"
  shows "active D' = active D0 \<and> leafs D' = leafs D0 \<and> leafDim D' = leafDim D0
       \<and> (\<forall>a b n. a \<noteq> i \<longrightarrow> voxel D' (a, b, n) = voxel D0 (a, b, n))"
proof -
  from assms(2) obtain step s s0 where
    "jLoop fuel tr gvd offs M i (fst (snd (mBBox_min tr))) (snd (snd (mBBox_min tr)))
       ((s0, s0, s0), \<lparr>lastVoxelWasOut = True, last_k = None\<rparr>, D0) = Some (step, s, D')"
    by (auto simp: sparseScan_def Let_def split: bind_splits)
  from jLoop_scanInv[OF assms(1) scanInv_start this]
  obtain j' where "scanInv M D0 i j' (snd (snd (mBBox_min tr))) (s, D')" by blast
  from scanInvD(1-4)[OF this] show ?thesis by blast
qed

subsection \<open>The trim pass in unsigned mode\<close>








subsection \<open>One expansion step, site by site\<close>
























end
